(* ===== verification/Prelude.thy ===== *)
theory Prelude
  imports "HOL-Library.Word" "HOL-Library.Finite_Map" "HOL-Library.Monad_Syntax"
begin

text \<open>
  Shared vocabulary of the development: machine integers at their width, IEEE-754
  values by bit pattern, ordered maps, decimal rendering, and the generic lemmas the
  component theories use.

  \<^item> \<open>u8\<close> \dots \<open>u64\<close> are words; \<open>sat_add\<close> and \<open>sat_sub\<close> are Rust's
    \<open>saturating_add\<close> and \<open>saturating_sub\<close>.
  \<^item> A \<open>BTreeMap\<close>, \<open>HashMap\<close> or \<open>HashSet\<close> is a finite map or finite set;
    iteration over a \<open>BTreeMap\<close> is \<open>btree_entries\<close>, in ascending key order.
  \<^item> A floating point number that the code only stores, copies and compares is its bit
    pattern; \<open>f32_eq\<close> and \<open>f64_eq\<close> are the IEEE comparison on bit patterns (a NaN
    differs from itself, the two zeros are equal).
\<close>

unbundle bit_operations_syntax

section \<open>Machine integers\<close>

type_synonym u8 = "8 word"
type_synonym u16 = "16 word"
type_synonym u32 = "32 word"
type_synonym u64 = "64 word"

definition u64_max :: u64 where
  "u64_max = - 1"

definition sat_add :: "'a::len word \<Rightarrow> 'a word \<Rightarrow> 'a word" where
  "sat_add a b = (if a \<le> a + b then a + b else - 1)"

definition sat_sub :: "'a::len word \<Rightarrow> 'a word \<Rightarrow> 'a word" where
  "sat_sub a b = (if b \<le> a then a - b else 0)"

named_theorems sat_simps \<open>reading saturating arithmetic on the naturals\<close>

lemma word_plus_no_wrap_iff:
  fixes a b :: "'a::len word"
  shows "a \<le> a + b \<longleftrightarrow> unat a + unat b < 2 ^ LENGTH('a)"
  by (metis no_olen_add_nat)

lemma unat_minus_one_word: "unat (- 1 :: 'a::len word) = 2 ^ LENGTH('a) - 1"
  by (simp add: unsigned_minus_1_eq_mask mask_eq_exp_minus_1)

lemma unat_le_max: "unat a \<le> 2 ^ LENGTH('a) - Suc 0" for a :: "'a::len word"
proof -
  have "unat a < 2 ^ LENGTH('a)" by simp
  then show ?thesis by linarith
qed

lemma unat_sat_add [sat_simps]:
  fixes a b :: "'a::len word"
  shows "unat (sat_add a b) = min (unat a + unat b) (2 ^ LENGTH('a) - 1)"
proof (cases "a \<le> a + b")
  case True
  then have "unat a + unat b < 2 ^ LENGTH('a)" by (simp add: word_plus_no_wrap_iff)
  with True show ?thesis by (simp add: sat_add_def unat_word_ariths)
next
  case False
  then have "2 ^ LENGTH('a) \<le> unat a + unat b" by (simp add: word_plus_no_wrap_iff)
  moreover have "(0 :: nat) < 2 ^ LENGTH('a)" by simp
  ultimately have "min (unat a + unat b) (2 ^ LENGTH('a) - 1) = 2 ^ LENGTH('a) - 1" by linarith
  with False show ?thesis by (simp add: sat_add_def unat_minus_one_word)
qed

lemma unat_sat_sub [sat_simps]:
  fixes a b :: "'a::len word"
  shows "unat (sat_sub a b) = unat a - unat b"
  by (simp add: sat_sub_def word_le_nat_alt unat_sub_if')

lemma sat_add_ge1: "a \<le> sat_add a b" and sat_add_ge2: "b \<le> sat_add a b"
  for a b :: "'a::len word"
  by (simp_all add: word_le_nat_alt sat_simps unat_le_max)

lemma sat_add_zero [simp]: "sat_add a 0 = a" "sat_add 0 a = a"
  by (simp_all add: sat_add_def)

lemma sat_sub_self [simp]: "sat_sub a a = 0"
  by (simp add: sat_sub_def)

lemma sat_sub_le: "sat_sub a b \<le> a"
  by (simp add: word_le_nat_alt sat_simps)

lemma sat_sub_sat_add_le: "sat_sub (sat_add a b) a \<le> b"
  by (simp add: word_le_nat_alt sat_simps)

lemma sat_add_mono: "b \<le> c \<Longrightarrow> sat_add a b \<le> sat_add a c"
  by (simp add: word_le_nat_alt sat_simps min_def)

lemma sat_succ_gt: "a \<noteq> - 1 \<Longrightarrow> a < sat_add a 1"
  for a :: "'a::len word"
proof -
  assume "a \<noteq> - 1"
  then have "unat a \<noteq> 2 ^ LENGTH('a) - 1" by (metis unat_minus_one_word word_unat_eq_iff)
  then have "unat a < 2 ^ LENGTH('a) - 1" using unat_le_max [of a] by simp
  moreover have "unat (1 :: 'a word) = 1" by simp
  ultimately show ?thesis by (simp add: word_less_nat_alt sat_simps)
qed

section \<open>IEEE-754 values by bit pattern\<close>

type_synonym f32 = "32 word"
type_synonym f64 = "64 word"

definition f32_nan :: "f32 \<Rightarrow> bool" where
  "f32_nan b \<longleftrightarrow> 0x7F800000 < b AND 0x7FFFFFFF"

definition f32_eq :: "f32 \<Rightarrow> f32 \<Rightarrow> bool" where
  "f32_eq a b \<longleftrightarrow> \<not> f32_nan a \<and> \<not> f32_nan b \<and>
     (a = b \<or> a AND 0x7FFFFFFF = 0 \<and> b AND 0x7FFFFFFF = 0)"

definition f64_nan :: "f64 \<Rightarrow> bool" where
  "f64_nan b \<longleftrightarrow> 0x7FF0000000000000 < b AND 0x7FFFFFFFFFFFFFFF"

definition f64_eq :: "f64 \<Rightarrow> f64 \<Rightarrow> bool" where
  "f64_eq a b \<longleftrightarrow> \<not> f64_nan a \<and> \<not> f64_nan b \<and>
     (a = b \<or> a AND 0x7FFFFFFFFFFFFFFF = 0 \<and> b AND 0x7FFFFFFFFFFFFFFF = 0)"

text \<open>The literals \<open>0.0\<close>, \<open>1.0\<close> (f32) and \<open>120.0\<close> (f64).\<close>

definition f32_zero :: f32 where "f32_zero = 0"
definition f32_one :: f32 where "f32_one = 0x3F800000"
definition f64_120 :: f64 where "f64_120 = 0x405E000000000000"

section \<open>Ordered maps\<close>

abbreviation btree_entries :: "('k::linorder, 'v) fmap \<Rightarrow> ('k \<times> 'v) list" where
  "btree_entries \<equiv> sorted_list_of_fmap"

definition btree_keys :: "('k::linorder, 'v) fmap \<Rightarrow> 'k list" where
  "btree_keys m = sorted_list_of_fset (fmdom m)"

definition contains_key :: "('k, 'v) fmap \<Rightarrow> 'k \<Rightarrow> bool" where
  "contains_key m k \<longleftrightarrow> k |\<in>| fmdom m"

lemma contains_key_iff: "contains_key m k \<longleftrightarrow> fmlookup m k \<noteq> None"
  by (simp add: contains_key_def fmlookup_dom_iff)

lemma contains_key_upd [simp]: "contains_key (fmupd k v m) j \<longleftrightarrow> j = k \<or> contains_key m j"
  by (auto simp: contains_key_def)

lemma contains_key_empty [simp]: "\<not> contains_key fmempty k"
  by (simp add: contains_key_def)

lemma contains_key_Some [intro]: "fmlookup m k = Some v \<Longrightarrow> contains_key m k"
  by (simp add: contains_key_iff)

lemma set_btree_keys [simp]: "set (btree_keys m) = fset (fmdom m)"
  by (simp add: btree_keys_def sorted_list_of_fset.rep_eq)

lemma distinct_btree_keys [simp]: "distinct (btree_keys m)"
  by (simp add: btree_keys_def sorted_list_of_fset.rep_eq)

lemma sorted_btree_keys [simp]: "sorted (btree_keys m)"
  by (simp add: btree_keys_def sorted_list_of_fset.rep_eq)

lemma mem_btree_keys_iff: "k \<in> set (btree_keys m) \<longleftrightarrow> contains_key m k"
  by (simp add: contains_key_def)

lemma btree_entries_alt: "btree_entries m = map (\<lambda>k. (k, the (fmlookup m k))) (btree_keys m)"
  by (simp add: sorted_list_of_fmap_def btree_keys_def)

lemma map_fst_btree_entries [simp]: "map fst (btree_entries m) = btree_keys m"
  by (simp add: btree_entries_alt comp_def)

lemma set_btree_entries: "(k, v) \<in> set (btree_entries m) \<longleftrightarrow> fmlookup m k = Some v"
  by (auto simp: btree_entries_alt image_iff fmlookup_dom_iff)

lemma fmupd_twice [simp]: "fmupd k v (fmupd k w m) = fmupd k v m"
  by (rule fmap_ext) simp

lemma fmupd_commute: "j \<noteq> k \<Longrightarrow> fmupd j v (fmupd k w m) = fmupd k w (fmupd j v m)"
  by (rule fmap_ext) auto

lemma fmupd_same: "fmlookup m k = Some v \<Longrightarrow> fmupd k v m = m"
  by (rule fmap_ext) auto

text \<open>Changing the entry of a key, starting from a default: \<open>entry(k).or_insert(d)\<close>.\<close>

definition fm_alter :: "'v \<Rightarrow> 'k \<Rightarrow> ('v \<Rightarrow> 'v) \<Rightarrow> ('k, 'v) fmap \<Rightarrow> ('k, 'v) fmap" where
  "fm_alter d k f m = fmupd k (f (case fmlookup m k of None \<Rightarrow> d | Some v \<Rightarrow> v)) m"

lemma fm_alter_lookup [simp]:
  "fmlookup (fm_alter d k f m) j =
    (if j = k then Some (f (case fmlookup m k of None \<Rightarrow> d | Some v \<Rightarrow> v)) else fmlookup m j)"
  by (simp add: fm_alter_def)

lemma contains_key_alter [simp]: "contains_key (fm_alter d k f m) j \<longleftrightarrow> j = k \<or> contains_key m j"
  by (simp add: contains_key_iff)

lemma fm_alter_commute:
  "(\<And>x. j = k \<Longrightarrow> f (g x) = g (f x)) \<Longrightarrow>
    fm_alter d j f (fm_alter d k g m) = fm_alter d k g (fm_alter d j f m)"
  by (rule fmap_ext) auto

lemma fm_alter_idem:
  "(\<And>x. f (f x) = f x) \<Longrightarrow> fm_alter d k f (fm_alter d k f m) = fm_alter d k f m"
  by (rule fmap_ext) auto

lemma fm_alter_present:
  "fmlookup m k = Some v \<Longrightarrow> fm_alter d k f m = fmupd k (f v) m"
  by (simp add: fm_alter_def)

section \<open>Sorting by a key\<close>

lemma sort_key_perm_eq:
  assumes "set xs = set ys" "distinct xs" "distinct ys" "inj_on f (set xs)"
  shows "sort_key f xs = sort_key f ys"
proof (rule map_sorted_distinct_set_unique)
  show "inj_on f (set (sort_key f xs) \<union> set (sort_key f ys))" using assms by simp
  show "sorted (map f (sort_key f xs))" "sorted (map f (sort_key f ys))" by simp_all
  show "distinct (map f (sort_key f xs))" "distinct (map f (sort_key f ys))"
    using assms by (simp_all add: distinct_map)
  show "set (sort_key f xs) = set (sort_key f ys)" using assms by simp
qed

section \<open>Decimal rendering\<close>

text \<open>The text \<open>format!("{}")\<close> gives for a number.\<close>

fun show_nat :: "nat \<Rightarrow> string" where
  "show_nat n =
     (if n < 10 then [char_of (48 + n)] else show_nat (n div 10) @ [char_of (48 + n mod 10)])"

declare show_nat.simps [simp del]

lemma show_nat_nonempty: "show_nat n \<noteq> []"
  by (subst show_nat.simps) simp

end
