(* ===== verification/Ids.thy ===== *)
theory Ids
  imports Prelude
begin

text \<open>
  Peer and operation identifiers (\<open>tpt-av-sync-utils/src/peer_id.rs\<close>,
  \<open>operation_id.rs\<close>): the newtype \<open>peer_id\<close> with its derived order, the
  SplitMix64 finalizer and the id generator (the wall clock, the process id and the
  counter are arguments), and \<open>operation_id\<close> with the lexicographic order that ranks
  every operation. The lemmas show the order total (a \<open>linorder\<close> instance), the
  finalizer a bijection, and ids drawn by one process at one clock reading distinct.
\<close>

section \<open>Peer ids\<close>

datatype peer_id = PeerId (peer_raw: u64)

definition peer_from_u64 :: "u64 \<Rightarrow> peer_id" where
  "peer_from_u64 raw = PeerId raw"

instantiation peer_id :: linorder
begin

definition less_eq_peer_id :: "peer_id \<Rightarrow> peer_id \<Rightarrow> bool" where
  "less_eq_peer_id a b \<longleftrightarrow> peer_raw a \<le> peer_raw b"

definition less_peer_id :: "peer_id \<Rightarrow> peer_id \<Rightarrow> bool" where
  "less_peer_id a b \<longleftrightarrow> peer_raw a < peer_raw b"

instance
  by intro_classes (auto simp: less_eq_peer_id_def less_peer_id_def peer_id.expand)

end

lemma peer_id_le_iff [simp]: "PeerId a \<le> PeerId b \<longleftrightarrow> a \<le> b"
  by (simp add: less_eq_peer_id_def)

lemma peer_id_less_iff [simp]: "PeerId a < PeerId b \<longleftrightarrow> a < b"
  by (simp add: less_peer_id_def)

lemma peer_id_zero_least: "PeerId 0 \<le> p"
  by (cases p) simp

section \<open>Id generation\<close>

definition xorshift :: "nat \<Rightarrow> u64 \<Rightarrow> u64" where
  "xorshift k z = z XOR drop_bit k z"

definition mix64 :: "u64 \<Rightarrow> u64" where
  "mix64 z =
     (let z = (z XOR drop_bit 30 z) * 0xbf58476d1ce4e5b9;
          z = (z XOR drop_bit 27 z) * 0x94d049bb133111eb
      in z XOR drop_bit 31 z)"

text \<open>
  One draw: the value of \<open>PEER_COUNTER.fetch_add(1)\<close>, the clock in nanoseconds and
  the process id give the raw id; the second component is the counter afterwards.
\<close>

definition raw_generated_u64 :: "u64 \<Rightarrow> u64 \<Rightarrow> u32 \<Rightarrow> u64 \<times> u64" where
  "raw_generated_u64 counter nanos pid =
     (mix64 (nanos XOR word_rotl 32 (ucast pid) XOR word_rotl 17 (push_bit 1 counter)),
      counter + 1)"

definition peer_generate :: "u64 \<Rightarrow> u64 \<Rightarrow> u32 \<Rightarrow> peer_id \<times> u64" where
  "peer_generate counter nanos pid =
     (PeerId (mix64 (nanos XOR word_rotl 32 (ucast pid) XOR word_rotl 17 (push_bit 1 counter))),
      counter + 1)"

lemma xor_cancel_left: "a XOR b = a XOR c \<Longrightarrow> b = c" for a b c :: u64
  by (simp add: bit_eq_iff bit_xor_iff) blast

lemma xor_exchange: "a XOR b = c XOR d \<Longrightarrow> a XOR c = b XOR d" for a b c d :: u64
  by (simp add: bit_eq_iff bit_xor_iff) blast

lemma xor_zero_eq: "a XOR b = 0 \<Longrightarrow> a = b" for a b :: u64
  by (simp add: bit_eq_iff bit_xor_iff)

lemma xorshift_fixed_zero:
  fixes z :: u64
  assumes "0 < k" and "z = drop_bit k z"
  shows "z = 0"
proof (rule bit_word_eqI)
  fix n
  have step: "bit z n \<longleftrightarrow> bit z (n + k)" for n
  proof -
    have "bit z n \<longleftrightarrow> bit (drop_bit k z) n" using assms(2) by simp
    then show ?thesis by (simp add: bit_drop_bit_eq add.commute)
  qed
  have iter: "bit z n \<longleftrightarrow> bit z (n + j * k)" for j
  proof (induction j)
    case 0
    show ?case by simp
  next
    case (Suc j)
    have "n + Suc j * k = (n + j * k) + k" by simp
    with Suc step [of "n + j * k"] show ?case by (simp only:)
  qed
  have "\<not> bit z (n + 64 * k)"
    using assms(1) by (intro notI) (auto dest: bit_imp_le_length)
  then show "bit z n \<longleftrightarrow> bit (0 :: u64) n" using iter [of 64] by simp
qed

lemma inj_xorshift: "0 < k \<Longrightarrow> inj (xorshift k)"
proof (rule injI)
  fix x y :: u64
  assume k: "0 < k" and eq: "xorshift k x = xorshift k y"
  have "x XOR drop_bit k x = y XOR drop_bit k y" using eq by (simp only: xorshift_def)
  then have "x XOR y = drop_bit k x XOR drop_bit k y" by (rule xor_exchange)
  then have "x XOR y = drop_bit k (x XOR y)" by (subst drop_bit_xor)
  then have "x XOR y = 0" by (rule xorshift_fixed_zero [OF k])
  then show "x = y" by (rule xor_zero_eq)
qed

lemma inj_mult_unit:
  fixes c d :: u64
  assumes "c * d = 1"
  shows "inj (\<lambda>z. z * c)"
proof (rule injI)
  fix x y :: u64
  assume "x * c = y * c"
  then have "x * c * d = y * c * d" by simp
  then show "x = y" using assms by (simp add: mult.assoc)
qed

lemma mix64_eq:
  "mix64 = xorshift 31 \<circ> (\<lambda>z. z * 0x94d049bb133111eb) \<circ> xorshift 27 \<circ>
     (\<lambda>z. z * 0xbf58476d1ce4e5b9) \<circ> xorshift 30"
  by (simp add: fun_eq_iff mix64_def xorshift_def Let_def)

lemma inj_mix64: "inj mix64"
  unfolding mix64_eq
  by (intro inj_compose inj_xorshift inj_mult_unit [where d = "0x319642b2d24d8ec3"]
        inj_mult_unit [where d = "0x96de1b173f119089"]) simp_all

section \<open>Operation ids\<close>

datatype operation_id = OperationId (oid_lamport: u64) (oid_peer: peer_id)

instantiation operation_id :: linorder
begin

definition less_eq_operation_id :: "operation_id \<Rightarrow> operation_id \<Rightarrow> bool" where
  "less_eq_operation_id a b \<longleftrightarrow> oid_lamport a < oid_lamport b \<or>
     oid_lamport a = oid_lamport b \<and> oid_peer a \<le> oid_peer b"

definition less_operation_id :: "operation_id \<Rightarrow> operation_id \<Rightarrow> bool" where
  "less_operation_id a b \<longleftrightarrow> oid_lamport a < oid_lamport b \<or>
     oid_lamport a = oid_lamport b \<and> oid_peer a < oid_peer b"

instance
  by intro_classes
    (auto simp: less_eq_operation_id_def less_operation_id_def intro: operation_id.expand)

end

lemma operation_id_less_iff [simp]:
  "OperationId l p < OperationId m q \<longleftrightarrow> l < m \<or> l = m \<and> p < q"
  by (simp add: less_operation_id_def)

text \<open>Ids drawn by one process are distinct: for a fixed process id and clock
  reading (the worst case, which the counter is there for) two draws give the same id
  exactly when their counters agree modulo \<open>2 ^ 63\<close>, because the finalizer is injective
  and the counter loses its top bit to the shift.\<close>

theorem peer_generate_distinct:
  "fst (peer_generate c nanos pid) = fst (peer_generate d nanos pid) \<longleftrightarrow> push_bit 1 c = push_bit 1 d"
proof
  assume "fst (peer_generate c nanos pid) = fst (peer_generate d nanos pid)"
  then have "nanos XOR word_rotl 32 (ucast pid) XOR word_rotl 17 (push_bit 1 c) =
        nanos XOR word_rotl 32 (ucast pid) XOR word_rotl 17 (push_bit 1 d)"
    by (simp add: peer_generate_def inj_eq [OF inj_mix64])
  then have "word_rotl 17 (push_bit 1 c) = word_rotl 17 (push_bit 1 d)"
    by (rule xor_cancel_left [OF xor_cancel_left])
  then show "push_bit 1 c = push_bit 1 d" by (metis word_rot_gal)
qed (simp add: peer_generate_def)

end
