(* ===== verification/Clocks.thy ===== *)
theory Clocks
  imports Ids
begin

text \<open>
  Logical clocks (\<open>tpt-av-sync-utils/src/clock.rs\<close>). A \<open>lamport_clock\<close> holds a
  64-bit counter that saturates; a \<open>vector_clock\<close> is a \<open>BTreeMap\<close> from peers to
  counters. \<open>increment\<close> is the unchecked \<open>+= 1\<close> of a release build: it wraps at
  \<open>2 ^ 64\<close>. The lemmas give the Lamport clock condition, the vector clock as a
  join-semilattice under \<open>vc_merge\<close>, and \<open>happens_before\<close> as the strict pointwise
  order on clocks without zero entries (with zero entries it is not even asymmetric).
\<close>

section \<open>Lamport clocks\<close>

record lamport_clock =
  lc_counter :: u64

definition lamport_new :: "u64 \<Rightarrow> lamport_clock" where
  "lamport_new start = \<lparr>lc_counter = start\<rparr>"

definition lamport_tick :: "lamport_clock \<Rightarrow> u64 \<times> lamport_clock" where
  "lamport_tick c = (let n = sat_add (lc_counter c) 1 in (n, c\<lparr>lc_counter := n\<rparr>))"

definition lamport_observe :: "lamport_clock \<Rightarrow> u64 \<Rightarrow> lamport_clock" where
  "lamport_observe c remote =
     (if lc_counter c < remote then c\<lparr>lc_counter := remote\<rparr> else c)"

definition lamport_get :: "lamport_clock \<Rightarrow> u64" where
  "lamport_get c = lc_counter c"

named_theorems lamport_simps \<open>unfolding the Lamport clock operations\<close>
declare lamport_new_def [lamport_simps] lamport_tick_def [lamport_simps]
  lamport_observe_def [lamport_simps] lamport_get_def [lamport_simps]

lemma lamport_observe_counter [simp]:
  "lc_counter (lamport_observe c r) = max (lc_counter c) r"
  by (auto simp: lamport_observe_def max_def)

lemma lamport_tick_value: "fst (lamport_tick c) = lc_counter (snd (lamport_tick c))"
  by (simp add: lamport_simps Let_def)

lemma lamport_tick_counter [simp]: "lc_counter (snd (lamport_tick c)) = sat_add (lc_counter c) 1"
  by (simp add: lamport_simps Let_def)

lemma lamport_tick_ge: "lc_counter c \<le> lc_counter (snd (lamport_tick c))"
  by (simp add: sat_add_ge1)

lemma lamport_tick_gt:
  "lc_counter c \<noteq> u64_max \<Longrightarrow> lc_counter c < fst (lamport_tick c)"
  by (simp add: lamport_tick_value sat_succ_gt u64_max_def)

section \<open>Vector clocks\<close>

type_synonym vector_clock = "(peer_id, u64) fmap"

definition vc_new :: vector_clock where
  "vc_new = fmempty"

definition vc_get :: "vector_clock \<Rightarrow> peer_id \<Rightarrow> u64" where
  "vc_get c p = (case fmlookup c p of None \<Rightarrow> 0 | Some v \<Rightarrow> v)"

definition vc_increment :: "vector_clock \<Rightarrow> peer_id \<Rightarrow> vector_clock" where
  "vc_increment c p =
     fmupd p ((case fmlookup c p of None \<Rightarrow> 0 | Some v \<Rightarrow> v) + 1) c"

definition vc_witness :: "vector_clock \<Rightarrow> peer_id \<Rightarrow> u64 \<Rightarrow> vector_clock" where
  "vc_witness c p v =
     (let slot = (case fmlookup c p of None \<Rightarrow> 0 | Some w \<Rightarrow> w)
      in fmupd p (if slot < v then v else slot) c)"

definition vc_merge :: "vector_clock \<Rightarrow> vector_clock \<Rightarrow> vector_clock" where
  "vc_merge c other = foldl (\<lambda>acc (p, v). vc_witness acc p v) c (btree_entries other)"

text \<open>
  The two loops of \<open>happens_before\<close>: the first returns \<open>None\<close> for the early
  \<open>return false\<close> and otherwise the flag \<open>strictly_less\<close>.
\<close>

fun vc_scan :: "vector_clock \<Rightarrow> (peer_id \<times> u64) list \<Rightarrow> bool \<Rightarrow> bool option" where
  "vc_scan other [] strictly_less = Some strictly_less"
| "vc_scan other ((p, v) # rest) strictly_less =
     (let o_val = vc_get other p
      in if o_val < v then None
         else vc_scan other rest (if v < o_val then True else strictly_less))"

fun vc_has_new_peer :: "vector_clock \<Rightarrow> peer_id list \<Rightarrow> bool" where
  "vc_has_new_peer c [] = False"
| "vc_has_new_peer c (p # rest) = (if \<not> contains_key c p then True else vc_has_new_peer c rest)"

definition vc_happens_before :: "vector_clock \<Rightarrow> vector_clock \<Rightarrow> bool" where
  "vc_happens_before c other =
     (case vc_scan other (btree_entries c) False of
        None \<Rightarrow> False
      | Some strictly_less \<Rightarrow>
          if \<not> strictly_less then vc_has_new_peer c (btree_keys other) else strictly_less)"

definition vc_is_concurrent :: "vector_clock \<Rightarrow> vector_clock \<Rightarrow> bool" where
  "vc_is_concurrent c other \<longleftrightarrow>
     \<not> vc_happens_before c other \<and> \<not> vc_happens_before other c \<and> c \<noteq> other"

definition vc_peers :: "vector_clock \<Rightarrow> peer_id list" where
  "vc_peers c = btree_keys c"

definition vc_len :: "vector_clock \<Rightarrow> nat" where
  "vc_len c = size (fmdom c)"

definition vc_is_empty :: "vector_clock \<Rightarrow> bool" where
  "vc_is_empty c \<longleftrightarrow> vc_len c = 0"

subsection \<open>Reading a clock\<close>

lemma vc_get_new [simp]: "vc_get vc_new p = 0"
  by (simp add: vc_get_def vc_new_def)

lemma vc_get_witness: "vc_get (vc_witness c p v) q = (if q = p then max (vc_get c p) v else vc_get c q)"
  by (auto simp: vc_get_def vc_witness_def Let_def max_def)

lemma vc_get_increment:
  "vc_get (vc_increment c p) q = (if q = p then vc_get c p + 1 else vc_get c q)"
  by (simp add: vc_get_def vc_increment_def)

lemma dom_vc_witness [simp]: "fmdom (vc_witness c p v) = finsert p (fmdom c)"
  by (simp add: vc_witness_def Let_def)

lemma foldl_witness_get:
  assumes "distinct (map fst es)"
  shows "vc_get (foldl (\<lambda>acc (p, v). vc_witness acc p v) c es) q =
    (case map_of es q of None \<Rightarrow> vc_get c q | Some v \<Rightarrow> max (vc_get c q) v)"
  using assms
proof (induction es arbitrary: c)
  case Nil
  show ?case by simp
next
  case (Cons e es)
  obtain p v where e: "e = (p, v)" by (cases e)
  have "map_of es p = None" using Cons.prems e by (simp add: map_of_eq_None_iff)
  with Cons e show ?case by (auto simp: vc_get_witness split: option.splits)
qed

lemma foldl_witness_dom:
  "fset (fmdom (foldl (\<lambda>acc (p, v). vc_witness acc p v) c es)) = fset (fmdom c) \<union> fst ` set es"
  by (induction es arbitrary: c) auto

lemma map_of_btree_entries: "map_of (btree_entries m) = fmlookup m"
proof
  fix k
  show "map_of (btree_entries m) k = fmlookup m k"
    by (cases "fmlookup m k")
      (auto simp: map_of_eq_None_iff fmlookup_dom_iff set_btree_entries
        intro!: map_of_is_SomeI simp flip: set_map)
qed

lemma vc_get_merge: "vc_get (vc_merge a b) p = max (vc_get a p) (vc_get b p)"
  by (simp add: vc_merge_def foldl_witness_get map_of_btree_entries)
    (simp add: vc_get_def max_def split: option.split)

lemma dom_vc_merge: "fmdom (vc_merge a b) = fmdom a |\<union>| fmdom b"
proof -
  have "fset (fmdom (vc_merge a b)) = fset (fmdom a) \<union> set (map fst (btree_entries b))"
    by (simp only: vc_merge_def foldl_witness_dom set_map)
  also have "\<dots> = fset (fmdom a |\<union>| fmdom b)" by simp
  finally show ?thesis by (rule fset_inject [THEN iffD1])
qed

lemma vc_eqI:
  assumes "fmdom a = fmdom b" and "\<And>p. vc_get a p = vc_get b p"
  shows "a = b"
proof (rule fmap_ext)
  fix p
  have "(fmlookup a p = None) = (fmlookup b p = None)"
    using assms(1) by (metis fmdom_notD fmdom_notI)
  with assms(2) [of p] show "fmlookup a p = fmlookup b p"
    by (cases "fmlookup a p"; cases "fmlookup b p") (auto simp: vc_get_def)
qed

subsection \<open>The causal order\<close>

lemma vc_scan_eq:
  "vc_scan other es b =
     (if \<forall>(p, v) \<in> set es. v \<le> vc_get other p
      then Some (b \<or> (\<exists>(p, v) \<in> set es. v < vc_get other p)) else None)"
  by (induction other es b rule: vc_scan.induct) (auto simp: Let_def not_less)

lemma vc_has_new_peer_iff: "vc_has_new_peer c ps \<longleftrightarrow> (\<exists>p \<in> set ps. \<not> contains_key c p)"
  by (induction c ps rule: vc_has_new_peer.induct) auto

lemma vc_entries_ball:
  "(\<forall>(p, v) \<in> set (btree_entries c). P p v) \<longleftrightarrow> (\<forall>p v. fmlookup c p = Some v \<longrightarrow> P p v)"
  by (auto simp: set_btree_entries)

lemma vc_entries_bex:
  "(\<exists>(p, v) \<in> set (btree_entries c). P p v) \<longleftrightarrow> (\<exists>p v. fmlookup c p = Some v \<and> P p v)"
  by (auto simp: set_btree_entries) blast

lemma vc_le_iff:
  "(\<forall>p v. fmlookup c p = Some v \<longrightarrow> v \<le> vc_get d p) \<longleftrightarrow> (\<forall>p. vc_get c p \<le> vc_get d p)"
  by (auto simp: vc_get_def split: option.splits)

lemma vc_happens_before_iff:
  "vc_happens_before c d \<longleftrightarrow> (\<forall>p. vc_get c p \<le> vc_get d p) \<and>
     ((\<exists>p. contains_key c p \<and> vc_get c p < vc_get d p) \<or>
      (\<exists>p. contains_key d p \<and> \<not> contains_key c p))"
proof -
  have "(\<exists>p v. fmlookup c p = Some v \<and> v < vc_get d p) \<longleftrightarrow>
        (\<exists>p. contains_key c p \<and> vc_get c p < vc_get d p)"
    by (auto simp: vc_get_def [of c] contains_key_iff) blast
  then show ?thesis
    unfolding vc_happens_before_def vc_scan_eq vc_entries_ball vc_entries_bex vc_le_iff
      vc_has_new_peer_iff
    by (auto simp: Bex_def mem_btree_keys_iff simp del: set_btree_keys)
qed

definition vc_no_zero :: "vector_clock \<Rightarrow> bool" where
  "vc_no_zero c \<longleftrightarrow> (\<forall>p. contains_key c p \<longrightarrow> vc_get c p \<noteq> 0)"

lemma vc_get_absent: "\<not> contains_key c p \<Longrightarrow> vc_get c p = 0"
  by (simp add: vc_get_def contains_key_iff)

lemma vc_happens_before_pointwise:
  assumes "vc_no_zero d"
  shows "vc_happens_before c d \<longleftrightarrow>
    (\<forall>p. vc_get c p \<le> vc_get d p) \<and> (\<exists>p. vc_get c p < vc_get d p)"
proof -
  have "vc_get c p < vc_get d p" if "contains_key d p" "\<not> contains_key c p" for p
    using that assms by (simp add: vc_no_zero_def vc_get_absent word_neq_0_conv)
  moreover have "contains_key d p" if "vc_get c p < vc_get d p" for p
    using that by (metis vc_get_absent word_not_simps(1))
  ultimately show ?thesis unfolding vc_happens_before_iff by blast
qed

lemma vc_happens_before_irrefl: "\<not> vc_happens_before c c"
  by (simp add: vc_happens_before_iff)

lemma vc_happens_before_trans:
  assumes "vc_no_zero b" "vc_no_zero c"
    and "vc_happens_before a b" "vc_happens_before b c"
  shows "vc_happens_before a c"
  using assms by (auto simp: vc_happens_before_pointwise) (meson order_le_less_trans order_trans)+

subsection \<open>Properties\<close>

text \<open>The Lamport clock condition: a peer that observes a timestamp
  and then ticks allocates a strictly greater timestamp, so an event after a receive is
  stamped later than the event it received, as long as the counter is not exhausted.\<close>

theorem lamport_receive_then_tick:
  assumes "lc_counter c \<noteq> u64_max" and "remote \<noteq> u64_max"
  shows "remote < fst (lamport_tick (lamport_observe c remote)) \<and>
    lc_counter c < fst (lamport_tick (lamport_observe c remote))"
proof -
  have "max (lc_counter c) remote \<noteq> u64_max" using assms by (simp add: max_def)
  then have "max (lc_counter c) remote < sat_add (max (lc_counter c) remote) 1"
    unfolding u64_max_def by (rule sat_succ_gt)
  then have "max (lc_counter c) remote < fst (lamport_tick (lamport_observe c remote))"
    by (simp only: lamport_tick_value lamport_tick_counter lamport_observe_counter)
  then show ?thesis by (simp only: max_less_iff_conj)
qed

theorem lamport_receive_then_tick_witness:
  "(100 :: u64) < fst (lamport_tick (lamport_observe (lamport_new 5) 100))"
  using lamport_receive_then_tick [of "lamport_new 5" 100]
  by (simp add: lamport_new_def u64_max_def)

text \<open>Merging vector clocks is the least upper bound of the pointwise
  order: idempotent, commutative, associative, above both arguments and below every
  clock that is above both. Replicas may merge in any order and any number of times.\<close>

theorem vc_merge_semilattice:
  "vc_merge a a = a \<and> vc_merge a b = vc_merge b a \<and>
   vc_merge (vc_merge a b) c = vc_merge a (vc_merge b c) \<and>
   (\<forall>p. vc_get a p \<le> vc_get (vc_merge a b) p) \<and>
   ((\<forall>p. vc_get a p \<le> vc_get c p \<and> vc_get b p \<le> vc_get c p) =
    (\<forall>p. vc_get (vc_merge a b) p \<le> vc_get c p))"
proof (intro conjI)
  show "vc_merge a a = a" by (rule vc_eqI) (simp_all add: dom_vc_merge vc_get_merge)
  show "vc_merge a b = vc_merge b a"
    by (rule vc_eqI) (simp_all add: dom_vc_merge vc_get_merge funion_commute max.commute)
  show "vc_merge (vc_merge a b) c = vc_merge a (vc_merge b c)"
    by (rule vc_eqI) (simp_all add: dom_vc_merge vc_get_merge funion_assoc max.assoc)
qed (simp_all add: vc_get_merge)

text \<open>On clocks without zero entries, which is every clock built by
  \<open>increment\<close> and \<open>merge\<close> alone, \<open>happens_before\<close> is the documented strict
  partial order: pointwise below and somewhere strictly below, hence irreflexive,
  asymmetric and transitive.\<close>

theorem vc_happens_before_strict_order:
  assumes "vc_no_zero a" "vc_no_zero b" "vc_no_zero c"
  shows "(vc_happens_before a b =
      ((\<forall>p. vc_get a p \<le> vc_get b p) \<and> (\<exists>p. vc_get a p < vc_get b p))) \<and>
    \<not> vc_happens_before a a \<and>
    (vc_happens_before a b \<longrightarrow> \<not> vc_happens_before b a) \<and>
    (vc_happens_before a b \<longrightarrow> vc_happens_before b c \<longrightarrow> vc_happens_before a c)"
  using assms vc_happens_before_trans [of b c a] vc_happens_before_trans [of b a a]
  by (auto simp: vc_happens_before_irrefl vc_happens_before_pointwise)

theorem vc_happens_before_strict_order_witness:
  "vc_happens_before (vc_increment vc_new (PeerId 1))
     (vc_increment (vc_increment vc_new (PeerId 1)) (PeerId 2))"
proof -
  let ?a = "vc_increment vc_new (PeerId 1)"
  let ?b = "vc_increment ?a (PeerId 2)"
  have nz: "vc_no_zero ?a" "vc_no_zero ?b"
    by (auto simp: vc_no_zero_def vc_increment_def vc_new_def vc_get_def)
  have "(\<forall>p. vc_get ?a p \<le> vc_get ?b p) \<and> (\<exists>p. vc_get ?a p < vc_get ?b p)"
    by (auto simp: vc_get_increment intro: exI [of _ "PeerId 2"])
  then show ?thesis using vc_happens_before_strict_order [OF nz nz(2)] by blast
qed

text \<open>With zero entries, which \<open>witness\<close> of a zero timestamp
  creates, \<open>happens_before\<close> is not a causal order: two clocks that count no event at
  all each precede the other, although no counter of one is below the other's.\<close>

theorem vc_zero_entries_break_order:
  "let a = vc_witness vc_new (PeerId 1) 0; b = vc_witness vc_new (PeerId 2) 0
   in vc_happens_before a b \<and> vc_happens_before b a \<and> (\<forall>p. vc_get a p = vc_get b p)"
  by (simp add: Let_def vc_happens_before_iff vc_get_witness)
    (auto simp: vc_witness_def vc_new_def Let_def)

end
