(* ===== verification/Errors.thy ===== *)
theory Errors
  imports Ids
begin

text \<open>
  The shared error type and the field limits (\<open>tpt-av-sync-utils/src/error.rs\<close>,
  \<open>security.rs\<close>). A fallible function returns \<open>'a result\<close>: \<open>Inl\<close> the error or
  \<open>Inr\<close> the value. Strings are their UTF-8 bytes, so \<open>length\<close> is Rust's \<open>len()\<close>.
\<close>

datatype sync_error =
    Serialization string
  | Transport string
  | PeerNotFound peer_id
  | DuplicateOperation operation_id
  | UnknownTarget (ut_kind: string) (ut_id: u64)
  | InvalidOperation string
  | Disconnected
  | Timeout

type_synonym 'a result = "sync_error + 'a"

definition sync_error_transport :: "string \<Rightarrow> sync_error" where
  "sync_error_transport msg = Transport msg"

definition sync_error_serialization :: "string \<Rightarrow> sync_error" where
  "sync_error_serialization msg = Serialization msg"

definition sync_error_invalid :: "string \<Rightarrow> sync_error" where
  "sync_error_invalid msg = InvalidOperation msg"

definition is_unknown_target :: "sync_error \<Rightarrow> bool" where
  "is_unknown_target e = (case e of UnknownTarget k i \<Rightarrow> True | _ \<Rightarrow> False)"

lemma is_unknown_target_simps [simp]:
  "is_unknown_target (UnknownTarget k i)"
  "\<not> is_unknown_target (InvalidOperation m)"
  by (simp_all add: is_unknown_target_def)

section \<open>Rendering\<close>

text \<open>\<open>{:016x}\<close> and \<open>{:#x}\<close>.\<close>

definition hex_digit :: "nat \<Rightarrow> char" where
  "hex_digit d = (if d < 10 then char_of (48 + d) else char_of (87 + d))"

fun hex_digits :: "nat \<Rightarrow> nat \<Rightarrow> string" where
  "hex_digits 0 n = []"
| "hex_digits (Suc k) n = hex_digits k (n div 16) @ [hex_digit (n mod 16)]"

definition show_hex16 :: "u64 \<Rightarrow> string" where
  "show_hex16 w = hex_digits 16 (unat w)"

definition show_hex :: "u64 \<Rightarrow> string" where
  "show_hex w = (if w = 0 then ''0x0'' else ''0x'' @ dropWhile (\<lambda>c. c = CHR ''0'') (show_hex16 w))"

definition show_peer_id :: "peer_id \<Rightarrow> string" where
  "show_peer_id p = ''peer-'' @ show_hex16 (peer_raw p)"

definition show_operation_id :: "operation_id \<Rightarrow> string" where
  "show_operation_id i = ''op('' @ show_nat (unat (oid_lamport i)) @ ''@'' @ show_peer_id (oid_peer i) @ '')''"

fun show_sync_error :: "sync_error \<Rightarrow> string" where
  "show_sync_error (Serialization m) = ''serialization error: '' @ m"
| "show_sync_error (Transport m) = ''transport error: '' @ m"
| "show_sync_error (PeerNotFound p) = ''peer not connected: '' @ show_peer_id p"
| "show_sync_error (DuplicateOperation i) = ''duplicate operation: '' @ show_operation_id i"
| "show_sync_error (UnknownTarget kind i) = ''unknown '' @ kind @ '' target: '' @ show_hex i"
| "show_sync_error (InvalidOperation m) = ''invalid operation: '' @ m"
| "show_sync_error Disconnected = ''disconnected''"
| "show_sync_error Timeout = ''operation timed out''"

lemma length_hex_digits [simp]: "length (hex_digits k n) = k"
  by (induction k arbitrary: n) simp_all

lemma hex_digit_inject: "a < 16 \<Longrightarrow> b < 16 \<Longrightarrow> hex_digit a = hex_digit b \<Longrightarrow> a = b"
  by (auto simp: hex_digit_def char_of_eq_iff take_bit_eq_mod split: if_splits
      dest: arg_cong [of _ _ "of_char :: char \<Rightarrow> nat"])

lemma hex_digits_inject:
  "a < 16 ^ k \<Longrightarrow> b < 16 ^ k \<Longrightarrow> hex_digits k a = hex_digits k b \<Longrightarrow> a = b"
proof (induction k arbitrary: a b)
  case (Suc k)
  from Suc.prems(3) have "hex_digits k (a div 16) = hex_digits k (b div 16)"
    and "a mod 16 = b mod 16" using hex_digit_inject [of "a mod 16" "b mod 16"] by simp_all
  moreover from this(1) have "a div 16 = b div 16"
    using Suc.prems(1,2) by (intro Suc.IH) (simp_all add: less_mult_imp_div_less mult.commute)
  ultimately show ?case by (metis div_mult_mod_eq)
qed simp

lemma show_peer_id_inject: "show_peer_id p = show_peer_id q \<longleftrightarrow> p = q"
proof
  assume "show_peer_id p = show_peer_id q"
  then have "hex_digits 16 (unat (peer_raw p)) = hex_digits 16 (unat (peer_raw q))"
    by (simp add: show_peer_id_def show_hex16_def)
  then have "unat (peer_raw p) = unat (peer_raw q)"
    by (rule hex_digits_inject [rotated 2])
      (use unsigned_less [of "peer_raw p"] unsigned_less [of "peer_raw q"] in simp_all)
  then show "p = q" by (cases p, cases q) (simp add: word_unat_eq_iff)
qed simp

section \<open>Field limits\<close>

definition MAX_WIRE_MESSAGE_BYTES :: nat where
  "MAX_WIRE_MESSAGE_BYTES = 64 * 1024 * 1024"

definition MAX_STRING_BYTES :: nat where
  "MAX_STRING_BYTES = 4 * 1024"

definition MAX_ENVELOPE_POINTS :: nat where
  "MAX_ENVELOPE_POINTS = 100000"

definition validate_string :: "string \<Rightarrow> string \<Rightarrow> unit result" where
  "validate_string v field =
     (if length v > MAX_STRING_BYTES
      then Inl (sync_error_invalid (field @ '' of '' @ show_nat (length v) @
             '' bytes exceeds the '' @ show_nat MAX_STRING_BYTES @ '' byte limit''))
      else Inr ())"

fun validate_strings :: "(string \<times> string) list \<Rightarrow> unit result" where
  "validate_strings [] = Inr ()"
| "validate_strings ((v, field) # rest) =
     (case validate_string v field of Inl e \<Rightarrow> Inl e | Inr _ \<Rightarrow> validate_strings rest)"

text \<open>
  Bounded decoding: the codec (bincode, not part of the repository) is the argument
  \<open>decode\<close>; a buffer over the limit never reaches it.
\<close>

definition bounded_decode ::
  "(u8 list \<Rightarrow> 'a result) \<Rightarrow> u8 list \<Rightarrow> nat \<Rightarrow> 'a result" where
  "bounded_decode decode bytes max_bytes =
     (if length bytes > max_bytes
      then Inl (sync_error_serialization (''message of '' @ show_nat (length bytes) @
             '' bytes exceeds the '' @ show_nat max_bytes @ '' byte limit''))
      else decode bytes)"

definition decode_message :: "(u8 list \<Rightarrow> 'a result) \<Rightarrow> u8 list \<Rightarrow> 'a result" where
  "decode_message decode bytes = bounded_decode decode bytes MAX_WIRE_MESSAGE_BYTES"

lemma validate_string_ok_iff: "validate_string v f = Inr () \<longleftrightarrow> length v \<le> MAX_STRING_BYTES"
  by (simp add: validate_string_def)

lemma validate_string_cases:
  obtains "validate_string v f = Inr ()" "length v \<le> MAX_STRING_BYTES"
  | m where "validate_string v f = Inl (InvalidOperation m)" "MAX_STRING_BYTES < length v"
  by (cases "length v \<le> MAX_STRING_BYTES")
    (auto simp: validate_string_def sync_error_invalid_def)

lemma validate_strings_ok_iff:
  "validate_strings vs = Inr () \<longleftrightarrow> (\<forall>(v, f) \<in> set vs. length v \<le> MAX_STRING_BYTES)"
  by (induction vs rule: validate_strings.induct)
    (auto simp: validate_string_def split: sum.splits)

lemma bounded_decode_oversized:
  "max_bytes < length bytes \<Longrightarrow> \<exists>m. bounded_decode decode bytes max_bytes = Inl (Serialization m)"
  by (simp add: bounded_decode_def sync_error_serialization_def)

end
