(* ===== verification/Operation.thy ===== *)
theory Operation
  imports Clocks Errors
    "HOL-Library.Char_ord" "HOL-Library.List_Lexorder" "HOL-Library.Product_Lexorder"
begin

text \<open>
  The replicated vocabulary (\<open>tpt-av-sync-crdt/src/operation.rs\<close>): ids, payload
  records, the eleven \<open>timeline_operation\<close>s, their validation and required targets, and
  the \<open>tagged_operation\<close> that travels between peers. Payload records carry a field
  prefix (\<open>cd_\<close> clip data, \<open>cm_\<close> clip metadata update, \<open>td_\<close>/\<open>tm_\<close> tracks,
  \<open>sm_\<close> session); the \<open>SystemTime\<close> of a tagged operation is an integer of
  nanoseconds since the epoch.
\<close>

section \<open>Identifiers\<close>

datatype clip_id = ClipId (clip_raw: u64)
datatype track_id = TrackId (track_raw: u64)

instantiation clip_id :: linorder
begin

definition less_eq_clip_id :: "clip_id \<Rightarrow> clip_id \<Rightarrow> bool" where
  "less_eq_clip_id a b \<longleftrightarrow> clip_raw a \<le> clip_raw b"

definition less_clip_id :: "clip_id \<Rightarrow> clip_id \<Rightarrow> bool" where
  "less_clip_id a b \<longleftrightarrow> clip_raw a < clip_raw b"

instance
  by intro_classes (auto simp: less_eq_clip_id_def less_clip_id_def clip_id.expand)

end

instantiation track_id :: linorder
begin

definition less_eq_track_id :: "track_id \<Rightarrow> track_id \<Rightarrow> bool" where
  "less_eq_track_id a b \<longleftrightarrow> track_raw a \<le> track_raw b"

definition less_track_id :: "track_id \<Rightarrow> track_id \<Rightarrow> bool" where
  "less_track_id a b \<longleftrightarrow> track_raw a < track_raw b"

instance
  by intro_classes (auto simp: less_eq_track_id_def less_track_id_def track_id.expand)

end

lemma clip_id_le_iff [simp]: "ClipId a \<le> ClipId b \<longleftrightarrow> a \<le> b"
  by (simp add: less_eq_clip_id_def)

lemma clip_id_less_iff [simp]: "ClipId a < ClipId b \<longleftrightarrow> a < b"
  by (simp add: less_clip_id_def)

lemma track_id_le_iff [simp]: "TrackId a \<le> TrackId b \<longleftrightarrow> a \<le> b"
  by (simp add: less_eq_track_id_def)

lemma track_id_less_iff [simp]: "TrackId a < TrackId b \<longleftrightarrow> a < b"
  by (simp add: less_track_id_def)

definition clip_from_u64 :: "u64 \<Rightarrow> clip_id" where
  "clip_from_u64 raw = ClipId raw"

definition clip_generate :: "u64 \<Rightarrow> u64 \<Rightarrow> u32 \<Rightarrow> clip_id \<times> u64" where
  "clip_generate counter nanos pid =
     (let (raw, counter') = raw_generated_u64 counter nanos pid in (ClipId raw, counter'))"

definition track_from_u64 :: "u64 \<Rightarrow> track_id" where
  "track_from_u64 raw = TrackId raw"

definition track_generate :: "u64 \<Rightarrow> u64 \<Rightarrow> u32 \<Rightarrow> track_id \<times> u64" where
  "track_generate counter nanos pid =
     (let (raw, counter') = raw_generated_u64 counter nanos pid in (TrackId raw, counter'))"

section \<open>Payloads\<close>

datatype trim_edge = Start | End

datatype track_kind = Audio | Video | Midi | Bus

record clip_data =
  cd_name :: string
  cd_source :: string
  cd_start_frame :: u64
  cd_duration_frames :: u64
  cd_color :: u32

definition clip_data_new :: "string \<Rightarrow> u64 \<Rightarrow> u64 \<Rightarrow> clip_data" where
  "clip_data_new name start_frame duration_frames =
     \<lparr>cd_name = name, cd_source = [], cd_start_frame = start_frame,
      cd_duration_frames = duration_frames, cd_color = 0xFFAACC88\<rparr>"

record clip_metadata_update =
  cm_name :: "string option"
  cm_source :: "string option"
  cm_color :: "u32 option"
  cm_gain :: "f32 option"
  cm_muted :: "bool option"
  cm_locked :: "bool option"

definition clip_metadata_update_default :: clip_metadata_update where
  "clip_metadata_update_default =
     \<lparr>cm_name = None, cm_source = None, cm_color = None, cm_gain = None,
      cm_muted = None, cm_locked = None\<rparr>"

record track_data =
  td_name :: string
  td_kind :: track_kind
  td_volume_db :: f32
  td_muted :: bool
  td_solo :: bool

definition track_data_new :: "string \<Rightarrow> track_data" where
  "track_data_new name =
     \<lparr>td_name = name, td_kind = Audio, td_volume_db = f32_zero, td_muted = False,
      td_solo = False\<rparr>"

record track_metadata_update =
  tm_name :: "string option"
  tm_volume_db :: "f32 option"
  tm_muted :: "bool option"
  tm_solo :: "bool option"
  tm_position :: "u64 option"

definition track_metadata_update_default :: track_metadata_update where
  "track_metadata_update_default =
     \<lparr>tm_name = None, tm_volume_db = None, tm_muted = None, tm_solo = None, tm_position = None\<rparr>"

record session_metadata_update =
  sm_name :: "string option"
  sm_sample_rate :: "u32 option"
  sm_tempo_bpm :: "f64 option"
  sm_ts_numerator :: "u32 option"
  sm_ts_denominator :: "u32 option"

definition session_metadata_update_default :: session_metadata_update where
  "session_metadata_update_default =
     \<lparr>sm_name = None, sm_sample_rate = None, sm_tempo_bpm = None, sm_ts_numerator = None,
      sm_ts_denominator = None\<rparr>"

datatype target_id = TargetClip clip_id | TargetTrack track_id

datatype envelope_type = Volume | Pan | Mute | Custom string

datatype interpolation = Linear | Step | Smooth

record envelope_point =
  ep_frame :: u64
  ep_value :: f32
  ep_interpolation :: interpolation

text \<open>
  The derived orders: variants in declaration order, then the payload. They key the
  envelope map.
\<close>

definition target_key :: "target_id \<Rightarrow> nat \<times> u64" where
  "target_key t = (case t of TargetClip c \<Rightarrow> (0, clip_raw c) | TargetTrack k \<Rightarrow> (1, track_raw k))"

definition envelope_key :: "envelope_type \<Rightarrow> nat \<times> string" where
  "envelope_key e =
     (case e of Volume \<Rightarrow> (0, []) | Pan \<Rightarrow> (1, []) | Mute \<Rightarrow> (2, []) | Custom s \<Rightarrow> (3, s))"

lemma target_key_inj [simp]: "target_key a = target_key b \<longleftrightarrow> a = b"
  by (auto simp: target_key_def clip_id.expand track_id.expand split: target_id.splits)

lemma envelope_key_inj [simp]: "envelope_key a = envelope_key b \<longleftrightarrow> a = b"
  by (auto simp: envelope_key_def split: envelope_type.splits)

instantiation target_id :: linorder
begin

definition less_eq_target_id :: "target_id \<Rightarrow> target_id \<Rightarrow> bool" where
  "less_eq_target_id a b \<longleftrightarrow> target_key a \<le> target_key b"

definition less_target_id :: "target_id \<Rightarrow> target_id \<Rightarrow> bool" where
  "less_target_id a b \<longleftrightarrow> target_key a < target_key b"

instance
  by intro_classes (auto simp: less_eq_target_id_def less_target_id_def simp del: less_prod_def
      dest: order_antisym)

end

instantiation envelope_type :: linorder
begin

definition less_eq_envelope_type :: "envelope_type \<Rightarrow> envelope_type \<Rightarrow> bool" where
  "less_eq_envelope_type a b \<longleftrightarrow> envelope_key a \<le> envelope_key b"

definition less_envelope_type :: "envelope_type \<Rightarrow> envelope_type \<Rightarrow> bool" where
  "less_envelope_type a b \<longleftrightarrow> envelope_key a < envelope_key b"

instance
  by intro_classes (auto simp: less_eq_envelope_type_def less_envelope_type_def
      dest: order_antisym)

end

section \<open>Operations\<close>

datatype timeline_operation =
    InsertClip clip_id track_id clip_data u64
  | MoveClip clip_id track_id u64 u64
  | DeleteClip clip_id
  | SplitClip clip_id u64 clip_id
  | TrimClip clip_id u64 u64 trim_edge
  | UpdateClipMetadata clip_id clip_metadata_update
  | InsertTrack track_id track_data u64
  | UpdateTrackMetadata track_id track_metadata_update
  | DeleteTrack track_id
  | UpdateEnvelope target_id envelope_type "envelope_point list"
  | UpdateSessionMetadata session_metadata_update

text \<open>An \<open>if let Some(v)\<close> around a field check.\<close>

definition validate_opt :: "string option \<Rightarrow> string \<Rightarrow> unit result" where
  "validate_opt v field = (case v of None \<Rightarrow> Inr () | Some s \<Rightarrow> validate_string s field)"

fun validate_operation :: "timeline_operation \<Rightarrow> unit result" where
  "validate_operation (InsertClip _ _ clip _) =
     (case validate_string (cd_name clip) ''clip name'' of
        Inl e \<Rightarrow> Inl e
      | Inr _ \<Rightarrow> validate_string (cd_source clip) ''clip source'')"
| "validate_operation (UpdateClipMetadata _ updates) =
     (case validate_opt (cm_name updates) ''clip name'' of
        Inl e \<Rightarrow> Inl e
      | Inr _ \<Rightarrow> validate_opt (cm_source updates) ''clip source'')"
| "validate_operation (InsertTrack _ track _) = validate_string (td_name track) ''track name''"
| "validate_operation (UpdateTrackMetadata _ updates) = validate_opt (tm_name updates) ''track name''"
| "validate_operation (UpdateEnvelope _ envelope_type points) =
     (if length points > MAX_ENVELOPE_POINTS
      then Inl (sync_error_invalid (''envelope point count '' @ show_nat (length points) @
             '' exceeds limit '' @ show_nat MAX_ENVELOPE_POINTS))
      else (case envelope_type of
              Custom name \<Rightarrow> validate_string name ''envelope parameter name''
            | _ \<Rightarrow> Inr ()))"
| "validate_operation (UpdateSessionMetadata updates) = validate_opt (sm_name updates) ''session name''"
| "validate_operation (MoveClip _ _ _ _) = Inr ()"
| "validate_operation (DeleteClip _) = Inr ()"
| "validate_operation (SplitClip _ _ _) = Inr ()"
| "validate_operation (TrimClip _ _ _ _) = Inr ()"
| "validate_operation (DeleteTrack _) = Inr ()"

datatype required_target = RequiredClip clip_id | RequiredTrack track_id

fun required_targets :: "timeline_operation \<Rightarrow> required_target list" where
  "required_targets (InsertClip _ _ _ _) = []"
| "required_targets (MoveClip c _ _ _) = [RequiredClip c]"
| "required_targets (SplitClip c _ _) = [RequiredClip c]"
| "required_targets (TrimClip c _ _ _) = [RequiredClip c]"
| "required_targets (UpdateClipMetadata c _) = [RequiredClip c]"
| "required_targets (DeleteClip c) = [RequiredClip c]"
| "required_targets (InsertTrack _ _ _) = []"
| "required_targets (UpdateTrackMetadata t _) = [RequiredTrack t]"
| "required_targets (DeleteTrack t) = [RequiredTrack t]"
| "required_targets (UpdateEnvelope target _ _) =
     (case target of TargetClip c \<Rightarrow> [RequiredClip c] | TargetTrack t \<Rightarrow> [RequiredTrack t])"
| "required_targets (UpdateSessionMetadata _) = []"

record tagged_operation =
  op_id :: operation_id
  operation :: timeline_operation
  lamport_ts :: u64
  op_clock :: vector_clock
  op_peer :: peer_id
  timestamp :: int

definition op_rank :: "tagged_operation \<Rightarrow> u64 \<times> peer_id" where
  "op_rank t = (lamport_ts t, op_peer t)"

section \<open>What validation accepts\<close>

definition opt_len_ok :: "string option \<Rightarrow> bool" where
  "opt_len_ok v \<longleftrightarrow> (case v of None \<Rightarrow> True | Some s \<Rightarrow> length s \<le> MAX_STRING_BYTES)"

text \<open>The limits of \<open>security.rs\<close>, field by field: the specification of \<open>validate\<close>.\<close>

definition within_limits :: "timeline_operation \<Rightarrow> bool" where
  "within_limits oper = (case oper of
     InsertClip _ _ clip _ \<Rightarrow>
       length (cd_name clip) \<le> MAX_STRING_BYTES \<and> length (cd_source clip) \<le> MAX_STRING_BYTES
   | UpdateClipMetadata _ u \<Rightarrow> opt_len_ok (cm_name u) \<and> opt_len_ok (cm_source u)
   | InsertTrack _ track _ \<Rightarrow> length (td_name track) \<le> MAX_STRING_BYTES
   | UpdateTrackMetadata _ u \<Rightarrow> opt_len_ok (tm_name u)
   | UpdateEnvelope _ e points \<Rightarrow> length points \<le> MAX_ENVELOPE_POINTS \<and>
       (case e of Custom n \<Rightarrow> length n \<le> MAX_STRING_BYTES | _ \<Rightarrow> True)
   | UpdateSessionMetadata u \<Rightarrow> opt_len_ok (sm_name u)
   | _ \<Rightarrow> True)"

lemma validate_opt_ok_iff: "validate_opt v f = Inr () \<longleftrightarrow> opt_len_ok v"
  by (simp add: validate_opt_def opt_len_ok_def validate_string_ok_iff split: option.split)

lemma validate_opt_error: "validate_opt v f = Inl e \<Longrightarrow> \<exists>m. e = InvalidOperation m"
  by (auto simp: validate_opt_def validate_string_def sync_error_invalid_def
      split: option.splits if_splits)

lemma validate_string_error: "validate_string v f = Inl e \<Longrightarrow> \<exists>m. e = InvalidOperation m"
  by (auto simp: validate_string_def sync_error_invalid_def split: if_splits)

lemma validate_operation_accepts: "validate_operation oper = Inr () \<longleftrightarrow> within_limits oper"
proof (cases oper)
  case (UpdateEnvelope t e points)
  then show ?thesis
    by (cases e) (auto simp: within_limits_def validate_string_def)
qed (auto simp: within_limits_def validate_string_def validate_opt_def
    opt_len_ok_def split: option.splits)

text \<open>Claim C16. Validation is exact on every variant: an operation passes
  precisely when each string field is within 4096 bytes and an envelope within 100000
  points, and a refusal is always the error \<open>InvalidOperation\<close>.\<close>

theorem validate_operation_exact:
  "(validate_operation oper = Inr () \<longleftrightarrow> within_limits oper) \<and>
   (\<exists>m. validate_operation oper = Inr () \<or> validate_operation oper = Inl (InvalidOperation m))"
proof -
  have "\<exists>m. validate_operation oper = Inr () \<or> validate_operation oper = Inl (InvalidOperation m)"
  proof (cases oper)
    case (UpdateEnvelope t e points)
    then show ?thesis by (cases e) (auto simp: validate_string_def sync_error_invalid_def)
  qed (auto simp: validate_string_def sync_error_invalid_def validate_opt_def split: option.splits)
  then show ?thesis by (simp add: validate_operation_accepts)
qed

end
