(* ===== verification/Merge.thy ===== *)
theory Merge
  imports Operation
begin

text \<open>
  Conflict resolution primitives (\<open>tpt-av-sync-crdt/src/merge.rs\<close>): the totally
  ordered \<open>op_tag\<close>, the last-writer-wins register \<open>lww_reg\<close> and the resolution events.
  The locale \<open>lww_register\<close> is the contract every user of a register relies on (a write
  is accepted exactly when its tag is strictly greater); its lemmas (idempotence,
  commutation, the outcome of any delivery order) are proved from the contract and reach
  the code's register through the interpretation \<open>lww\<close>.
\<close>

section \<open>Tags\<close>

datatype op_tag = OpTag (tag_lamport: u64) (tag_peer: peer_id)

instantiation op_tag :: linorder
begin

definition less_eq_op_tag :: "op_tag \<Rightarrow> op_tag \<Rightarrow> bool" where
  "less_eq_op_tag a b \<longleftrightarrow> tag_lamport a < tag_lamport b \<or>
     tag_lamport a = tag_lamport b \<and> tag_peer a \<le> tag_peer b"

definition less_op_tag :: "op_tag \<Rightarrow> op_tag \<Rightarrow> bool" where
  "less_op_tag a b \<longleftrightarrow> tag_lamport a < tag_lamport b \<or>
     tag_lamport a = tag_lamport b \<and> tag_peer a < tag_peer b"

instance
  by intro_classes (auto simp: less_eq_op_tag_def less_op_tag_def intro: op_tag.expand)

end

definition op_tag_initial :: op_tag where
  "op_tag_initial = OpTag 0 (PeerId 0)"

lemma op_tag_less_iff [simp]: "OpTag l p < OpTag m q \<longleftrightarrow> l < m \<or> l = m \<and> p < q"
  by (simp add: less_op_tag_def)

lemma op_tag_le_iff [simp]: "OpTag l p \<le> OpTag m q \<longleftrightarrow> l < m \<or> l = m \<and> p \<le> q"
  by (simp add: less_eq_op_tag_def)

lemma op_tag_initial_least: "op_tag_initial \<le> t"
  by (cases t) (auto simp: op_tag_initial_def peer_id_zero_least word_neq_0_conv)

lemma op_tag_initial_less: "0 < tag_lamport t \<Longrightarrow> op_tag_initial < t"
  by (cases t) (simp add: op_tag_initial_def)

lemma op_tag_less_lamport: "tag_lamport a < tag_lamport b \<Longrightarrow> a < b"
  by (simp add: less_op_tag_def)

section \<open>Last-writer-wins registers\<close>

record 'a lww_reg =
  reg_value :: 'a
  reg_tag :: op_tag

definition lww_new_initial :: "'a \<Rightarrow> 'a lww_reg" where
  "lww_new_initial v = \<lparr>reg_value = v, reg_tag = op_tag_initial\<rparr>"

definition lww_new :: "'a \<Rightarrow> op_tag \<Rightarrow> 'a lww_reg" where
  "lww_new v t = \<lparr>reg_value = v, reg_tag = t\<rparr>"

text \<open>\<open>LwwReg::set\<close>: the register afterwards and whether the write was accepted.\<close>

definition lww_try_set :: "'a lww_reg \<Rightarrow> 'a \<Rightarrow> op_tag \<Rightarrow> bool \<times> 'a lww_reg" where
  "lww_try_set r v t =
     (if reg_tag r < t then (True, r\<lparr>reg_value := v, reg_tag := t\<rparr>) else (False, r))"

text \<open>The same call where the code ignores the returned flag.\<close>

definition lww_set :: "'a \<Rightarrow> op_tag \<Rightarrow> 'a lww_reg \<Rightarrow> 'a lww_reg" where
  "lww_set v t r = snd (lww_try_set r v t)"

section \<open>The register contract\<close>

locale lww_register =
  fixes put :: "'v \<Rightarrow> 't::linorder \<Rightarrow> 'r \<Rightarrow> 'r"
    and content :: "'r \<Rightarrow> 'v"
    and stamp :: "'r \<Rightarrow> 't"
  assumes content_put: "content (put v t r) = (if stamp r < t then v else content r)"
    and stamp_put: "stamp (put v t r) = max (stamp r) t"
    and register_ext: "content r = content s \<Longrightarrow> stamp r = stamp s \<Longrightarrow> r = s"
begin

lemma put_idem: "put v t (put v t r) = put v t r"
  by (rule register_ext) (simp_all add: content_put stamp_put)

lemma put_commute: "t \<noteq> u \<Longrightarrow> put v t (put w u r) = put w u (put v t r)"
  by (rule register_ext) (auto simp: content_put stamp_put max_def)

lemma put_stale: "t \<le> stamp r \<Longrightarrow> put v t r = r"
  by (rule register_ext) (auto simp: content_put stamp_put)

lemma fold_stale: "\<forall>(v, t) \<in> set ws. t \<le> stamp r \<Longrightarrow> fold (\<lambda>(v, t). put v t) ws r = r"
  by (induction ws) (auto simp: put_stale)

lemma fold_winner:
  assumes "(v, t) \<in> set ws" and "stamp r < t"
    and "\<forall>(w, u) \<in> set ws. u < t \<or> (w, u) = (v, t)"
  shows "content (fold (\<lambda>(v, t). put v t) ws r) = v"
    and "stamp (fold (\<lambda>(v, t). put v t) ws r) = t"
  using assms
proof (induction ws arbitrary: r)
  case Nil
  { case 1 then show ?case by simp }
  { case 2 then show ?case by simp }
next
  case (Cons x ws)
  obtain w u where x: "x = (w, u)" by (cases x)
  { case 1
    show ?case
    proof (cases "(w, u) = (v, t)")
      case True
      then have "fold (\<lambda>(v, t). put v t) ws (put v t r) = put v t r"
        using 1 x by (intro fold_stale) (auto simp: stamp_put max_def split: if_splits)
      with True x 1(2) show ?thesis by (simp add: content_put)
    next
      case False
      with 1 x have "u < t" "(v, t) \<in> set ws" by auto
      with 1 x Cons.IH(1) [of "put w u r"] show ?thesis by (simp add: stamp_put)
    qed }
  { case 2
    show ?case
    proof (cases "(w, u) = (v, t)")
      case True
      then have "fold (\<lambda>(v, t). put v t) ws (put v t r) = put v t r"
        using 2 x by (intro fold_stale) (auto simp: stamp_put max_def split: if_splits)
      with True x 2(2) show ?thesis by (simp add: stamp_put)
    next
      case False
      with 2 x have "u < t" "(v, t) \<in> set ws" by auto
      with 2 x Cons.IH(2) [of "put w u r"] show ?thesis by (simp add: stamp_put)
    qed }
qed

lemma fold_delivery_order:
  assumes sets: "set ws = set us"
    and tags: "\<forall>v w t. (v, t) \<in> set ws \<longrightarrow> (w, t) \<in> set ws \<longrightarrow> v = w"
  shows "fold (\<lambda>(v, t). put v t) ws r = fold (\<lambda>(v, t). put v t) us r"
proof (cases "\<forall>(v, t) \<in> set ws. t \<le> stamp r")
  case True
  then show ?thesis using sets by (simp add: fold_stale)
next
  case False
  then have ne: "snd ` set ws \<noteq> {}" by auto
  define t where "t = Max (snd ` set ws)"
  have "t \<in> snd ` set ws" unfolding t_def using ne by (intro Max_in) auto
  then obtain v where v: "(v, t) \<in> set ws" by auto
  have le: "\<forall>(w, u) \<in> set ws. u \<le> t" unfolding t_def by (force intro: Max_ge)
  have lt: "stamp r < t"
  proof -
    from False obtain w u where "(w, u) \<in> set ws" "stamp r < u" by auto
    with le show ?thesis by (auto intro: less_le_trans)
  qed
  have win: "\<forall>(w, u) \<in> set ws. u < t \<or> (w, u) = (v, t)"
    using le tags v by (auto simp: order_le_less)
  from fold_winner [OF v lt win] fold_winner [of v t us r] v lt win sets
  show ?thesis by (intro register_ext) simp_all
qed

end

interpretation lww: lww_register lww_set reg_value reg_tag
  by unfold_locales (auto simp: lww_set_def lww_try_set_def max_def)

named_theorems lww_simps \<open>reading a register after a write\<close>
declare lww.content_put [lww_simps] lww.stamp_put [lww_simps]
  lww_new_def [lww_simps] lww_new_initial_def [lww_simps]

lemma lww_set_new: "r = lww_new_initial w \<Longrightarrow> op_tag_initial < t \<Longrightarrow> lww_set v t r = lww_new v t"
  by (simp add: lww_set_def lww_try_set_def lww_new_def lww_new_initial_def)

lemma lww_set_initial [simp]: "op_tag_initial < t \<Longrightarrow> lww_set v t (lww_new_initial w) = lww_new v t"
  by (rule lww_set_new [OF refl])

lemma lww_set_wins: "reg_tag r < t \<Longrightarrow> lww_set v t r = lww_new v t"
  by (simp add: lww_set_def lww_try_set_def lww_new_def)

lemma lww_tag_new [simp]: "reg_tag (lww_new v t) = t" "reg_tag (lww_new_initial v) = op_tag_initial"
  and lww_value_new [simp]: "reg_value (lww_new v t) = v" "reg_value (lww_new_initial v) = v"
  by (simp_all add: lww_simps)

section \<open>Resolution events\<close>

record resolution_event =
  ev_kind :: string
  ev_clip_id :: clip_id
  ev_op :: op_tag
  ev_op_won :: bool
  ev_reason :: string

definition resolve_tag_conflict ::
  "string \<Rightarrow> clip_id \<Rightarrow> op_tag \<Rightarrow> op_tag \<Rightarrow> resolution_event" where
  "resolve_tag_conflict kind clip previous incoming =
     \<lparr>ev_kind = kind, ev_clip_id = clip, ev_op = incoming,
      ev_op_won = (previous < incoming), ev_reason = ''higher (lamport, peer) tag wins''\<rparr>"

text \<open>The last-writer-wins register: however a set of tagged writes
  is delivered (any order, any number of times), the register ends with the same value
  and tag, provided two writes with one tag carry one value.\<close>

theorem lww_delivery_order_irrelevant:
  assumes "set ws = set us"
    and "\<forall>v w t. (v, t) \<in> set ws \<longrightarrow> (w, t) \<in> set ws \<longrightarrow> v = w"
  shows "fold (\<lambda>(v, t). lww_set v t) ws r = fold (\<lambda>(v, t). lww_set v t) us r"
  using assms by (rule lww.fold_delivery_order)

theorem lww_delivery_order_irrelevant_witness:
  "fold (\<lambda>(v, t). lww_set v t)
     [(''from-a'', OpTag 9 (PeerId 1)), (''from-b'', OpTag 9 (PeerId 2))] (lww_new_initial ''x'') =
   fold (\<lambda>(v, t). lww_set v t)
     [(''from-b'', OpTag 9 (PeerId 2)), (''from-a'', OpTag 9 (PeerId 1)),
      (''from-b'', OpTag 9 (PeerId 2))] (lww_new_initial ''x'')"
  by (rule lww_delivery_order_irrelevant) auto

text \<open>A resolution event names the same winner as the registers do: the
  reported operation is said to have won exactly when its write would be accepted by a
  register that holds the previous write.\<close>

theorem resolve_tag_conflict_matches_register:
  "ev_op_won (resolve_tag_conflict kind clip prev inc) = fst (lww_try_set (lww_new v prev) w inc)"
  by (simp add: resolve_tag_conflict_def lww_try_set_def)

end
