(* ===== verification/Clip_Crdt.thy ===== *)
theory Clip_Crdt
  imports Merge
begin

text \<open>
  The per-clip CRDT (\<open>tpt-av-sync-crdt/src/clip_crdt.rs\<close>): eleven registers, the
  parent link and ownership claim of a split child, the \<open>detached\<close> flag and the map of
  split points. \<open>clip_apply\<close> is \<open>ClipCrdt::apply\<close>, whose result is always
  \<open>Ok(())\<close>, so it returns the record alone. The lemmas show that operations with
  distinct tags commute on a clip, that each is idempotent, and that split points form a
  set of offsets in which the smaller child id wins.
\<close>

record clip_parent =
  cp_clip :: clip_id
  cp_offset :: u64

record clip_crdt =
  cc_parent :: "clip_parent option"
  cc_alive :: "bool lww_reg"
  cc_track :: "track_id lww_reg"
  cc_start_frame :: "u64 lww_reg"
  cc_duration_frames :: "u64 lww_reg"
  cc_name :: "string lww_reg"
  cc_source :: "string lww_reg"
  cc_color :: "u32 lww_reg"
  cc_gain :: "f32 lww_reg"
  cc_muted :: "bool lww_reg"
  cc_locked :: "bool lww_reg"
  cc_order_hint :: "u64 lww_reg"
  cc_detached :: bool
  cc_splits :: "(u64, clip_id) fmap"
  cc_origin_claim :: "(clip_id \<times> u64) option"

definition clip_from_insert :: "track_id \<Rightarrow> clip_data \<Rightarrow> u64 \<Rightarrow> op_tag \<Rightarrow> clip_crdt" where
  "clip_from_insert track clip position tag =
     \<lparr>cc_parent = None,
      cc_alive = lww_new True tag,
      cc_track = lww_new track tag,
      cc_start_frame = lww_new (cd_start_frame clip) tag,
      cc_duration_frames = lww_new (cd_duration_frames clip) tag,
      cc_name = lww_new (cd_name clip) tag,
      cc_source = lww_new (cd_source clip) tag,
      cc_color = lww_new (cd_color clip) tag,
      cc_gain = lww_new f32_one tag,
      cc_muted = lww_new False tag,
      cc_locked = lww_new False tag,
      cc_order_hint = lww_new position tag,
      cc_detached = False,
      cc_splits = fmempty,
      cc_origin_claim = None\<rparr>"

definition clip_from_split :: "op_tag \<Rightarrow> clip_crdt" where
  "clip_from_split tag =
     \<lparr>cc_parent = None,
      cc_alive = lww_new True tag,
      cc_track = lww_new_initial (TrackId 0),
      cc_start_frame = lww_new_initial 0,
      cc_duration_frames = lww_new_initial 0,
      cc_name = lww_new_initial [],
      cc_source = lww_new_initial [],
      cc_color = lww_new_initial 0,
      cc_gain = lww_new_initial f32_one,
      cc_muted = lww_new_initial False,
      cc_locked = lww_new_initial False,
      cc_order_hint = lww_new_initial 0,
      cc_detached = False,
      cc_splits = fmempty,
      cc_origin_claim = None\<rparr>"

definition clip_record_split :: "u64 \<Rightarrow> clip_id \<Rightarrow> clip_crdt \<Rightarrow> clip_crdt" where
  "clip_record_split offset new_clip_id r =
     (case fmlookup (cc_splits r) offset of
        Some cur \<Rightarrow>
          if new_clip_id < cur
          then r\<lparr>cc_splits := fmupd offset new_clip_id (cc_splits r)\<rparr> else r
      | None \<Rightarrow> r\<lparr>cc_splits := fmupd offset new_clip_id (cc_splits r)\<rparr>)"

text \<open>An \<open>if let Some(v)\<close> around a register write.\<close>

definition lww_set_opt :: "'a option \<Rightarrow> op_tag \<Rightarrow> 'a lww_reg \<Rightarrow> 'a lww_reg" where
  "lww_set_opt v tag r = (case v of None \<Rightarrow> r | Some x \<Rightarrow> lww_set x tag r)"

definition clip_apply_metadata :: "clip_metadata_update \<Rightarrow> op_tag \<Rightarrow> clip_crdt \<Rightarrow> clip_crdt" where
  "clip_apply_metadata updates tag r =
     r\<lparr>cc_name := lww_set_opt (cm_name updates) tag (cc_name r),
       cc_source := lww_set_opt (cm_source updates) tag (cc_source r),
       cc_color := lww_set_opt (cm_color updates) tag (cc_color r),
       cc_gain := lww_set_opt (cm_gain updates) tag (cc_gain r),
       cc_muted := lww_set_opt (cm_muted updates) tag (cc_muted r),
       cc_locked := lww_set_opt (cm_locked updates) tag (cc_locked r)\<rparr>"

fun clip_apply :: "timeline_operation \<Rightarrow> op_tag \<Rightarrow> clip_crdt \<Rightarrow> clip_crdt" where
  "clip_apply (InsertClip _ track clip position) tag r =
     r\<lparr>cc_alive := lww_set True tag (cc_alive r),
       cc_track := lww_set track tag (cc_track r),
       cc_start_frame := lww_set (cd_start_frame clip) tag (cc_start_frame r),
       cc_duration_frames := lww_set (cd_duration_frames clip) tag (cc_duration_frames r),
       cc_name := lww_set (cd_name clip) tag (cc_name r),
       cc_source := lww_set (cd_source clip) tag (cc_source r),
       cc_color := lww_set (cd_color clip) tag (cc_color r),
       cc_gain := lww_set f32_one tag (cc_gain r),
       cc_muted := lww_set False tag (cc_muted r),
       cc_locked := lww_set False tag (cc_locked r),
       cc_order_hint := lww_set position tag (cc_order_hint r)\<rparr>"
| "clip_apply (MoveClip _ new_track new_start_frame new_position) tag r =
     r\<lparr>cc_track := lww_set new_track tag (cc_track r),
       cc_start_frame := lww_set new_start_frame tag (cc_start_frame r),
       cc_order_hint := lww_set new_position tag (cc_order_hint r),
       cc_detached := True\<rparr>"
| "clip_apply (DeleteClip _) tag r = r\<lparr>cc_alive := lww_set False tag (cc_alive r)\<rparr>"
| "clip_apply (SplitClip _ split_frame new_clip_id) tag r =
     clip_record_split split_frame new_clip_id r"
| "clip_apply (TrimClip _ new_start_frame new_duration _) tag r =
     r\<lparr>cc_start_frame := lww_set new_start_frame tag (cc_start_frame r),
       cc_duration_frames := lww_set new_duration tag (cc_duration_frames r),
       cc_detached := True\<rparr>"
| "clip_apply (UpdateClipMetadata _ updates) tag r = clip_apply_metadata updates tag r"
| "clip_apply _ tag r = r"

definition clip_to_clip_data :: "clip_crdt \<Rightarrow> clip_data" where
  "clip_to_clip_data r =
     \<lparr>cd_name = reg_value (cc_name r), cd_source = reg_value (cc_source r),
      cd_start_frame = reg_value (cc_start_frame r),
      cd_duration_frames = reg_value (cc_duration_frames r), cd_color = reg_value (cc_color r)\<rparr>"

definition clip_first_split_offset :: "clip_crdt \<Rightarrow> u64 option" where
  "clip_first_split_offset r =
     (case btree_keys (cc_splits r) of [] \<Rightarrow> None | k # _ \<Rightarrow> Some k)"

definition clip_next_split_boundary_after :: "clip_crdt \<Rightarrow> u64 \<Rightarrow> u64 option" where
  "clip_next_split_boundary_after r offset =
     (case filter (\<lambda>k. sat_add offset 1 \<le> k) (btree_keys (cc_splits r)) of
        [] \<Rightarrow> None | k # _ \<Rightarrow> Some k)"

definition trim_edge_is_start :: "trim_edge \<Rightarrow> bool" where
  "trim_edge_is_start edge = (case edge of Start \<Rightarrow> True | End \<Rightarrow> False)"

text \<open>The tags of a clip's registers, in the order compaction reads them.\<close>

definition clip_tags :: "clip_crdt \<Rightarrow> op_tag list" where
  "clip_tags r =
     [reg_tag (cc_alive r), reg_tag (cc_track r), reg_tag (cc_start_frame r),
      reg_tag (cc_duration_frames r), reg_tag (cc_name r), reg_tag (cc_source r),
      reg_tag (cc_color r), reg_tag (cc_gain r), reg_tag (cc_muted r), reg_tag (cc_locked r),
      reg_tag (cc_order_hint r)]"

section \<open>Optional writes and split points\<close>

lemma lww_set_opt_commute:
  "t \<noteq> u \<Longrightarrow> lww_set_opt v t (lww_set_opt w u r) = lww_set_opt w u (lww_set_opt v t r)"
  "t \<noteq> u \<Longrightarrow> lww_set x t (lww_set_opt w u r) = lww_set_opt w u (lww_set x t r)"
  by (auto simp: lww_set_opt_def lww.put_commute split: option.split)

lemma lww_set_opt_idem [simp]: "lww_set_opt v t (lww_set_opt v t r) = lww_set_opt v t r"
  by (simp add: lww_set_opt_def lww.put_idem split: option.split)

lemma lww_set_opt_tag:
  "reg_tag (lww_set_opt v t r) = (if v = None then reg_tag r else max (reg_tag r) t)"
  by (cases v) (simp_all add: lww_set_opt_def lww.stamp_put)

definition merge_split :: "u64 \<Rightarrow> clip_id \<Rightarrow> (u64, clip_id) fmap \<Rightarrow> (u64, clip_id) fmap" where
  "merge_split offset c m =
     fmupd offset (case fmlookup m offset of None \<Rightarrow> c | Some d \<Rightarrow> min c d) m"

lemma clip_record_split_eq:
  "clip_record_split offset c r = r\<lparr>cc_splits := merge_split offset c (cc_splits r)\<rparr>"
  by (auto simp: clip_record_split_def merge_split_def min_def fmupd_same split: option.split)

lemma merge_split_lookup:
  "fmlookup (merge_split offset c m) k =
    (if k = offset then Some (case fmlookup m offset of None \<Rightarrow> c | Some d \<Rightarrow> min c d)
     else fmlookup m k)"
  by (simp add: merge_split_def)

lemma merge_split_commute: "merge_split i c (merge_split j d m) = merge_split j d (merge_split i c m)"
  by (rule fmap_ext) (auto simp: merge_split_lookup min.commute min.left_commute split: option.split)

lemma merge_split_idem: "merge_split i c (merge_split i c m) = merge_split i c m"
  by (rule fmap_ext) (auto simp: merge_split_lookup split: option.split)

section \<open>Operations on one clip commute\<close>

named_theorems clip_simps \<open>unfolding the clip operations to record updates\<close>
declare clip_apply_metadata_def [clip_simps] clip_record_split_eq [clip_simps]

text \<open>
  What a split does to its child (\<open>Session::apply_split\<close>): liveness at the tag of the
  operation and the ownership claim.
\<close>

definition clip_claim :: "clip_id \<Rightarrow> u64 \<Rightarrow> op_tag \<Rightarrow> clip_crdt \<Rightarrow> clip_crdt" where
  "clip_claim p f tag r =
     r\<lparr>cc_alive := lww_set True tag (cc_alive r),
       cc_parent := Some \<lparr>cp_clip = p, cp_offset = f\<rparr>, cc_origin_claim := Some (p, f)\<rparr>"

lemma clip_apply_commute:
  assumes "t \<noteq> u"
  shows "clip_apply a t (clip_apply b u r) = clip_apply b u (clip_apply a t r)"
  using assms
  by (cases a; cases b)
    (simp_all add: clip_simps lww.put_commute [of t u] lww_set_opt_commute [of t u]
      lww_set_opt_commute(2) [of u t] merge_split_commute)

lemma clip_apply_idem: "clip_apply a t (clip_apply a t r) = clip_apply a t r"
  by (cases a) (simp_all add: clip_simps lww.put_idem merge_split_idem)

lemma clip_claim_apply_commute:
  "t \<noteq> u \<Longrightarrow> clip_claim p f t (clip_apply b u r) = clip_apply b u (clip_claim p f t r)"
  by (cases b) (simp_all add: clip_claim_def clip_simps lww.put_commute)

lemma clip_claim_commute:
  "t \<noteq> u \<Longrightarrow> clip_claim p f t (clip_claim p f u r) = clip_claim p f u (clip_claim p f t r)"
  by (simp add: clip_claim_def lww.put_commute)

lemma clip_claim_idem: "clip_claim p f t (clip_claim p f t r) = clip_claim p f t r"
  by (simp add: clip_claim_def lww.put_idem)

lemma clip_claim_same:
  "cc_parent r = Some \<lparr>cp_clip = p, cp_offset = f\<rparr> \<Longrightarrow> cc_origin_claim r = Some (p, f) \<Longrightarrow>
    clip_claim p f t r = r\<lparr>cc_alive := lww_set True t (cc_alive r)\<rparr>"
  by (simp add: clip_claim_def)

text \<open>No operation other than a split's claim touches the parent link.\<close>

lemma clip_apply_parent [simp]:
  "cc_parent (clip_apply a t r) = cc_parent r"
  "cc_origin_claim (clip_apply a t r) = cc_origin_claim r"
  by (cases a; simp add: clip_simps)+

lemma clip_claim_parent [simp]:
  "cc_parent (clip_claim p f t r) = Some \<lparr>cp_clip = p, cp_offset = f\<rparr>"
  "cc_origin_claim (clip_claim p f t r) = Some (p, f)"
  by (simp_all add: clip_claim_def)

text \<open>
  A clip that no operation has written: an insert on a vacant slot and the creation of a
  split child are ordinary writes to it.
\<close>

definition clip_blank :: clip_crdt where
  "clip_blank = (clip_from_split op_tag_initial)\<lparr>cc_alive := lww_new_initial False\<rparr>"

lemma clip_from_insert_blank:
  "op_tag_initial < t \<Longrightarrow>
    clip_from_insert track clip position t = clip_apply (InsertClip c track clip position) t clip_blank"
  by (simp add: clip_from_insert_def clip_blank_def clip_from_split_def)

lemma clip_from_split_blank:
  "op_tag_initial < t \<Longrightarrow>
    (clip_from_split t)\<lparr>cc_parent := Some \<lparr>cp_clip = p, cp_offset = f\<rparr>, cc_origin_claim := Some (p, f)\<rparr>
      = clip_claim p f t clip_blank"
  by (simp add: clip_claim_def clip_blank_def clip_from_split_def)

section \<open>Split boundaries\<close>

lemma hd_sorted_le: "sorted (k # ks) \<Longrightarrow> j \<in> set (k # ks) \<Longrightarrow> k \<le> j"
  by auto

lemma clip_first_split_offset_Some:
  "clip_first_split_offset r = Some k \<longleftrightarrow>
    contains_key (cc_splits r) k \<and> (\<forall>j. contains_key (cc_splits r) j \<longrightarrow> k \<le> j)"
proof (cases "btree_keys (cc_splits r)")
  case Nil
  then show ?thesis
    using mem_btree_keys_iff [of k "cc_splits r"] by (simp add: clip_first_split_offset_def)
next
  case (Cons h t)
  have mem: "contains_key (cc_splits r) j \<longleftrightarrow> j \<in> set (h # t)" for j
    using mem_btree_keys_iff [of j "cc_splits r"] Cons by simp
  have "sorted (h # t)" using sorted_btree_keys [of "cc_splits r"] Cons by simp
  then show ?thesis
    using Cons by (auto simp: clip_first_split_offset_def mem dest: hd_sorted_le intro: order_antisym)
qed

lemma clip_first_split_offset_None:
  "clip_first_split_offset r = None \<longleftrightarrow> (\<forall>j. \<not> contains_key (cc_splits r) j)"
proof (cases "btree_keys (cc_splits r)")
  case Nil
  then show ?thesis
    by (simp add: clip_first_split_offset_def mem_btree_keys_iff [symmetric] del: set_btree_keys)
next
  case (Cons h t)
  then have "contains_key (cc_splits r) h"
    by (simp add: mem_btree_keys_iff [symmetric] del: set_btree_keys)
  with Cons show ?thesis by (auto simp: clip_first_split_offset_def)
qed

end
