(* ===== verification/Track_Crdt.thy ===== *)
theory Track_Crdt
  imports Clip_Crdt
begin

text \<open>
  The per-track CRDT (\<open>tpt-av-sync-crdt/src/track_crdt.rs\<close>): seven registers.
  \<open>track_apply\<close> is \<open>TrackCrdt::apply\<close>, whose result is always \<open>Ok(())\<close>. As for clips,
  operations with distinct tags commute and each is idempotent, and an insert on a vacant
  slot is an ordinary write to a blank track.
\<close>

record track_crdt =
  tc_alive :: "bool lww_reg"
  tc_name :: "string lww_reg"
  tc_kind :: "track_kind lww_reg"
  tc_volume_db :: "f32 lww_reg"
  tc_muted :: "bool lww_reg"
  tc_solo :: "bool lww_reg"
  tc_order_hint :: "u64 lww_reg"

definition track_from_insert :: "track_data \<Rightarrow> u64 \<Rightarrow> op_tag \<Rightarrow> track_crdt" where
  "track_from_insert track position tag =
     \<lparr>tc_alive = lww_new True tag,
      tc_name = lww_new (td_name track) tag,
      tc_kind = lww_new (td_kind track) tag,
      tc_volume_db = lww_new (td_volume_db track) tag,
      tc_muted = lww_new (td_muted track) tag,
      tc_solo = lww_new (td_solo track) tag,
      tc_order_hint = lww_new position tag\<rparr>"

fun track_apply :: "timeline_operation \<Rightarrow> op_tag \<Rightarrow> track_crdt \<Rightarrow> track_crdt" where
  "track_apply (InsertTrack _ track position) tag r =
     r\<lparr>tc_alive := lww_set True tag (tc_alive r),
       tc_name := lww_set (td_name track) tag (tc_name r),
       tc_kind := lww_set (td_kind track) tag (tc_kind r),
       tc_volume_db := lww_set (td_volume_db track) tag (tc_volume_db r),
       tc_muted := lww_set (td_muted track) tag (tc_muted r),
       tc_solo := lww_set (td_solo track) tag (tc_solo r),
       tc_order_hint := lww_set position tag (tc_order_hint r)\<rparr>"
| "track_apply (UpdateTrackMetadata _ updates) tag r =
     r\<lparr>tc_name := lww_set_opt (tm_name updates) tag (tc_name r),
       tc_volume_db := lww_set_opt (tm_volume_db updates) tag (tc_volume_db r),
       tc_muted := lww_set_opt (tm_muted updates) tag (tc_muted r),
       tc_solo := lww_set_opt (tm_solo updates) tag (tc_solo r),
       tc_order_hint := lww_set_opt (tm_position updates) tag (tc_order_hint r)\<rparr>"
| "track_apply (DeleteTrack _) tag r = r\<lparr>tc_alive := lww_set False tag (tc_alive r)\<rparr>"
| "track_apply _ tag r = r"

definition to_track_data :: "track_crdt \<Rightarrow> track_data" where
  "to_track_data r =
     \<lparr>td_name = reg_value (tc_name r), td_kind = reg_value (tc_kind r),
      td_volume_db = reg_value (tc_volume_db r), td_muted = reg_value (tc_muted r),
      td_solo = reg_value (tc_solo r)\<rparr>"

text \<open>The tags of a track's registers.\<close>

definition track_tags :: "track_crdt \<Rightarrow> op_tag list" where
  "track_tags r =
     [reg_tag (tc_alive r), reg_tag (tc_name r), reg_tag (tc_kind r), reg_tag (tc_volume_db r),
      reg_tag (tc_muted r), reg_tag (tc_solo r), reg_tag (tc_order_hint r)]"

lemma track_apply_commute:
  assumes "t \<noteq> u"
  shows "track_apply a t (track_apply b u r) = track_apply b u (track_apply a t r)"
  using assms
  by (cases a; cases b)
    (simp_all add: lww.put_commute [of t u] lww_set_opt_commute [of t u]
      lww_set_opt_commute(2) [of u t])

lemma track_apply_idem: "track_apply a t (track_apply a t r) = track_apply a t r"
  by (cases a) (simp_all add: lww.put_idem)

definition track_blank :: track_crdt where
  "track_blank =
     \<lparr>tc_alive = lww_new_initial False, tc_name = lww_new_initial [],
      tc_kind = lww_new_initial Audio, tc_volume_db = lww_new_initial f32_zero,
      tc_muted = lww_new_initial False, tc_solo = lww_new_initial False,
      tc_order_hint = lww_new_initial 0\<rparr>"

lemma track_from_insert_blank:
  "op_tag_initial < t \<Longrightarrow>
    track_from_insert track position t = track_apply (InsertTrack k track position) t track_blank"
  by (simp add: track_from_insert_def track_blank_def)

lemma to_track_data_from_insert [simp]: "to_track_data (track_from_insert track position t) = track"
  by (simp add: to_track_data_def track_from_insert_def)

end
