(* ===== verification/Envelope_Crdt.thy ===== *)
theory Envelope_Crdt
  imports Merge
begin

text \<open>
  The automation envelope store (\<open>tpt-av-sync-crdt/src/envelope_crdt.rs\<close>): one
  last-writer-wins register of a whole point list per (target, envelope type). The lemmas
  give the functional behaviour of \<open>set\<close> on \<open>get\<close> and show that writes commute and
  are idempotent.
\<close>

type_synonym envelope_store = "(target_id \<times> envelope_type, envelope_point list lww_reg) fmap"

definition env_new :: envelope_store where
  "env_new = fmempty"

definition env_entry :: "envelope_store \<Rightarrow> target_id \<times> envelope_type \<Rightarrow> envelope_point list lww_reg" where
  "env_entry store k = (case fmlookup store k of Some r \<Rightarrow> r | None \<Rightarrow> lww_new_initial [])"

definition env_set ::
  "target_id \<Rightarrow> envelope_type \<Rightarrow> envelope_point list \<Rightarrow> op_tag \<Rightarrow> envelope_store \<Rightarrow> envelope_store" where
  "env_set target envelope_type points tag store =
     fmupd (target, envelope_type) (lww_set points tag (env_entry store (target, envelope_type))) store"

definition env_get :: "envelope_store \<Rightarrow> target_id \<Rightarrow> envelope_type \<Rightarrow> envelope_point list option" where
  "env_get store target envelope_type =
     map_option reg_value (fmlookup store (target, envelope_type))"

definition env_iter :: "envelope_store \<Rightarrow> (target_id \<times> envelope_type \<times> envelope_point list) list" where
  "env_iter store = map (\<lambda>((t, e), reg). (t, e, reg_value reg)) (btree_entries store)"

definition env_tags :: "envelope_store \<Rightarrow> op_tag list" where
  "env_tags store = map (\<lambda>(_, reg). reg_tag reg) (btree_entries store)"

definition env_len :: "envelope_store \<Rightarrow> nat" where
  "env_len store = size (btree_entries store)"

definition env_is_empty :: "envelope_store \<Rightarrow> bool" where
  "env_is_empty store \<longleftrightarrow> btree_entries store = []"

section \<open>Laws\<close>

lemma env_set_commute:
  "t \<noteq> u \<Longrightarrow> env_set a e v t (env_set b f w u m) = env_set b f w u (env_set a e v t m)"
  by (rule fmap_ext) (auto simp: env_set_def env_entry_def lww.put_commute split: option.splits)

lemma env_set_idem: "env_set a e v t (env_set a e v t m) = env_set a e v t m"
  by (simp add: env_set_def env_entry_def lww.put_idem)

lemma env_get_set:
  "env_get (env_set a e v t m) b f =
    (if (b, f) = (a, e)
     then Some (if reg_tag (env_entry m (a, e)) < t then v else reg_value (env_entry m (a, e)))
     else env_get m b f)"
  by (simp add: env_get_def env_set_def lww_simps)

lemma env_get_iter: "(a, e, v) \<in> set (env_iter m) \<longleftrightarrow> env_get m a e = Some v"
proof -
  have "(a, e, v) \<in> set (env_iter m) \<longleftrightarrow>
      (\<exists>r. ((a, e), r) \<in> set (btree_entries m) \<and> reg_value r = v)"
    unfolding env_iter_def set_map image_iff by (force split: prod.splits)
  then show ?thesis unfolding set_btree_entries env_get_def by auto
qed

lemma env_tags_mem: "t \<in> set (env_tags m) \<longleftrightarrow> (\<exists>k r. fmlookup m k = Some r \<and> reg_tag r = t)"
proof -
  have "t \<in> set (env_tags m) \<longleftrightarrow> (\<exists>k r. (k, r) \<in> set (btree_entries m) \<and> reg_tag r = t)"
    unfolding env_tags_def set_map image_iff by (force split: prod.splits)
  then show ?thesis unfolding set_btree_entries .
qed

end
