(* ===== verification/Session_State.thy ===== *)
theory Session_State
  imports Track_Crdt Envelope_Crdt
begin

text \<open>
  The session as a bag of per-entity CRDTs and the application of one operation to it
  (\<open>tpt-av-sync-crdt/src/state.rs\<close>, the write half). \<open>session_apply\<close> returns the
  result and the state afterwards; \<open>apply_split\<close> changes the child before it looks the
  parent up, so an \<open>Err\<close> may come with a changed state, as in the code.
  The laws of application are in \<open>Session_Laws\<close>.
\<close>

section \<open>State\<close>

record session_metadata_state =
  ms_name :: "string lww_reg"
  ms_sample_rate :: "u32 lww_reg"
  ms_tempo_bpm :: "f64 lww_reg"
  ms_ts_numerator :: "u32 lww_reg"
  ms_ts_denominator :: "u32 lww_reg"

definition session_metadata_default :: session_metadata_state where
  "session_metadata_default =
     \<lparr>ms_name = lww_new_initial ''Untitled Session'', ms_sample_rate = lww_new_initial 48000,
      ms_tempo_bpm = lww_new_initial f64_120, ms_ts_numerator = lww_new_initial 4,
      ms_ts_denominator = lww_new_initial 4\<rparr>"

record session =
  ss_metadata :: session_metadata_state
  ss_tracks :: "(track_id, track_crdt) fmap"
  ss_clips :: "(clip_id, clip_crdt) fmap"
  ss_envelopes :: envelope_store

definition session_new :: session where
  "session_new =
     \<lparr>ss_metadata = session_metadata_default, ss_tracks = fmempty, ss_clips = fmempty,
      ss_envelopes = env_new\<rparr>"

definition unknown_clip :: "clip_id \<Rightarrow> sync_error" where
  "unknown_clip c = UnknownTarget ''clip'' (clip_raw c)"

definition unknown_track :: "track_id \<Rightarrow> sync_error" where
  "unknown_track t = UnknownTarget ''track'' (track_raw t)"

section \<open>Applying an operation\<close>

text \<open>The arms that write one existing clip or track record.\<close>

definition apply_to_clip ::
  "clip_id \<Rightarrow> timeline_operation \<Rightarrow> op_tag \<Rightarrow> session \<Rightarrow> unit result \<times> session" where
  "apply_to_clip c oper tag s =
     (case fmlookup (ss_clips s) c of
        None \<Rightarrow> (Inl (unknown_clip c), s)
      | Some r \<Rightarrow> (Inr (), s\<lparr>ss_clips := fmupd c (clip_apply oper tag r) (ss_clips s)\<rparr>))"

definition apply_to_track ::
  "track_id \<Rightarrow> timeline_operation \<Rightarrow> op_tag \<Rightarrow> session \<Rightarrow> unit result \<times> session" where
  "apply_to_track k oper tag s =
     (case fmlookup (ss_tracks s) k of
        None \<Rightarrow> (Inl (unknown_track k), s)
      | Some r \<Rightarrow> (Inr (), s\<lparr>ss_tracks := fmupd k (track_apply oper tag r) (ss_tracks s)\<rparr>))"

text \<open>
  Dropping the previous owner's split point: \<open>old_parent.splits.remove(&current.1)\<close>
  when it still names the child.
\<close>

definition release_split :: "clip_id \<times> u64 \<Rightarrow> clip_id \<Rightarrow> (clip_id, clip_crdt) fmap \<Rightarrow> (clip_id, clip_crdt) fmap" where
  "release_split current child clips =
     (case fmlookup clips (fst current) of
        None \<Rightarrow> clips
      | Some r \<Rightarrow>
          if fmlookup (cc_splits r) (snd current) = Some child
          then fmupd (fst current) (r\<lparr>cc_splits := fmdrop (snd current) (cc_splits r)\<rparr>) clips
          else clips)"

definition reparent :: "clip_id \<times> u64 \<Rightarrow> clip_id \<Rightarrow> (clip_id, clip_crdt) fmap \<Rightarrow> (clip_id, clip_crdt) fmap" where
  "reparent claim child clips =
     (case fmlookup clips child of
        None \<Rightarrow> clips
      | Some r \<Rightarrow> fmupd child
          (r\<lparr>cc_origin_claim := Some claim,
             cc_parent := Some \<lparr>cp_clip = fst claim, cp_offset = snd claim\<rparr>\<rparr>) clips)"

definition revive :: "clip_id \<Rightarrow> op_tag \<Rightarrow> (clip_id, clip_crdt) fmap \<Rightarrow> (clip_id, clip_crdt) fmap" where
  "revive child tag clips =
     (case fmlookup clips child of
        None \<Rightarrow> clips
      | Some r \<Rightarrow> fmupd child (r\<lparr>cc_alive := lww_set True tag (cc_alive r)\<rparr>) clips)"

definition claim_less :: "clip_id \<times> u64 \<Rightarrow> clip_id \<times> u64 \<Rightarrow> bool" where
  "claim_less a b \<longleftrightarrow> fst a < fst b \<or> fst a = fst b \<and> snd a < snd b"

definition apply_split ::
  "clip_id \<Rightarrow> u64 \<Rightarrow> clip_id \<Rightarrow> op_tag \<Rightarrow> session \<Rightarrow> unit result \<times> session" where
  "apply_split clip split_frame new_clip tag s =
     (if clip = new_clip then (Inr (), s)
      else
        let claim = (clip, split_frame) in
        case fmlookup (ss_clips s) new_clip of
          Some child \<Rightarrow>
            let current = (case cc_origin_claim child of None \<Rightarrow> claim | Some k \<Rightarrow> k) in
            if claim_less current claim then (Inr (), s)
            else
              let clips = (if claim_less claim current
                           then reparent claim new_clip (release_split current new_clip (ss_clips s))
                           else ss_clips s);
                  clips = revive new_clip tag clips
              in (case fmlookup clips clip of
                    None \<Rightarrow> (Inl (unknown_clip clip), s\<lparr>ss_clips := clips\<rparr>)
                  | Some r \<Rightarrow> (Inr (), s\<lparr>ss_clips :=
                        fmupd clip (clip_record_split split_frame new_clip r) clips\<rparr>))
        | None \<Rightarrow>
            (case fmlookup (ss_clips s) clip of
               None \<Rightarrow> (Inl (unknown_clip clip), s)
             | Some r \<Rightarrow>
                 let clips = fmupd clip (clip_apply (SplitClip clip split_frame new_clip) tag r)
                               (ss_clips s);
                     child = (clip_from_split tag)
                       \<lparr>cc_parent := Some \<lparr>cp_clip = clip, cp_offset = split_frame\<rparr>,
                        cc_origin_claim := Some claim\<rparr>
                 in (Inr (), s\<lparr>ss_clips := fmupd new_clip child clips\<rparr>)))"

definition session_metadata_apply ::
  "session_metadata_update \<Rightarrow> op_tag \<Rightarrow> session_metadata_state \<Rightarrow> session_metadata_state" where
  "session_metadata_apply u tag m =
     m\<lparr>ms_name := lww_set_opt (sm_name u) tag (ms_name m),
       ms_sample_rate := lww_set_opt (sm_sample_rate u) tag (ms_sample_rate m),
       ms_tempo_bpm := lww_set_opt (sm_tempo_bpm u) tag (ms_tempo_bpm m),
       ms_ts_numerator := lww_set_opt (sm_ts_numerator u) tag (ms_ts_numerator m),
       ms_ts_denominator := lww_set_opt (sm_ts_denominator u) tag (ms_ts_denominator m)\<rparr>"

definition envelope_missing :: "target_id \<Rightarrow> session \<Rightarrow> sync_error option" where
  "envelope_missing target s =
     (case target of
        TargetClip c \<Rightarrow> if contains_key (ss_clips s) c then None else Some (unknown_clip c)
      | TargetTrack t \<Rightarrow> if contains_key (ss_tracks s) t then None else Some (unknown_track t))"

fun session_apply :: "timeline_operation \<Rightarrow> op_tag \<Rightarrow> session \<Rightarrow> unit result \<times> session" where
  "session_apply (InsertClip c track clip position) tag s =
     (Inr (), s\<lparr>ss_clips := fmupd c
        (case fmlookup (ss_clips s) c of
           Some r \<Rightarrow> clip_apply (InsertClip c track clip position) tag r
         | None \<Rightarrow> clip_from_insert track clip position tag) (ss_clips s)\<rparr>)"
| "session_apply (DeleteClip c) tag s = apply_to_clip c (DeleteClip c) tag s"
| "session_apply (MoveClip c track start position) tag s =
     apply_to_clip c (MoveClip c track start position) tag s"
| "session_apply (TrimClip c start duration edge) tag s =
     apply_to_clip c (TrimClip c start duration edge) tag s"
| "session_apply (UpdateClipMetadata c updates) tag s =
     apply_to_clip c (UpdateClipMetadata c updates) tag s"
| "session_apply (SplitClip c split_frame new_clip) tag s = apply_split c split_frame new_clip tag s"
| "session_apply (InsertTrack k track position) tag s =
     (Inr (), s\<lparr>ss_tracks := fmupd k
        (case fmlookup (ss_tracks s) k of
           Some r \<Rightarrow> track_apply (InsertTrack k track position) tag r
         | None \<Rightarrow> track_from_insert track position tag) (ss_tracks s)\<rparr>)"
| "session_apply (UpdateTrackMetadata k updates) tag s =
     apply_to_track k (UpdateTrackMetadata k updates) tag s"
| "session_apply (DeleteTrack k) tag s = apply_to_track k (DeleteTrack k) tag s"
| "session_apply (UpdateEnvelope target envelope_type points) tag s =
     (case envelope_missing target s of
        Some e \<Rightarrow> (Inl e, s)
      | None \<Rightarrow> (Inr (), s\<lparr>ss_envelopes :=
          env_set target envelope_type points tag (ss_envelopes s)\<rparr>))"
| "session_apply (UpdateSessionMetadata updates) tag s =
     (Inr (), s\<lparr>ss_metadata := session_metadata_apply updates tag (ss_metadata s)\<rparr>)"

text \<open>Accessors.\<close>

definition session_track :: "session \<Rightarrow> track_id \<Rightarrow> track_crdt option" where
  "session_track s k = fmlookup (ss_tracks s) k"

definition session_clip :: "session \<Rightarrow> clip_id \<Rightarrow> clip_crdt option" where
  "session_clip s c = fmlookup (ss_clips s) c"

definition session_metadata_tags :: "session \<Rightarrow> op_tag list" where
  "session_metadata_tags s =
     [reg_tag (ms_name (ss_metadata s)), reg_tag (ms_sample_rate (ss_metadata s)),
      reg_tag (ms_tempo_bpm (ss_metadata s)), reg_tag (ms_ts_numerator (ss_metadata s)),
      reg_tag (ms_ts_denominator (ss_metadata s))]"

definition tag_for :: "u64 \<Rightarrow> op_tag" where
  "tag_for lamport = OpTag lamport (PeerId 0)"

text \<open>Applying a sequence of tagged operations, ignoring the results.\<close>

definition apply_all :: "(timeline_operation \<times> op_tag) list \<Rightarrow> session \<Rightarrow> session" where
  "apply_all ops s = fold (\<lambda>(oper, tag) s. snd (session_apply oper tag s)) ops s"

section \<open>The only error\<close>

lemma apply_to_clip_error: "fst (apply_to_clip c oper t s) = Inl e \<Longrightarrow> is_unknown_target e"
  by (auto simp: apply_to_clip_def unknown_clip_def split: option.splits)

lemma apply_to_track_error: "fst (apply_to_track c oper t s) = Inl e \<Longrightarrow> is_unknown_target e"
  by (auto simp: apply_to_track_def unknown_track_def split: option.splits)

lemma apply_split_error: "fst (apply_split c f d t s) = Inl e \<Longrightarrow> is_unknown_target e"
  by (auto simp: apply_split_def unknown_clip_def Let_def split: option.splits if_splits)

lemma session_apply_error_kind:
  "fst (session_apply oper t s) = Inl e \<Longrightarrow> is_unknown_target e"
  by (cases oper)
    (auto dest: apply_to_clip_error apply_to_track_error apply_split_error
      simp: envelope_missing_def unknown_clip_def unknown_track_def
      split: option.splits target_id.splits if_splits)

end
