(* ===== verification/Session_Laws.thy ===== *)
theory Session_Laws
  imports Session_State
begin

text \<open>
  The laws of \<open>session_apply\<close>. The code's behaviour separates into a guard and a total
  effect: under the invariant \<open>session_inv\<close> and the discipline \<open>valid_ops\<close> on the
  operations in flight, \<open>session_apply\<close> either performs \<open>session_effect\<close> or reports the
  missing target and changes nothing (\<open>session_apply_guarded\<close>). Effects of compatible
  operations commute and are idempotent, and no effect disables another operation.

  The discipline is what the editors of the repository do: tags are unique to an
  operation and never the initial one, a split names a fresh child id, so the splits of
  one child agree on its parent and offset and no insert targets it. Outside it the
  replicas diverge; \<open>Divergence\<close> exhibits the schedules.
\<close>

section \<open>Guard and effect\<close>

definition target_present :: "session \<Rightarrow> required_target \<Rightarrow> bool" where
  "target_present s r = (case r of
     RequiredClip c \<Rightarrow> contains_key (ss_clips s) c
   | RequiredTrack k \<Rightarrow> contains_key (ss_tracks s) k)"

text \<open>The child of a proper split with its parent and offset.\<close>

definition split_of :: "timeline_operation \<Rightarrow> (clip_id \<times> clip_id \<times> u64) option" where
  "split_of oper = (case oper of
     SplitClip p f c \<Rightarrow> if p = c then None else Some (c, p, f)
   | _ \<Rightarrow> None)"

definition self_split :: "timeline_operation \<Rightarrow> bool" where
  "self_split oper = (case oper of SplitClip p f c \<Rightarrow> p = c | _ \<Rightarrow> False)"

definition session_enabled :: "timeline_operation \<Rightarrow> session \<Rightarrow> bool" where
  "session_enabled oper s \<longleftrightarrow>
     self_split oper \<or> (\<forall>r \<in> set (required_targets oper). target_present s r)"

definition clip_effect :: "clip_id \<Rightarrow> (clip_crdt \<Rightarrow> clip_crdt) \<Rightarrow> session \<Rightarrow> session" where
  "clip_effect c f s = s\<lparr>ss_clips := fm_alter clip_blank c f (ss_clips s)\<rparr>"

definition track_effect :: "track_id \<Rightarrow> (track_crdt \<Rightarrow> track_crdt) \<Rightarrow> session \<Rightarrow> session" where
  "track_effect k f s = s\<lparr>ss_tracks := fm_alter track_blank k f (ss_tracks s)\<rparr>"

fun session_effect :: "timeline_operation \<Rightarrow> op_tag \<Rightarrow> session \<Rightarrow> session" where
  "session_effect (InsertClip c k d n) t s = clip_effect c (clip_apply (InsertClip c k d n) t) s"
| "session_effect (MoveClip c k n m) t s = clip_effect c (clip_apply (MoveClip c k n m) t) s"
| "session_effect (DeleteClip c) t s = clip_effect c (clip_apply (DeleteClip c) t) s"
| "session_effect (TrimClip c n d e) t s = clip_effect c (clip_apply (TrimClip c n d e) t) s"
| "session_effect (UpdateClipMetadata c u) t s =
     clip_effect c (clip_apply (UpdateClipMetadata c u) t) s"
| "session_effect (SplitClip p f c) t s =
     (if p = c then s
      else clip_effect c (clip_claim p f t) (clip_effect p (clip_record_split f c) s))"
| "session_effect (InsertTrack k d n) t s = track_effect k (track_apply (InsertTrack k d n) t) s"
| "session_effect (UpdateTrackMetadata k u) t s =
     track_effect k (track_apply (UpdateTrackMetadata k u) t) s"
| "session_effect (DeleteTrack k) t s = track_effect k (track_apply (DeleteTrack k) t) s"
| "session_effect (UpdateEnvelope a e v) t s =
     s\<lparr>ss_envelopes := env_set a e v t (ss_envelopes s)\<rparr>"
| "session_effect (UpdateSessionMetadata u) t s =
     s\<lparr>ss_metadata := session_metadata_apply u t (ss_metadata s)\<rparr>"

section \<open>Effects commute\<close>

lemma clip_effect_commute:
  "(\<And>x. c = d \<Longrightarrow> f (g x) = g (f x)) \<Longrightarrow>
    clip_effect c f (clip_effect d g s) = clip_effect d g (clip_effect c f s)"
  by (simp add: clip_effect_def fm_alter_commute [of c d f g])

lemma track_effect_commute:
  "(\<And>x. c = d \<Longrightarrow> f (g x) = g (f x)) \<Longrightarrow>
    track_effect c f (track_effect d g s) = track_effect d g (track_effect c f s)"
  by (simp add: track_effect_def fm_alter_commute [of c d f g])

lemma clip_effect_idem: "(\<And>x. f (f x) = f x) \<Longrightarrow> clip_effect c f (clip_effect c f s) = clip_effect c f s"
  by (simp add: clip_effect_def fm_alter_idem)

lemma track_effect_idem:
  "(\<And>x. f (f x) = f x) \<Longrightarrow> track_effect c f (track_effect c f s) = track_effect c f s"
  by (simp add: track_effect_def fm_alter_idem)

lemma clip_record_split_commutes:
  "clip_record_split f c (clip_apply b u r) = clip_apply b u (clip_record_split f c r)"
  "clip_record_split f c (clip_record_split g d r) = clip_record_split g d (clip_record_split f c r)"
  "clip_record_split f c (clip_claim p g u r) = clip_claim p g u (clip_record_split f c r)"
  "clip_record_split f c (clip_record_split f c r) = clip_record_split f c r"
proof -
  show "clip_record_split f c (clip_apply b u r) = clip_apply b u (clip_record_split f c r)"
    by (cases b) (simp_all add: clip_simps merge_split_commute)
qed (simp_all add: clip_record_split_eq clip_claim_def merge_split_commute merge_split_idem)

lemma session_metadata_apply_commute:
  "t \<noteq> u \<Longrightarrow> session_metadata_apply a t (session_metadata_apply b u m) =
    session_metadata_apply b u (session_metadata_apply a t m)"
  by (simp add: session_metadata_apply_def lww_set_opt_commute)

lemma session_metadata_apply_idem:
  "session_metadata_apply a t (session_metadata_apply a t m) = session_metadata_apply a t m"
  by (simp add: session_metadata_apply_def)

text \<open>Operations that may be in flight together.\<close>

definition insert_target :: "timeline_operation \<Rightarrow> clip_id option" where
  "insert_target oper = (case oper of InsertClip c _ _ _ \<Rightarrow> Some c | _ \<Rightarrow> None)"

text \<open>No insert targets the child of a split, and the splits of one child agree.\<close>

definition origin_compatible :: "timeline_operation \<Rightarrow> timeline_operation \<Rightarrow> bool" where
  "origin_compatible a b \<longleftrightarrow>
     (case split_of b of None \<Rightarrow> True | Some (c, origin) \<Rightarrow>
        insert_target a \<noteq> Some c \<and>
        (case split_of a of None \<Rightarrow> True | Some (d, origin') \<Rightarrow> d = c \<longrightarrow> origin' = origin))"

definition ops_compatible ::
  "timeline_operation \<times> op_tag \<Rightarrow> timeline_operation \<times> op_tag \<Rightarrow> bool" where
  "ops_compatible x y \<longleftrightarrow>
     (snd x = snd y \<longrightarrow> fst x = fst y) \<and> origin_compatible (fst x) (fst y)"

lemma origin_compatible_refl [simp]: "origin_compatible a a"
  by (cases a) (simp_all add: origin_compatible_def split_of_def insert_target_def)

definition valid_ops :: "(timeline_operation \<times> op_tag) set \<Rightarrow> bool" where
  "valid_ops X \<longleftrightarrow> (\<forall>x \<in> X. op_tag_initial < snd x) \<and> (\<forall>x \<in> X. \<forall>y \<in> X. ops_compatible x y)"

lemmas clip_commutes = clip_apply_commute clip_claim_apply_commute
  clip_claim_apply_commute [symmetric] clip_claim_commute clip_record_split_commutes

lemma clip_effect_other_fields [simp]:
  "ss_tracks (clip_effect c f s) = ss_tracks s"
  "ss_envelopes (clip_effect c f s) = ss_envelopes s"
  "ss_metadata (clip_effect c f s) = ss_metadata s"
  "ss_clips (clip_effect c f s) = fm_alter clip_blank c f (ss_clips s)"
  by (simp_all add: clip_effect_def)

lemma track_effect_other_fields [simp]:
  "ss_clips (track_effect c g s) = ss_clips s"
  "ss_envelopes (track_effect c g s) = ss_envelopes s"
  "ss_metadata (track_effect c g s) = ss_metadata s"
  "ss_tracks (track_effect c g s) = fm_alter track_blank c g (ss_tracks s)"
  by (simp_all add: track_effect_def)

text \<open>The shapes of an effect.\<close>

definition clip_target :: "timeline_operation \<Rightarrow> clip_id option" where
  "clip_target oper = (case oper of
     InsertClip c _ _ _ \<Rightarrow> Some c | MoveClip c _ _ _ \<Rightarrow> Some c | DeleteClip c \<Rightarrow> Some c
   | TrimClip c _ _ _ \<Rightarrow> Some c | UpdateClipMetadata c _ \<Rightarrow> Some c | _ \<Rightarrow> None)"

definition track_target :: "timeline_operation \<Rightarrow> track_id option" where
  "track_target oper = (case oper of
     InsertTrack k _ _ \<Rightarrow> Some k | UpdateTrackMetadata k _ \<Rightarrow> Some k | DeleteTrack k \<Rightarrow> Some k
   | _ \<Rightarrow> None)"

lemma session_effect_clip:
  "clip_target oper = Some c \<Longrightarrow> session_effect oper t s = clip_effect c (clip_apply oper t) s"
  by (cases oper) (auto simp: clip_target_def)

lemma session_effect_track:
  "track_target oper = Some k \<Longrightarrow> session_effect oper t s = track_effect k (track_apply oper t) s"
  by (cases oper) (auto simp: track_target_def)

lemma operation_shapes:
  obtains (clip) c where "clip_target oper = Some c"
  | (track) k where "track_target oper = Some k"
  | (split) p f c where "oper = SplitClip p f c"
  | (envelope) a e v where "oper = UpdateEnvelope a e v"
  | (metadata) u where "oper = UpdateSessionMetadata u"
  by (cases oper) (auto simp: clip_target_def track_target_def)

lemma split_effects_commute:
  assumes "t \<noteq> u" and "c = d \<Longrightarrow> p = q \<and> f = g"
  shows "session_effect (SplitClip p f c) t (session_effect (SplitClip q g d) u s) =
    session_effect (SplitClip q g d) u (session_effect (SplitClip p f c) t s)"
proof -
  note claim_record = clip_effect_commute [of _ _ "clip_claim _ _ _" "clip_record_split _ _"]
  have cc: "clip_effect c (clip_claim p f t) (clip_effect d (clip_claim q g u) s) =
      clip_effect d (clip_claim q g u) (clip_effect c (clip_claim p f t) s)" for s
    using assms by (intro clip_effect_commute) (auto simp: clip_claim_commute)
  have cr: "clip_effect i (clip_claim p' f' t') (clip_effect j (clip_record_split g' d') s) =
      clip_effect j (clip_record_split g' d') (clip_effect i (clip_claim p' f' t') s)"
    for i j p' f' t' g' d' s
    by (intro clip_effect_commute) (simp add: clip_record_split_commutes(3))
  have rr: "clip_effect i (clip_record_split f' c') (clip_effect j (clip_record_split g' d') s) =
      clip_effect j (clip_record_split g' d') (clip_effect i (clip_record_split f' c') s)"
    for i j f' c' g' d' s
    by (intro clip_effect_commute) (rule clip_record_split_commutes)
  show ?thesis by (simp add: cr) (simp only: rr [of p] cc simp_thms)
qed

lemma split_clip_effects_commute:
  assumes "t \<noteq> u" and "clip_target b = Some d"
  shows "session_effect (SplitClip p f c) t (session_effect b u s) =
    session_effect b u (session_effect (SplitClip p f c) t s)"
proof -
  have cb: "clip_effect c (clip_claim p f t) (clip_effect d (clip_apply b u) s) =
      clip_effect d (clip_apply b u) (clip_effect c (clip_claim p f t) s)" for s
    using assms by (intro clip_effect_commute) (simp add: clip_claim_apply_commute)
  have rb: "clip_effect p (clip_record_split f c) (clip_effect d (clip_apply b u) s) =
      clip_effect d (clip_apply b u) (clip_effect p (clip_record_split f c) s)" for s
    by (intro clip_effect_commute) (simp add: clip_record_split_commutes(1))
  show ?thesis using assms by (simp add: session_effect_clip cb rb)
qed

text \<open>Writes to different components of the session.\<close>

lemma component_effects_commute:
  "clip_effect c f (track_effect k g s) = track_effect k g (clip_effect c f s)"
  "clip_effect c f (s\<lparr>ss_envelopes := E\<rparr>) = (clip_effect c f s)\<lparr>ss_envelopes := E\<rparr>"
  "clip_effect c f (s\<lparr>ss_metadata := M\<rparr>) = (clip_effect c f s)\<lparr>ss_metadata := M\<rparr>"
  "track_effect k g (s\<lparr>ss_envelopes := E\<rparr>) = (track_effect k g s)\<lparr>ss_envelopes := E\<rparr>"
  "track_effect k g (s\<lparr>ss_metadata := M\<rparr>) = (track_effect k g s)\<lparr>ss_metadata := M\<rparr>"
  by (simp_all add: clip_effect_def track_effect_def)

lemma session_effect_commute_distinct:
  assumes "t \<noteq> u" and "ops_compatible (a, t) (b, u)"
  shows "session_effect a t (session_effect b u s) = session_effect b u (session_effect a t s)"
proof -
  note shapes = session_effect_clip session_effect_track component_effects_commute
  show ?thesis
  proof (cases a rule: operation_shapes)
    case a: (clip c)
    show ?thesis
    proof (cases b rule: operation_shapes)
      case (clip d)
      with a assms(1) show ?thesis
        by (simp add: shapes clip_apply_commute clip_effect_commute)
    next
      case (split p f d)
      with a assms(1) show ?thesis by (metis split_clip_effects_commute)
    qed (simp_all add: a shapes)
  next
    case a: (track k)
    show ?thesis
    proof (cases b rule: operation_shapes)
      case (track d)
      with a assms(1) show ?thesis
        by (simp add: shapes track_apply_commute track_effect_commute)
    qed (simp_all add: a shapes)
  next
    case a: (split p f c)
    show ?thesis
    proof (cases b rule: operation_shapes)
      case (clip d)
      with a assms(1) show ?thesis by (metis split_clip_effects_commute)
    next
      case (split q g d)
      show ?thesis
      proof (cases "p = c \<or> q = d")
        case False
        with a split assms(2) have "c = d \<Longrightarrow> p = q \<and> f = g"
          by (auto simp: ops_compatible_def origin_compatible_def split_of_def)
        with a split assms(1) show ?thesis by (simp only: split_effects_commute)
      qed (auto simp: a split)
    qed (simp_all add: a shapes)
  next
    case a: (envelope x e v)
    show ?thesis
      by (cases b rule: operation_shapes)
        (use assms(1) in \<open>simp_all add: a shapes env_set_commute\<close>)
  next
    case a: (metadata x)
    show ?thesis
      by (cases b rule: operation_shapes)
        (use assms(1) in \<open>simp_all add: a shapes session_metadata_apply_commute\<close>)
  qed
qed

lemma session_effect_idem: "session_effect a t (session_effect a t s) = session_effect a t s"
proof (cases a rule: operation_shapes)
  case (clip c)
  then show ?thesis by (simp add: session_effect_clip clip_effect_idem clip_apply_idem)
next
  case (track k)
  then show ?thesis by (simp add: session_effect_track track_effect_idem track_apply_idem)
next
  case (split p f c)
  show ?thesis
  proof (cases "p = c")
    case False
    have "clip_effect p (clip_record_split f c) (clip_effect c (clip_claim p f t) s') =
        clip_effect c (clip_claim p f t) (clip_effect p (clip_record_split f c) s')" for s'
      using False by (intro clip_effect_commute) simp
    with split False show ?thesis
      by (simp add: clip_effect_idem clip_claim_idem clip_record_split_commutes(4))
  qed (simp add: split)
qed (simp_all add: env_set_idem session_metadata_apply_idem)

lemma session_effect_commute:
  "ops_compatible (a, t) (b, u) \<Longrightarrow>
    session_effect a t (session_effect b u s) = session_effect b u (session_effect a t s)"
  by (metis fst_conv ops_compatible_def session_effect_commute_distinct snd_conv)

section \<open>Guards\<close>

lemma contains_clip_effect [simp]:
  "contains_key (ss_clips (clip_effect c f s)) d \<longleftrightarrow> d = c \<or> contains_key (ss_clips s) d"
  by (simp add: clip_effect_def)

lemma contains_track_effect [simp]:
  "contains_key (ss_tracks (track_effect c f s)) d \<longleftrightarrow> d = c \<or> contains_key (ss_tracks s) d"
  by (simp add: track_effect_def)

lemma target_present_effect:
  "target_present s r \<Longrightarrow> target_present (session_effect oper t s) r"
  by (cases oper; cases r)
    (auto simp: target_present_def contains_key_iff split: option.splits)

lemma session_enabled_effect:
  "session_enabled oper s \<Longrightarrow> session_enabled oper (session_effect a t s)"
  by (auto simp: session_enabled_def target_present_effect)

section \<open>The session invariant\<close>

text \<open>
  A clip without an ownership claim was inserted; a clip with one is the child of a
  split in flight, its parent link agrees with the claim, and its parent exists.
\<close>

definition clip_origin_ok ::
  "(timeline_operation \<times> op_tag) set \<Rightarrow> session \<Rightarrow> clip_id \<Rightarrow> clip_crdt \<Rightarrow> bool" where
  "clip_origin_ok X s c r \<longleftrightarrow> (case cc_origin_claim r of
     None \<Rightarrow> cc_parent r = None \<and> (\<exists>x \<in> X. insert_target (fst x) = Some c)
   | Some (p, f) \<Rightarrow> cc_parent r = Some \<lparr>cp_clip = p, cp_offset = f\<rparr> \<and>
       contains_key (ss_clips s) p \<and> (\<exists>x \<in> X. split_of (fst x) = Some (c, p, f)))"

definition session_inv :: "(timeline_operation \<times> op_tag) set \<Rightarrow> session \<Rightarrow> bool" where
  "session_inv X s \<longleftrightarrow> (\<forall>c r. fmlookup (ss_clips s) c = Some r \<longrightarrow> clip_origin_ok X s c r)"

lemma session_inv_new [simp]: "session_inv X session_new"
  by (simp add: session_inv_def session_new_def)

lemma clip_origin_ok_mono:
  assumes "clip_origin_ok X s c r"
    and "\<And>d. contains_key (ss_clips s) d \<Longrightarrow> contains_key (ss_clips s') d"
    and "cc_origin_claim r' = cc_origin_claim r" "cc_parent r' = cc_parent r"
  shows "clip_origin_ok X s' c r'"
  using assms by (auto simp: clip_origin_ok_def split: option.splits)

lemma session_inv_clip_effect:
  assumes inv: "session_inv X s"
    and keep: "\<And>r. cc_origin_claim (g r) = cc_origin_claim r" "\<And>r. cc_parent (g r) = cc_parent r"
    and fresh: "contains_key (ss_clips s) c \<or> (\<exists>x \<in> X. insert_target (fst x) = Some c)"
  shows "session_inv X (clip_effect c g s)"
  unfolding session_inv_def
proof (intro allI impI)
  fix d r
  assume r: "fmlookup (ss_clips (clip_effect c g s)) d = Some r"
  show "clip_origin_ok X (clip_effect c g s) d r"
  proof (cases "d = c \<and> fmlookup (ss_clips s) c = None")
    case True
    then have "\<exists>x \<in> X. insert_target (fst x) = Some c" using fresh by (simp add: contains_key_iff)
    moreover have "r = g clip_blank" using r True by simp
    ultimately show ?thesis
      using True by (simp add: clip_origin_ok_def keep clip_blank_def clip_from_split_def)
  next
    case False
    then obtain r0 where r0: "fmlookup (ss_clips s) d = Some r0" and "r = g r0 \<or> r = r0"
      using r by (auto split: if_splits option.splits)
    moreover have "clip_origin_ok X s d r0" using inv r0 by (simp add: session_inv_def)
    ultimately show ?thesis
      by (auto intro!: clip_origin_ok_mono [of X s d r0] simp: keep contains_key_iff)
  qed
qed

lemma session_inv_claim:
  assumes inv: "session_inv X s" and p: "contains_key (ss_clips s) p"
    and x: "x \<in> X" "split_of (fst x) = Some (c, p, f)"
  shows "session_inv X (clip_effect c (clip_claim p f t) s)"
  unfolding session_inv_def
proof (intro allI impI)
  fix d r
  assume r: "fmlookup (ss_clips (clip_effect c (clip_claim p f t) s)) d = Some r"
  show "clip_origin_ok X (clip_effect c (clip_claim p f t) s) d r"
  proof (cases "d = c")
    case True
    then show ?thesis using r p x by (auto simp: clip_origin_ok_def contains_key_iff)
  next
    case False
    then have "fmlookup (ss_clips s) d = Some r" using r by simp
    then have "clip_origin_ok X s d r" using inv by (simp add: session_inv_def)
    then show ?thesis by (auto intro: clip_origin_ok_mono simp: contains_key_iff)
  qed
qed

lemma session_inv_cong: "ss_clips s = ss_clips s' \<Longrightarrow> session_inv X s = session_inv X s'"
  by (simp add: session_inv_def clip_origin_ok_def cong: option.case_cong)

lemma clip_record_split_keeps [simp]:
  "cc_origin_claim (clip_record_split f c r) = cc_origin_claim r"
  "cc_parent (clip_record_split f c r) = cc_parent r"
  by (simp_all add: clip_record_split_eq)

lemma session_inv_effect:
  assumes inv: "session_inv X s" and x: "(oper, t) \<in> X" and en: "session_enabled oper s"
  shows "session_inv X (session_effect oper t s)"
proof (cases oper rule: operation_shapes)
  case (clip c)
  have "contains_key (ss_clips s) c \<or> (\<exists>x \<in> X. insert_target (fst x) = Some c)"
    using clip en x by (cases oper)
      (force simp: clip_target_def session_enabled_def self_split_def target_present_def
        insert_target_def)+
  with inv show ?thesis
    by (simp add: session_effect_clip [OF clip] session_inv_clip_effect)
next
  case (track k)
  then show ?thesis
    using inv by (subst session_inv_cong [of _ s]) (simp_all add: session_effect_track)
next
  case (split p f c)
  show ?thesis
  proof (cases "p = c")
    case False
    then have p: "contains_key (ss_clips s) p"
      using en split by (simp add: session_enabled_def self_split_def target_present_def)
    have "session_inv X (clip_effect p (clip_record_split f c) s)"
      using inv p by (simp add: session_inv_clip_effect)
    then have "session_inv X (clip_effect c (clip_claim p f t) (clip_effect p (clip_record_split f c) s))"
      by (rule session_inv_claim [OF _ _ x]) (simp_all add: split False split_of_def)
    then show ?thesis using split False by simp
  qed (simp add: split inv)
next
  case (envelope a e v)
  then show ?thesis using inv by (subst session_inv_cong [of _ s]) simp_all
next
  case (metadata u)
  then show ?thesis using inv by (subst session_inv_cong [of _ s]) simp_all
qed

text \<open>
  The code's application against guard and effect. A split of a known child is the case
  the invariant is for: the child carries this very claim, so the code neither loses nor
  re-parents, it only revives the child and records the split point.
\<close>

lemma apply_to_clip_guarded:
  "apply_to_clip c oper t s =
    (if contains_key (ss_clips s) c then (Inr (), clip_effect c (clip_apply oper t) s)
     else (Inl (unknown_clip c), s))"
  by (auto simp: apply_to_clip_def contains_key_iff clip_effect_def fm_alter_present
      split: option.split)

lemma apply_to_track_guarded:
  "apply_to_track k oper t s =
    (if contains_key (ss_tracks s) k then (Inr (), track_effect k (track_apply oper t) s)
     else (Inl (unknown_track k), s))"
  by (auto simp: apply_to_track_def contains_key_iff track_effect_def fm_alter_present
      split: option.split)

lemma claim_less_irrefl [simp]: "\<not> claim_less k k"
  by (simp add: claim_less_def)

lemma apply_split_guarded:
  assumes inv: "session_inv X s" and X: "valid_ops X" and x: "(SplitClip p f c, t) \<in> X"
    and pc: "p \<noteq> c"
  shows "apply_split p f c t s =
    (if contains_key (ss_clips s) p then (Inr (), session_effect (SplitClip p f c) t s)
     else (Inl (unknown_clip p), s))"
proof (cases "fmlookup (ss_clips s) c")
  case None
  have "op_tag_initial < t" using X x by (auto simp: valid_ops_def)
  with None pc show ?thesis
    by (auto simp: apply_split_def contains_key_iff Let_def clip_effect_def fm_alter_def
        clip_from_split_blank split: option.split)
next
  case (Some r)
  have ok: "clip_origin_ok X s c r" using inv Some by (simp add: session_inv_def)
  have compat: "ops_compatible y (SplitClip p f c, t)" if "y \<in> X" for y
    using X x that by (simp add: valid_ops_def)
  have claim: "cc_origin_claim r = Some (p, f) \<and> cc_parent r = Some \<lparr>cp_clip = p, cp_offset = f\<rparr>
      \<and> contains_key (ss_clips s) p"
  proof (cases "cc_origin_claim r")
    case None
    with ok compat pc show ?thesis by (auto simp: clip_origin_ok_def ops_compatible_def origin_compatible_def split_of_def)
  next
    case (Some k)
    then obtain y where y: "y \<in> X" "split_of (fst y) = Some (c, k)" using ok
      by (cases k) (auto simp: clip_origin_ok_def)
    with compat [of y] pc have "k = (p, f)" by (simp add: ops_compatible_def origin_compatible_def split_of_def)
    with ok Some show ?thesis by (simp add: clip_origin_ok_def)
  qed
  then obtain q where q: "fmlookup (ss_clips s) p = Some q" by (auto simp: contains_key_iff)
  show ?thesis
    using pc claim Some q
    by (simp add: apply_split_def revive_def clip_effect_def fm_alter_def clip_claim_same
        contains_key_iff fmupd_commute)
qed

lemma session_apply_guarded:
  assumes inv: "session_inv X s" and X: "valid_ops X" and x: "(oper, t) \<in> X"
  shows "session_enabled oper s \<Longrightarrow> session_apply oper t s = (Inr (), session_effect oper t s)"
    and "\<not> session_enabled oper s \<Longrightarrow> \<exists>e. is_unknown_target e \<and> session_apply oper t s = (Inl e, s)"
proof -
  have t: "op_tag_initial < t" using X x by (auto simp: valid_ops_def)
  note d = session_enabled_def self_split_def target_present_def
  show "session_apply oper t s = (Inr (), session_effect oper t s)" if "session_enabled oper s"
  proof (cases oper)
    case (InsertClip c k cd n)
    with t show ?thesis
      by (simp add: clip_effect_def fm_alter_def clip_from_insert_blank [where c = c] split: option.split)
  next
    case (InsertTrack k td n)
    with t show ?thesis
      by (simp add: track_effect_def fm_alter_def track_from_insert_blank [where k = k] split: option.split)
  next
    case (SplitClip p f c)
    show ?thesis
    proof (cases "p = c")
      case False
      with SplitClip that apply_split_guarded [OF inv X, of p f c t] x show ?thesis by (simp add: d)
    qed (simp add: SplitClip apply_split_def)
  qed (use that in \<open>auto simp: d apply_to_clip_guarded apply_to_track_guarded envelope_missing_def
        split: target_id.splits\<close>)
  show "\<exists>e. is_unknown_target e \<and> session_apply oper t s = (Inl e, s)" if "\<not> session_enabled oper s"
  proof (cases oper)
    case (SplitClip p f c)
    with that have "p \<noteq> c" "\<not> contains_key (ss_clips s) p" by (simp_all add: d)
    with SplitClip apply_split_guarded [OF inv X, of p f c t] x show ?thesis
      by (simp add: unknown_clip_def)
  qed (use that in \<open>auto simp: d apply_to_clip_guarded apply_to_track_guarded envelope_missing_def
        unknown_clip_def unknown_track_def split: target_id.splits\<close>)
qed

end
