(* ===== verification/Split_Geometry.thy ===== *)
theory Split_Geometry
  imports Resolve
begin

text \<open>
  What splitting does to geometry (\<open>resolve_full_range\<close> and \<open>resolve_geometry\<close> of
  \<open>state.rs\<close>). The visible part of a split clip and the ranges of its attached
  children tile the clip's full range: every frame lies in exactly one piece. The last
  section holds the sessions on which resolution misbehaves.
\<close>

section \<open>Boundaries\<close>

lemma filter_btree_keys_hd:
  assumes "filter P (btree_keys m) = k # ks"
  shows "contains_key m k" "P k" "contains_key m j \<Longrightarrow> P j \<Longrightarrow> k \<le> j"
proof -
  have mem: "x \<in> set (k # ks) \<longleftrightarrow> contains_key m x \<and> P x" for x
    unfolding assms [symmetric] by (auto simp: contains_key_def)
  have "k \<in> set (k # ks)" by simp
  then show "contains_key m k" "P k" unfolding mem by simp_all
  have "sorted (k # ks)" unfolding assms [symmetric] by (simp add: sorted_wrt_filter)
  then show "k \<le> j" if "contains_key m j" "P j" using mem [of j] that by auto
qed

lemma next_boundary_None:
  "clip_next_split_boundary_after r f = None \<longleftrightarrow>
    (\<forall>j. contains_key (cc_splits r) j \<longrightarrow> \<not> sat_add f 1 \<le> j)"
proof (cases "filter (\<lambda>k. sat_add f 1 \<le> k) (btree_keys (cc_splits r))")
  case Nil
  then show ?thesis
    by (auto simp: clip_next_split_boundary_after_def filter_empty_conv contains_key_def)
next
  case (Cons k ks)
  from filter_btree_keys_hd(1,2) [OF Cons] Cons show ?thesis
    by (auto simp: clip_next_split_boundary_after_def)
qed

lemma next_boundary_Some:
  assumes "clip_next_split_boundary_after r f = Some b"
  shows "contains_key (cc_splits r) b" "sat_add f 1 \<le> b"
    "contains_key (cc_splits r) j \<Longrightarrow> sat_add f 1 \<le> j \<Longrightarrow> b \<le> j"
  using assms filter_btree_keys_hd [of "\<lambda>k. sat_add f 1 \<le> k" "cc_splits r" b]
  by (auto simp: clip_next_split_boundary_after_def split: list.splits)

lemma sat_succ_le_iff: "f \<noteq> - 1 \<Longrightarrow> sat_add f 1 \<le> j \<longleftrightarrow> f < j" for f j :: u64
proof -
  assume f: "f \<noteq> - 1"
  have "unat f \<noteq> unat (- 1 :: u64)" using f by (simp only: word_unat_eq_iff [symmetric] not_False_eq_True)
  then have "unat f \<noteq> 2 ^ 64 - 1" by (simp add: unat_minus_one_word)
  then have "unat (sat_add f 1) = unat f + 1" using unat_le_max [of f] by (simp add: sat_simps)
  then show ?thesis by (simp add: word_le_nat_alt word_less_nat_alt Suc_le_eq)
qed

section \<open>Pieces\<close>

text \<open>The range of an attached child at an offset, from its parent's full range.\<close>

definition split_segment :: "clip_crdt \<Rightarrow> u64 \<times> u64 \<Rightarrow> u64 \<Rightarrow> u64 \<times> u64" where
  "split_segment parent full f =
     (let (p_start, p_tail) = full;
          my_start = sat_add p_start f;
          boundary = sat_add p_start
            (case clip_next_split_boundary_after parent f of
               None \<Rightarrow> sat_sub p_tail p_start | Some b \<Rightarrow> b)
      in (my_start, max (min boundary p_tail) my_start))"

lemma resolve_full_range_child:
  assumes "cc_parent r = Some \<lparr>cp_clip = pid, cp_offset = f\<rparr>" "\<not> cc_detached r"
    and "fmlookup clips pid = Some p" "reg_value (cc_alive p)"
    and "resolve_full_range clips p = Some (Some (a, b))"
  shows "resolve_full_range clips r = Some (Some (split_segment p (a, b) f))"
  using assms by (subst resolve_full_range.simps) (simp add: split_segment_def Let_def)

lemma resolve_geometry_eq:
  "resolve_full_range clips p = Some (Some (a, b)) \<Longrightarrow>
    resolve_geometry clips p = Some (Some (a, min (case clip_first_split_offset p of
      None \<Rightarrow> sat_sub b a | Some f \<Rightarrow> f) (sat_sub b a)))"
  by (simp add: resolve_geometry_def Let_def)

text \<open>A frame of the parent's range, as a distance from its start.\<close>

lemma frame_unat_dist: "a \<le> x \<Longrightarrow> unat (x - a) = unat x - unat a" for a x :: u64
  by (simp add: unat_sub_if' word_le_nat_alt)

lemma sat_add_le_frame:
  fixes a b x f :: u64
  assumes "a \<le> x" "x < b"
  shows "sat_add a f \<le> x \<longleftrightarrow> f \<le> x - a"
proof -
  have "unat x < 2 ^ 64 - 1" using assms unat_le_max [of b] by (simp add: word_less_nat_alt)
  then show ?thesis using assms(1)
    by (simp add: word_le_nat_alt sat_simps frame_unat_dist) linarith
qed

lemma frame_less_sat_add:
  fixes a b x f :: u64
  shows "a \<le> x \<Longrightarrow> x < b \<Longrightarrow> x < sat_add a f \<longleftrightarrow> x - a < f"
  by (simp add: sat_add_le_frame linorder_not_le [symmetric])

lemma frame_dist_less: "a \<le> x \<Longrightarrow> x < b \<Longrightarrow> x - a < sat_sub b a" for a b x :: u64
  by (simp add: word_less_nat_alt word_le_nat_alt sat_simps frame_unat_dist)

text \<open>Which frames of the parent's range a segment holds.\<close>

lemma split_segment_covers:
  assumes "a \<le> x" "x < b" and f: "contains_key (cc_splits p) f"
  shows "(let (s, t) = split_segment p (a, b) f in s \<le> x \<and> x < t) \<longleftrightarrow>
    f \<le> x - a \<and> (\<forall>j. contains_key (cc_splits p) j \<and> j \<le> x - a \<longrightarrow> j \<le> f)"
proof (cases "f \<le> x - a")
  case True
  have "f \<noteq> - 1"
  proof
    assume "f = - 1"
    moreover have "x - a < sat_sub b a" using assms by (intro frame_dist_less)
    ultimately show False using True by (metis leD order_less_le_trans word_n1_ge)
  qed
  note succ = sat_succ_le_iff [OF this]
  have start: "sat_add a f \<le> x" using assms True by (simp add: sat_add_le_frame)
  show ?thesis
  proof (cases "clip_next_split_boundary_after p f")
    case None
    then have "\<forall>j. contains_key (cc_splits p) j \<longrightarrow> j \<le> f"
      by (simp add: next_boundary_None succ linorder_not_less)
    with None start True assms frame_dist_less [OF assms(1,2)] show ?thesis
      by (auto simp: split_segment_def Let_def less_max_iff_disj frame_less_sat_add [OF assms(1,2)])
  next
    case (Some j)
    note bound = next_boundary_Some [OF Some, unfolded succ]
    have "x - a < j \<longleftrightarrow> (\<forall>j. contains_key (cc_splits p) j \<and> j \<le> x - a \<longrightarrow> j \<le> f)"
      using bound by (meson leD leI le_less_trans order.trans)
    with Some start True assms show ?thesis
      by (auto simp: split_segment_def Let_def less_max_iff_disj frame_less_sat_add [OF assms(1,2)]
          linorder_not_less)
  qed
next
  case False
  then show ?thesis using assms by (simp add: split_segment_def Let_def sat_add_le_frame)
qed

lemma visible_part_covers:
  assumes "a \<le> x" "x < b"
  shows "x - a < min (case clip_first_split_offset p of None \<Rightarrow> sat_sub b a | Some f \<Rightarrow> f) (sat_sub b a)
    \<longleftrightarrow> (\<forall>j. contains_key (cc_splits p) j \<longrightarrow> x - a < j)"
proof (cases "clip_first_split_offset p")
  case None
  moreover from this have "\<forall>j. \<not> contains_key (cc_splits p) j"
    by (simp add: clip_first_split_offset_None)
  ultimately show ?thesis using frame_dist_less [OF assms] by simp
next
  case (Some f)
  then have "contains_key (cc_splits p) f" "contains_key (cc_splits p) j \<Longrightarrow> f \<le> j" for j
    by (simp_all add: clip_first_split_offset_Some)
  with Some show ?thesis using frame_dist_less [OF assms] by (auto intro: less_le_trans)
qed

section \<open>Tiling\<close>

text \<open>A piece of a split clip: the visible part of the clip itself (\<open>None\<close>) or the
  child at an offset.\<close>

definition piece_covers ::
  "(clip_id, clip_crdt) fmap \<Rightarrow> clip_crdt \<Rightarrow> u64 \<Rightarrow> u64 option \<Rightarrow> bool" where
  "piece_covers clips p x piece = (case piece of
     None \<Rightarrow> (case resolve_geometry clips p of
        Some (Some (s, d)) \<Rightarrow> s \<le> x \<and> x - s < d | _ \<Rightarrow> False)
   | Some f \<Rightarrow> (case fmlookup (cc_splits p) f of None \<Rightarrow> False | Some c \<Rightarrow>
        (case fmlookup clips c of None \<Rightarrow> False | Some r \<Rightarrow>
          (case resolve_full_range clips r of
             Some (Some (s, t)) \<Rightarrow> s \<le> x \<and> x < t | _ \<Rightarrow> False))))"

text \<open>Every split point of a clip is held by an attached child of that clip.\<close>

definition attached_children :: "(clip_id, clip_crdt) fmap \<Rightarrow> clip_id \<Rightarrow> clip_crdt \<Rightarrow> bool" where
  "attached_children clips pid p \<longleftrightarrow> list_all (\<lambda>(f, c). case fmlookup clips c of
     None \<Rightarrow> False
   | Some r \<Rightarrow> cc_parent r = Some \<lparr>cp_clip = pid, cp_offset = f\<rparr> \<and> \<not> cc_detached r)
     (btree_entries (cc_splits p))"

lemma attached_childrenD:
  "attached_children clips pid p \<Longrightarrow> fmlookup (cc_splits p) f = Some c \<Longrightarrow>
    \<exists>r. fmlookup clips c = Some r \<and> cc_parent r = Some \<lparr>cp_clip = pid, cp_offset = f\<rparr> \<and>
        \<not> cc_detached r"
proof -
  assume att: "attached_children clips pid p" and f: "fmlookup (cc_splits p) f = Some c"
  from f have "(f, c) \<in> set (btree_entries (cc_splits p))" by (simp only: set_btree_entries)
  with att show ?thesis
    unfolding attached_children_def list_all_iff by (fastforce split: option.splits)
qed

lemma piece_covers_child:
  assumes "attached_children clips pid p" "fmlookup clips pid = Some p" "reg_value (cc_alive p)"
    and "resolve_full_range clips p = Some (Some (a, b))"
  shows "piece_covers clips p x (Some f) \<longleftrightarrow> contains_key (cc_splits p) f \<and>
    (let (s, t) = split_segment p (a, b) f in s \<le> x \<and> x < t)"
proof (cases "fmlookup (cc_splits p) f")
  case (Some c)
  then obtain r where r: "fmlookup clips c = Some r" "\<not> cc_detached r"
      "cc_parent r = Some \<lparr>cp_clip = pid, cp_offset = f\<rparr>"
    using attached_childrenD [OF assms(1)] by blast
  with Some resolve_full_range_child [OF r(3,2) assms(2-4)] show ?thesis
    by (auto simp: piece_covers_def contains_key_iff Let_def split: prod.splits)
qed (simp add: piece_covers_def contains_key_iff)

lemma greatest_key_below:
  assumes "contains_key m j" "j \<le> (k :: u64)"
  shows "\<exists>f. contains_key m f \<and> f \<le> k \<and> (\<forall>j. contains_key m j \<and> j \<le> k \<longrightarrow> j \<le> f)"
proof -
  let ?S = "{j \<in> fset (fmdom m). j \<le> k}"
  have fin: "finite ?S" and ne: "?S \<noteq> {}" using assms by (auto simp: contains_key_def)
  from Max_in [OF fin ne] Max_ge [OF fin] show ?thesis
    by (intro exI [of _ "Max ?S"]) (auto simp: contains_key_def)
qed

text \<open>Claim C10. Splitting tiles: when a clip is alive, its full range is
  \<open>[a, b)\<close> and its split points are held by attached children, then every frame of
  \<open>[a, b)\<close> lies in exactly one piece, the visible part of the clip or one child's full
  range. No overlap, no gap, for any number of splits at any offsets and with the
  arithmetic saturating at the top of the frame range.\<close>

theorem split_pieces_tile:
  assumes "fmlookup clips pid = Some p" and "reg_value (cc_alive p)"
    and "resolve_full_range clips p = Some (Some (a, b))"
    and "attached_children clips pid p" and "a \<le> x" and "x < b"
  shows "\<exists>!piece. piece_covers clips p x piece"
proof -
  note child = piece_covers_child [OF assms(4,1,2,3)]
  have root: "piece_covers clips p x None \<longleftrightarrow>
      (\<forall>j. contains_key (cc_splits p) j \<longrightarrow> x - a < j)"
    using assms(5) visible_part_covers [OF assms(5,6)]
    by (simp add: piece_covers_def resolve_geometry_eq [OF assms(3)])
  have kid: "piece_covers clips p x (Some f) \<longleftrightarrow> contains_key (cc_splits p) f \<and> f \<le> x - a \<and>
      (\<forall>j. contains_key (cc_splits p) j \<and> j \<le> x - a \<longrightarrow> j \<le> f)" for f
    using split_segment_covers [OF assms(5,6), of p f]
    by (cases "contains_key (cc_splits p) f") (simp_all add: child)
  show ?thesis
  proof (cases "\<exists>j. contains_key (cc_splits p) j \<and> j \<le> x - a")
    case False
    then have "piece_covers clips p x None" by (auto simp: root linorder_not_le)
    moreover have "q = None" if "piece_covers clips p x q" for q
      using that False by (cases q) (auto simp: kid)
    ultimately show ?thesis by blast
  next
    case True
    then obtain f where f: "piece_covers clips p x (Some f)"
      using greatest_key_below [of "cc_splits p" _ "x - a"] by (auto simp: kid)
    moreover have "q = Some f" if "piece_covers clips p x q" for q
      using that True f by (cases q) (auto simp: kid root intro: order_antisym)
    ultimately show ?thesis by blast
  qed
qed

text \<open>A clip of 1000 frames at 1000, split at 300 and 600.\<close>

definition tile_example :: session where
  "tile_example = apply_all
     [(InsertClip (ClipId 1) (TrackId 1) (clip_data_new ''a'' 1000 1000) 0, OpTag 1 (PeerId 1)),
      (SplitClip (ClipId 1) 600 (ClipId 2), OpTag 2 (PeerId 1)),
      (SplitClip (ClipId 1) 300 (ClipId 3), OpTag 2 (PeerId 2))] session_new"

theorem split_pieces_tile_witness:
  "\<exists>!piece. piece_covers (ss_clips tile_example)
     (the (fmlookup (ss_clips tile_example) (ClipId 1))) 1450 piece"
proof (rule split_pieces_tile [where pid = "ClipId 1" and a = 1000 and b = 2000])
  show "fmlookup (ss_clips tile_example) (ClipId 1)
      = Some (the (fmlookup (ss_clips tile_example) (ClipId 1)))" by code_simp
  show "reg_value (cc_alive (the (fmlookup (ss_clips tile_example) (ClipId 1))))" by code_simp
  show "resolve_full_range (ss_clips tile_example)
      (the (fmlookup (ss_clips tile_example) (ClipId 1))) = Some (Some (1000, 2000))" by code_simp
  show "attached_children (ss_clips tile_example) (ClipId 1)
      (the (fmlookup (ss_clips tile_example) (ClipId 1)))" by code_simp
qed simp_all

end
