(* ===== verification/Bounded_Queue.thy ===== *)
theory Bounded_Queue
  imports Prelude
begin

text \<open>
  The contract shared by the two bounded first-in first-out stores of the program, the
  undo stack (\<open>History::record\<close>) and the offline queue (\<open>OfflineQueue::enqueue\<close>): a push
  appends, after dropping the oldest item when the store is full. The locale derives the
  bound and the exact contents after any number of pushes, the most recent
  \<open>capacity\<close> items in order; both stores interpret it.
\<close>

text \<open>\<open>if len >= capacity { remove(0) }; push(x)\<close> on the underlying sequence.\<close>

definition push_bounded :: "nat \<Rightarrow> 'a list \<Rightarrow> 'a \<Rightarrow> 'a list" where
  "push_bounded capacity items x =
     (if capacity \<le> length items then tl items else items) @ [x]"

definition last_n :: "nat \<Rightarrow> 'a list \<Rightarrow> 'a list" where
  "last_n n xs = drop (length xs - n) xs"

lemma length_last_n [simp]: "length (last_n n xs) = min n (length xs)"
  by (simp add: last_n_def)

lemma last_n_all [simp]: "length xs \<le> n \<Longrightarrow> last_n n xs = xs"
  by (simp add: last_n_def)

lemma last_n_snoc: "0 < n \<Longrightarrow> last_n n (xs @ [x]) = last_n (n - 1) xs @ [x]"
  by (cases n) (auto simp: last_n_def Suc_diff_le not_le)

lemma last_n_append: "last_n n (last_n n xs @ ys) = last_n n (xs @ ys)"
  by (cases "length xs \<le> n") (simp_all add: last_n_def add.commute)

lemma push_bounded_last_n:
  assumes "length items \<le> n" "0 < n"
  shows "push_bounded n items x = last_n n (items @ [x])"
proof (cases "n \<le> length items")
  case True
  with assms have "length items = n" "items \<noteq> []" by auto
  then show ?thesis by (cases items) (simp_all add: push_bounded_def last_n_def)
qed (use assms in \<open>simp add: push_bounded_def\<close>)

locale bounded_fifo =
  fixes push :: "'a \<Rightarrow> 'q \<Rightarrow> 'q"
    and items :: "'q \<Rightarrow> 'a list"
    and capacity :: "'q \<Rightarrow> nat"
  assumes items_push: "items (push x q) = push_bounded (capacity q) (items q) x"
    and capacity_push: "capacity (push x q) = capacity q"
begin

lemma capacity_fold [simp]: "capacity (fold push xs q) = capacity q"
  by (induction xs arbitrary: q) (simp_all add: capacity_push)

lemma items_fold:
  assumes "0 < capacity q" and "length (items q) \<le> capacity q"
  shows "items (fold push xs q) = last_n (capacity q) (items q @ xs)"
  using assms
proof (induction xs arbitrary: q)
  case (Cons x xs)
  have push: "items (push x q) = last_n (capacity q) (items q @ [x])"
    using Cons.prems by (simp add: items_push push_bounded_last_n)
  have "items (fold push (x # xs) q) = last_n (capacity q) (items (push x q) @ xs)"
    using Cons.IH [of "push x q"] Cons.prems by (simp add: capacity_push push)
  then show ?case by (simp add: push last_n_append)
qed simp

lemma length_fold:
  "0 < capacity q \<Longrightarrow> length (items q) \<le> capacity q \<Longrightarrow>
    length (items (fold push xs q)) = min (capacity q) (length (items q) + length xs)"
  by (simp add: items_fold)

lemma newest_kept:
  assumes "0 < capacity q" and "length (items q) \<le> capacity q" and "xs \<noteq> []"
  shows "last (items (fold push xs q)) = last xs"
proof -
  obtain ys y where xs: "xs = ys @ [y]" using assms(3) by (cases xs rule: rev_cases) auto
  have "items (fold push xs q) = last_n (capacity q) ((items q @ ys) @ [y])"
    using items_fold [OF assms(1,2), of xs] by (simp only: xs append_assoc)
  then show ?thesis using assms(1) by (simp add: last_n_snoc xs del: append_assoc)
qed

end

end
