(* ===== verification/History.thy ===== *)
theory History
  imports Split_Geometry Bounded_Queue
begin

text \<open>
  Undo and redo (\<open>tpt-av-sync-crdt/src/history.rs\<close>): the bounded stacks and
  \<open>compute_inverse\<close>. Resolving a clip may not return, so \<open>compute_inverse\<close> has an outer
  \<open>option\<close> for that; the inner one is the code's \<open>Option\<close>. The lemmas bound the stacks
  (undo and redo together never exceed the capacity), give the undo stack as an instance
  of \<open>bounded_fifo\<close>, and show what an inverse targets.
\<close>

section \<open>Stacks\<close>

record history_entry =
  he_forward :: timeline_operation
  he_inverse :: timeline_operation

text \<open>Stacks are listed oldest first, as the \<open>Vec\<close>s are: \<open>pop\<close> takes the last.\<close>

record history =
  hs_undo :: "history_entry list"
  hs_redo :: "history_entry list"
  hs_capacity :: nat

definition history_new :: "nat \<Rightarrow> history" where
  "history_new capacity = \<lparr>hs_undo = [], hs_redo = [], hs_capacity = max capacity 1\<rparr>"

definition history_record :: "history_entry \<Rightarrow> history \<Rightarrow> history" where
  "history_record entry h =
     (let h = h\<lparr>hs_redo := []\<rparr>;
          h = (if hs_capacity h \<le> length (hs_undo h) then h\<lparr>hs_undo := tl (hs_undo h)\<rparr> else h)
      in h\<lparr>hs_undo := hs_undo h @ [entry]\<rparr>)"

definition pop_undo :: "history \<Rightarrow> history_entry option \<times> history" where
  "pop_undo h =
     (if hs_undo h = [] then (None, h)
      else (Some (last (hs_undo h)), h\<lparr>hs_undo := butlast (hs_undo h)\<rparr>))"

definition push_redo :: "history_entry \<Rightarrow> history \<Rightarrow> history" where
  "push_redo entry h = h\<lparr>hs_redo := hs_redo h @ [entry]\<rparr>"

definition pop_redo :: "history \<Rightarrow> history_entry option \<times> history" where
  "pop_redo h =
     (if hs_redo h = [] then (None, h)
      else (Some (last (hs_redo h)), h\<lparr>hs_redo := butlast (hs_redo h)\<rparr>))"

definition push_undo :: "history_entry \<Rightarrow> history \<Rightarrow> history" where
  "push_undo entry h = h\<lparr>hs_undo := hs_undo h @ [entry]\<rparr>"

definition undo_len :: "history \<Rightarrow> nat" where
  "undo_len h = length (hs_undo h)"

definition redo_len :: "history \<Rightarrow> nat" where
  "redo_len h = length (hs_redo h)"

definition history_clear :: "history \<Rightarrow> history" where
  "history_clear h = h\<lparr>hs_undo := [], hs_redo := []\<rparr>"

section \<open>Inverses\<close>

definition resolved_clip_data :: "resolved_clip \<Rightarrow> clip_data" where
  "resolved_clip_data prev =
     \<lparr>cd_name = rc_name prev, cd_source = rc_source prev, cd_start_frame = rc_start_frame prev,
      cd_duration_frames = rc_duration_frames prev, cd_color = rc_color prev\<rparr>"

text \<open>\<open>session.resolve_clip(id)?\<close> followed by the construction of an operation.\<close>

definition from_resolved ::
  "session \<Rightarrow> clip_id \<Rightarrow> (resolved_clip \<Rightarrow> timeline_operation) \<Rightarrow> timeline_operation option option" where
  "from_resolved s c build = map_option (map_option build) (resolve_clip s c)"

definition compute_session_metadata_inverse ::
  "session_metadata_update \<Rightarrow> session_metadata \<Rightarrow> timeline_operation" where
  "compute_session_metadata_inverse updates current =
     UpdateSessionMetadata
       \<lparr>sm_name = map_option (\<lambda>_. md_name current) (sm_name updates),
        sm_sample_rate = map_option (\<lambda>_. md_sample_rate current) (sm_sample_rate updates),
        sm_tempo_bpm = map_option (\<lambda>_. md_tempo_bpm current) (sm_tempo_bpm updates),
        sm_ts_numerator =
          map_option (\<lambda>_. fst (md_time_signature current)) (sm_ts_numerator updates),
        sm_ts_denominator =
          map_option (\<lambda>_. snd (md_time_signature current)) (sm_ts_denominator updates)\<rparr>"

fun compute_inverse :: "timeline_operation \<Rightarrow> session \<Rightarrow> timeline_operation option option" where
  "compute_inverse (InsertClip c track clip position) s =
     (if session_clip s c \<noteq> None
      then from_resolved s c (\<lambda>prev.
             InsertClip c (rc_track_id prev) (resolved_clip_data prev) (rc_order_hint prev))
      else Some (Some (DeleteClip c)))"
| "compute_inverse (MoveClip c _ _ _) s =
     from_resolved s c (\<lambda>prev.
       MoveClip c (rc_track_id prev) (rc_start_frame prev) (rc_order_hint prev))"
| "compute_inverse (DeleteClip c) s =
     from_resolved s c (\<lambda>prev.
       InsertClip c (rc_track_id prev) (resolved_clip_data prev) (rc_order_hint prev))"
| "compute_inverse (SplitClip _ _ new_clip) s =
     Some (if session_clip s new_clip \<noteq> None then None else Some (DeleteClip new_clip))"
| "compute_inverse (TrimClip c _ _ edge) s =
     from_resolved s c (\<lambda>prev. TrimClip c (rc_start_frame prev) (rc_duration_frames prev) edge)"
| "compute_inverse (UpdateClipMetadata c updates) s =
     from_resolved s c (\<lambda>prev. UpdateClipMetadata c
       \<lparr>cm_name = map_option (\<lambda>_. rc_name prev) (cm_name updates),
        cm_source = map_option (\<lambda>_. rc_source prev) (cm_source updates),
        cm_color = map_option (\<lambda>_. rc_color prev) (cm_color updates),
        cm_gain = map_option (\<lambda>_. rc_gain prev) (cm_gain updates),
        cm_muted = map_option (\<lambda>_. rc_muted prev) (cm_muted updates),
        cm_locked = map_option (\<lambda>_. rc_locked prev) (cm_locked updates)\<rparr>)"
| "compute_inverse (InsertTrack k track position) s =
     Some (case session_track s k of
       Some prev \<Rightarrow> Some (InsertTrack k (to_track_data prev) (reg_value (tc_order_hint prev)))
     | None \<Rightarrow> Some (DeleteTrack k))"
| "compute_inverse (UpdateTrackMetadata k updates) s =
     Some (map_option (\<lambda>prev. UpdateTrackMetadata k
       \<lparr>tm_name = map_option (\<lambda>_. reg_value (tc_name prev)) (tm_name updates),
        tm_volume_db = map_option (\<lambda>_. reg_value (tc_volume_db prev)) (tm_volume_db updates),
        tm_muted = map_option (\<lambda>_. reg_value (tc_muted prev)) (tm_muted updates),
        tm_solo = map_option (\<lambda>_. reg_value (tc_solo prev)) (tm_solo updates),
        tm_position = map_option (\<lambda>_. reg_value (tc_order_hint prev)) (tm_position updates)\<rparr>)
       (session_track s k))"
| "compute_inverse (DeleteTrack k) s =
     Some (map_option (\<lambda>prev.
       InsertTrack k (to_track_data prev) (reg_value (tc_order_hint prev))) (session_track s k))"
| "compute_inverse (UpdateEnvelope target envelope_type _) s =
     Some (Some (UpdateEnvelope target envelope_type
       (case env_get (ss_envelopes s) target envelope_type of None \<Rightarrow> [] | Some pts \<Rightarrow> pts)))"
| "compute_inverse (UpdateSessionMetadata updates) s =
     map_option (\<lambda>view. Some (compute_session_metadata_inverse updates (sv_metadata view)))
       (materialize s)"

section \<open>The stacks are bounded\<close>

interpretation undo_stack: bounded_fifo history_record hs_undo hs_capacity
  by unfold_locales (auto simp: history_record_def push_bounded_def Let_def)

definition history_inv :: "history \<Rightarrow> bool" where
  "history_inv h \<longleftrightarrow> 0 < hs_capacity h \<and> undo_len h + redo_len h \<le> hs_capacity h"

lemma history_inv_new [simp]: "history_inv (history_new n)"
  by (simp add: history_inv_def history_new_def undo_len_def redo_len_def)

lemma history_inv_record: "history_inv h \<Longrightarrow> history_inv (history_record e h)"
  by (auto simp: history_inv_def history_record_def undo_len_def redo_len_def Let_def)

lemma history_inv_undo:
  "history_inv h \<Longrightarrow> pop_undo h = (Some e, h') \<Longrightarrow> history_inv (push_redo e h')"
  by (cases "hs_undo h" rule: rev_cases)
    (auto simp: history_inv_def pop_undo_def push_redo_def undo_len_def redo_len_def)

lemma history_inv_redo:
  "history_inv h \<Longrightarrow> pop_redo h = (Some e, h') \<Longrightarrow> history_inv (push_undo e h')"
  by (cases "hs_redo h" rule: rev_cases)
    (auto simp: history_inv_def pop_redo_def push_undo_def undo_len_def redo_len_def)

lemma history_capacity_kept:
  "hs_capacity (history_record e h) = hs_capacity h"
  "hs_capacity (push_redo e h) = hs_capacity h"
  "hs_capacity (push_undo e h) = hs_capacity h"
  "hs_capacity (snd (pop_undo h)) = hs_capacity h"
  "hs_capacity (snd (pop_redo h)) = hs_capacity h"
  by (simp_all add: history_record_def push_redo_def push_undo_def pop_undo_def pop_redo_def Let_def)

text \<open>Undoing and then redoing gives the stacks back.\<close>

lemma undo_redo_stacks:
  "pop_undo h = (Some e, h') \<Longrightarrow> pop_redo (push_redo e h') = (Some e, h'') \<Longrightarrow> push_undo e h'' = h"
  by (auto simp: pop_undo_def pop_redo_def push_redo_def push_undo_def split: if_splits)

section \<open>Inverses return\<close>

lemma from_resolved_returns: "parents_wf s \<Longrightarrow> \<exists>r. from_resolved s c build = Some r"
  using resolve_clip_returns [of s c] by (auto simp: from_resolved_def)

lemma compute_inverse_returns:
  assumes "parents_wf s"
  shows "\<exists>r. compute_inverse oper s = Some r"
  by (cases oper) (auto simp: from_resolved_returns [OF assms] materialize_returns [OF assms])

end
