(* ===== verification/Compaction.thy ===== *)
theory Compaction
  imports Session_State
begin

text \<open>
  Operation-log compaction (\<open>tpt-av-sync-crdt/src/compaction.rs\<close>): the set \<open>keep\<close> of
  operation ids is built in the order the code builds it (splits, bootstrap inserts, the
  owners of every register's tag), then the log is filtered. The lemmas characterize
  \<open>keep\<close> as a set and give what the filtered log retains.
\<close>

definition op_id_of :: "op_tag \<Rightarrow> operation_id" where
  "op_id_of tag = OperationId (tag_lamport tag) (tag_peer tag)"

definition retain_tag ::
  "operation_id fset \<Rightarrow> op_tag \<Rightarrow> operation_id fset \<Rightarrow> operation_id fset" where
  "retain_tag by_id tag keep =
     (if tag = op_tag_initial then keep
      else let i = op_id_of tag in if i |\<in>| by_id then finsert i keep else keep)"

definition is_split :: "timeline_operation \<Rightarrow> bool" where
  "is_split oper = (case oper of SplitClip _ _ _ \<Rightarrow> True | _ \<Rightarrow> False)"

fun keep_splits :: "tagged_operation list \<Rightarrow> operation_id fset \<Rightarrow> operation_id fset" where
  "keep_splits [] keep = keep"
| "keep_splits (x # ops) keep =
     keep_splits ops (if is_split (operation x) then finsert (op_id x) keep else keep)"

text \<open>The first insert of every clip and track id in the log.\<close>

fun keep_bootstrap ::
  "tagged_operation list \<Rightarrow> clip_id fset \<Rightarrow> track_id fset \<Rightarrow> operation_id fset \<Rightarrow> operation_id fset" where
  "keep_bootstrap [] clips tracks keep = keep"
| "keep_bootstrap (x # ops) clips tracks keep =
     (case operation x of
        InsertClip c _ _ _ \<Rightarrow>
          if c |\<notin>| clips then keep_bootstrap ops (finsert c clips) tracks (finsert (op_id x) keep)
          else keep_bootstrap ops clips tracks keep
      | InsertTrack k _ _ \<Rightarrow>
          if k |\<notin>| tracks then keep_bootstrap ops clips (finsert k tracks) (finsert (op_id x) keep)
          else keep_bootstrap ops clips tracks keep
      | _ \<Rightarrow> keep_bootstrap ops clips tracks keep)"

text \<open>The tags of all registers of a session, in the order of the four loops.\<close>

definition session_tags :: "session \<Rightarrow> op_tag list" where
  "session_tags s =
     concat (map (\<lambda>(_, r). clip_tags r) (btree_entries (ss_clips s))) @
     concat (map (\<lambda>(_, r). track_tags r) (btree_entries (ss_tracks s))) @
     env_tags (ss_envelopes s) @ session_metadata_tags s"

definition compact_keep :: "tagged_operation list \<Rightarrow> session \<Rightarrow> operation_id fset" where
  "compact_keep ops s =
     (let by_id = fset_of_list (map op_id ops);
          keep = keep_bootstrap ops {||} {||} (keep_splits ops {||})
      in fold (retain_tag by_id) (session_tags s) keep)"

definition compact_log :: "tagged_operation list \<Rightarrow> session \<Rightarrow> tagged_operation list" where
  "compact_log ops s = (let keep = compact_keep ops s in filter (\<lambda>x. op_id x |\<in>| keep) ops)"

section \<open>What is kept\<close>

lemma keep_splits_iff:
  "i |\<in>| keep_splits ops keep \<longleftrightarrow> i |\<in>| keep \<or> (\<exists>x \<in> set ops. is_split (operation x) \<and> op_id x = i)"
  by (induction ops arbitrary: keep) auto

lemma keep_bootstrap_mono: "i |\<in>| keep \<Longrightarrow> i |\<in>| keep_bootstrap ops clips tracks keep"
  by (induction ops arbitrary: clips tracks keep) (auto split: timeline_operation.split)

lemma fold_retain_tag_iff:
  "i |\<in>| fold (retain_tag by_id) tags keep \<longleftrightarrow>
    i |\<in>| keep \<or> i |\<in>| by_id \<and> (\<exists>t \<in> set tags. t \<noteq> op_tag_initial \<and> op_id_of t = i)"
  by (induction tags arbitrary: keep) (auto simp: retain_tag_def Let_def)

lemma keep_bootstrap_only_logged:
  "i |\<in>| keep_bootstrap ops clips tracks keep \<Longrightarrow> i |\<in>| keep \<or> (\<exists>x \<in> set ops. op_id x = i)"
proof (induction ops arbitrary: clips tracks keep)
  case (Cons x ops)
  from Cons.prems show ?case
    by (auto split: timeline_operation.splits if_splits dest!: Cons.IH)
qed simp

text \<open>The first insert of a clip in the log survives.\<close>

lemma keep_bootstrap_first_clip:
  assumes "ops = pre @ x # post" and "operation x = InsertClip c k d n"
    and "\<forall>y \<in> set pre. \<forall>k d n. operation y \<noteq> InsertClip c k d n" and "c |\<notin>| clips"
  shows "op_id x |\<in>| keep_bootstrap ops clips tracks keep"
  using assms
proof (induction pre arbitrary: ops clips tracks keep)
  case Nil
  then show ?case by (simp add: keep_bootstrap_mono)
next
  case (Cons y pre)
  from Cons.prems(1) have ops: "ops = y # (pre @ x # post)" by simp
  show ?case
    using Cons.prems(2-4) Cons.IH [OF refl]
    by (auto simp: ops split: timeline_operation.split)
qed

lemma keep_bootstrap_first_track:
  assumes "ops = pre @ x # post" and "operation x = InsertTrack k d n"
    and "\<forall>y \<in> set pre. \<forall>d n. operation y \<noteq> InsertTrack k d n" and "k |\<notin>| tracks"
  shows "op_id x |\<in>| keep_bootstrap ops clips tracks keep"
  using assms
proof (induction pre arbitrary: ops clips tracks keep)
  case Nil
  then show ?case by (simp add: keep_bootstrap_mono)
next
  case (Cons y pre)
  from Cons.prems(1) have ops: "ops = y # (pre @ x # post)" by simp
  show ?case
    using Cons.prems(2-4) Cons.IH [OF refl]
    by (auto simp: ops split: timeline_operation.split)
qed

end
