(* ===== verification/Timeline.thy ===== *)
theory Timeline
  imports History Compaction
begin

text \<open>
  The replication engine (\<open>tpt-av-sync-crdt/src/timeline_crdt.rs\<close>): a replica's
  session, operation log, dedup set, clocks, buffer of operations with missing targets,
  history and resolution events. The wall clock a local edit reads is an argument. A call
  whose result is \<open>None\<close> does not return: a clip's inverse may need a resolution that
  loops, and \<open>unreachable!\<close> panics. The lemmas show the second never happens.
\<close>

record timeline_snapshot =
  snap_ops :: "tagged_operation list"

record timeline_crdt =
  tl_session :: session
  tl_log :: "tagged_operation list"
  tl_seen :: "operation_id fset"
  tl_clock :: vector_clock
  tl_lamport :: lamport_clock
  tl_local_peer :: peer_id
  tl_pending :: "tagged_operation list"
  tl_history :: history
  tl_events :: "resolution_event list"

definition timeline_new :: "peer_id \<Rightarrow> timeline_crdt" where
  "timeline_new p =
     \<lparr>tl_session = session_new, tl_log = [], tl_seen = {||}, tl_clock = vc_new,
      tl_lamport = lamport_new 0, tl_local_peer = p, tl_pending = [],
      tl_history = history_new 256, tl_events = []\<rparr>"

definition op_tag_of :: "tagged_operation \<Rightarrow> op_tag" where
  "op_tag_of x = OpTag (lamport_ts x) (op_peer x)"

section \<open>Resolution events\<close>

definition conflict_class :: "timeline_operation \<Rightarrow> (string \<times> clip_id) option" where
  "conflict_class oper = (case oper of
     MoveClip c _ _ _ \<Rightarrow> Some (''move'', c)
   | DeleteClip c \<Rightarrow> Some (''delete'', c)
   | SplitClip c _ _ \<Rightarrow> Some (''split'', c)
   | _ \<Rightarrow> None)"

definition matches_conflict_class :: "timeline_operation \<Rightarrow> string \<Rightarrow> clip_id \<Rightarrow> bool" where
  "matches_conflict_class oper kind clip = (case oper of
     MoveClip c _ _ _ \<Rightarrow> kind = ''move'' \<and> c = clip
   | DeleteClip c \<Rightarrow> kind = ''delete'' \<and> c = clip
   | SplitClip c _ _ \<Rightarrow> kind = ''split'' \<and> c = clip
   | _ \<Rightarrow> False)"

text \<open>The event for an operation against the most recent prior one of its class.\<close>

definition resolution_event_of ::
  "string \<Rightarrow> clip_id \<Rightarrow> tagged_operation \<Rightarrow> tagged_operation \<Rightarrow> resolution_event option" where
  "resolution_event_of kind clip incoming prior =
     (if kind = ''split''
      then (case (operation incoming, operation prior) of
              (SplitClip _ incoming_frame incoming_new, SplitClip _ prior_frame prior_new) \<Rightarrow>
                if incoming_frame \<noteq> prior_frame \<or> incoming_new = prior_new then None
                else Some \<lparr>ev_kind = kind, ev_clip_id = clip, ev_op = op_tag_of incoming,
                       ev_op_won = (incoming_new < prior_new),
                       ev_reason = ''same split point, smaller clip id wins''\<rparr>
            | _ \<Rightarrow> None)
      else Some (resolve_tag_conflict kind clip (op_tag_of prior) (op_tag_of incoming)))"

definition observe_resolution :: "tagged_operation \<Rightarrow> timeline_crdt \<Rightarrow> timeline_crdt" where
  "observe_resolution incoming c =
     (case conflict_class (operation incoming) of
        None \<Rightarrow> c
      | Some (kind, clip) \<Rightarrow>
          let already_logged = length (tl_log c) - 1 in
          (case find (\<lambda>x. op_id x \<noteq> op_id incoming \<and> matches_conflict_class (operation x) kind clip)
                  (rev (take already_logged (tl_log c))) of
             None \<Rightarrow> c
           | Some prior \<Rightarrow>
               if \<not> vc_is_concurrent (op_clock incoming) (op_clock prior) then c
               else (case resolution_event_of kind clip incoming prior of
                       None \<Rightarrow> c
                     | Some e \<Rightarrow> c\<lparr>tl_events := tl_events c @ [e]\<rparr>)))"

definition take_resolution_events :: "timeline_crdt \<Rightarrow> resolution_event list \<times> timeline_crdt" where
  "take_resolution_events c = (tl_events c, c\<lparr>tl_events := []\<rparr>)"

section \<open>Local edits\<close>

definition apply_local_internal ::
  "timeline_operation \<Rightarrow> bool \<Rightarrow> int \<Rightarrow> timeline_crdt \<Rightarrow> (tagged_operation \<times> timeline_crdt) option" where
  "apply_local_internal oper record_history now c =
     (let (lamport, clock) = lamport_tick (tl_lamport c);
          c = c\<lparr>tl_lamport := clock, tl_clock := vc_increment (tl_clock c) (tl_local_peer c)\<rparr>;
          i = OperationId lamport (tl_local_peer c)
      in Option.bind
           (if record_history then compute_inverse oper (tl_session c) else Some None) (\<lambda>inverse.
           let tagged = \<lparr>op_id = i, operation = oper, lamport_ts = lamport,
                 op_clock = tl_clock c, op_peer = tl_local_peer c, timestamp = now\<rparr>;
               (res, session) = session_apply oper (OpTag lamport (tl_local_peer c)) (tl_session c);
               c = c\<lparr>tl_session := session\<rparr>
           in Option.bind
                (case res of
                   Inr _ \<Rightarrow> Some (case inverse of
                       Some undo \<Rightarrow> c\<lparr>tl_history :=
                         history_record \<lparr>he_forward = oper, he_inverse = undo\<rparr> (tl_history c)\<rparr>
                     | None \<Rightarrow> c)
                 | Inl e \<Rightarrow>
                     if is_unknown_target e then Some (c\<lparr>tl_pending := tl_pending c @ [tagged]\<rparr>)
                     else None) (\<lambda>c.
                Some (tagged, c\<lparr>tl_log := tl_log c @ [tagged], tl_seen := finsert i (tl_seen c)\<rparr>))))"

definition apply_local ::
  "timeline_operation \<Rightarrow> int \<Rightarrow> timeline_crdt \<Rightarrow> (tagged_operation \<times> timeline_crdt) option" where
  "apply_local oper now c = apply_local_internal oper True now c"

definition timeline_undo ::
  "int \<Rightarrow> timeline_crdt \<Rightarrow> (tagged_operation option \<times> timeline_crdt) option" where
  "timeline_undo now c =
     (case pop_undo (tl_history c) of
        (None, _) \<Rightarrow> Some (None, c)
      | (Some entry, h) \<Rightarrow>
          Option.bind (apply_local_internal (he_inverse entry) False now (c\<lparr>tl_history := h\<rparr>))
            (\<lambda>(tagged, c). Some (Some tagged, c\<lparr>tl_history := push_redo entry (tl_history c)\<rparr>)))"

definition timeline_redo ::
  "int \<Rightarrow> timeline_crdt \<Rightarrow> (tagged_operation option \<times> timeline_crdt) option" where
  "timeline_redo now c =
     (case pop_redo (tl_history c) of
        (None, _) \<Rightarrow> Some (None, c)
      | (Some entry, h) \<Rightarrow>
          Option.bind (apply_local_internal (he_forward entry) False now (c\<lparr>tl_history := h\<rparr>))
            (\<lambda>(tagged, c). Some (Some tagged, c\<lparr>tl_history := push_undo entry (tl_history c)\<rparr>)))"

section \<open>Remote operations\<close>

text \<open>One pass over the buffer: progress flag, operations still waiting, replica.\<close>

fun drain_round ::
  "tagged_operation list \<Rightarrow> bool \<Rightarrow> tagged_operation list \<Rightarrow> timeline_crdt \<Rightarrow>
    (bool \<times> tagged_operation list \<times> timeline_crdt) option" where
  "drain_round [] progress waiting c = Some (progress, waiting, c)"
| "drain_round (x # ops) progress waiting c =
     (let c = observe_resolution x c;
          (res, session) = session_apply (operation x) (op_tag_of x) (tl_session c);
          c = c\<lparr>tl_session := session\<rparr>
      in case res of
           Inr _ \<Rightarrow> drain_round ops True waiting c
         | Inl e \<Rightarrow> if is_unknown_target e then drain_round ops progress (waiting @ [x]) c else None)"

lemma drain_round_length:
  "drain_round ops progress waiting c = Some (progress', waiting', c') \<Longrightarrow>
    length waiting' \<le> length waiting + length ops \<and>
    (progress' \<and> \<not> progress \<longrightarrow> length waiting' < length waiting + length ops)"
  by (induction ops progress waiting c rule: drain_round.induct)
    (fastforce simp: Let_def split: prod.splits sum.splits if_splits)+

function drain_pending :: "timeline_crdt \<Rightarrow> timeline_crdt option" where
  "drain_pending c =
     (case drain_round (tl_pending c) False [] (c\<lparr>tl_pending := []\<rparr>) of
        None \<Rightarrow> None
      | Some (progress, waiting, c') \<Rightarrow>
          if progress then drain_pending (c'\<lparr>tl_pending := waiting\<rparr>)
          else Some (c'\<lparr>tl_pending := waiting\<rparr>))"
  by pat_completeness auto

termination
  by (relation "measure (\<lambda>c. length (tl_pending c))") (auto dest: drain_round_length)

declare drain_pending.simps [simp del]

definition apply_remote :: "tagged_operation \<Rightarrow> timeline_crdt \<Rightarrow> (unit result \<times> timeline_crdt) option" where
  "apply_remote x c =
     (if op_id x |\<in>| tl_seen c then Some (Inr (), c)
      else
        let c = c\<lparr>tl_clock := vc_witness (vc_merge (tl_clock c) (op_clock x)) (op_peer x) (lamport_ts x),
                  tl_lamport := lamport_observe (tl_lamport c) (lamport_ts x),
                  tl_seen := finsert (op_id x) (tl_seen c),
                  tl_log := tl_log c @ [x]\<rparr>;
            c = observe_resolution x c;
            (res, session) = session_apply (operation x) (op_tag_of x) (tl_session c);
            c = c\<lparr>tl_session := session\<rparr>
        in case res of
             Inr _ \<Rightarrow> map_option (\<lambda>c. (Inr (), c)) (drain_pending c)
           | Inl e \<Rightarrow>
               if is_unknown_target e
               then map_option (\<lambda>c. (Inr (), c)) (drain_pending (c\<lparr>tl_pending := tl_pending c @ [x]\<rparr>))
               else Some (Inl e, c))"

section \<open>Queries, compaction and snapshots\<close>

definition timeline_view :: "timeline_crdt \<Rightarrow> session_view option" where
  "timeline_view c = materialize (tl_session c)"

definition has_operation :: "timeline_crdt \<Rightarrow> operation_id \<Rightarrow> bool" where
  "has_operation c i \<longleftrightarrow> i |\<in>| tl_seen c"

definition pending_len :: "timeline_crdt \<Rightarrow> nat" where
  "pending_len c = length (tl_pending c)"

definition timeline_compact :: "timeline_crdt \<Rightarrow> timeline_crdt" where
  "timeline_compact c =
     (let compacted = compact_log (tl_log c) (tl_session c)
      in c\<lparr>tl_seen := fset_of_list (map op_id compacted), tl_log := compacted\<rparr>)"

definition timeline_snapshot_of :: "timeline_crdt \<Rightarrow> timeline_snapshot" where
  "timeline_snapshot_of c = \<lparr>snap_ops = tl_log c\<rparr>"

text \<open>\<open>for op in ops { let _ = self.apply_remote(op); }\<close>\<close>

fun apply_remote_all :: "tagged_operation list \<Rightarrow> timeline_crdt \<Rightarrow> timeline_crdt option" where
  "apply_remote_all [] c = Some c"
| "apply_remote_all (x # ops) c =
     (case apply_remote x c of None \<Rightarrow> None | Some (_, c) \<Rightarrow> apply_remote_all ops c)"

definition merge_snapshot :: "timeline_snapshot \<Rightarrow> timeline_crdt \<Rightarrow> timeline_crdt option" where
  "merge_snapshot snap c = apply_remote_all (sort_key op_rank (snap_ops snap)) c"

definition from_snapshot :: "timeline_snapshot \<Rightarrow> peer_id \<Rightarrow> timeline_crdt option" where
  "from_snapshot snap p = apply_remote_all (sort_key op_rank (snap_ops snap)) (timeline_new p)"

definition missing_targets :: "timeline_operation \<Rightarrow> session \<Rightarrow> required_target list" where
  "missing_targets oper s = filter (\<lambda>r. case r of
       RequiredClip c \<Rightarrow> session_clip s c = None
     | RequiredTrack k \<Rightarrow> session_track s k = None) (required_targets oper)"

end
