(* ===== verification/Op_Crdt.thy ===== *)
theory Op_Crdt
  imports Session_Laws
begin

text \<open>
  The convergence argument, once and for all. The locale \<open>op_crdt\<close> states what an
  operation-based CRDT with dependency buffering needs from its state: effects of
  compatible operations commute, each is idempotent, and no effect disables another
  operation. From these, a run (each operation enabled when it executes) is determined by
  the set of operations executed, and two replicas that hold the same operations and whose
  buffers are stuck have executed the same ones. The session model interprets the locale.
\<close>

fun runs :: "('o \<Rightarrow> 's \<Rightarrow> bool) \<Rightarrow> ('o \<Rightarrow> 's \<Rightarrow> 's) \<Rightarrow> 'o list \<Rightarrow> 's \<Rightarrow> bool" where
  "runs en eff [] s \<longleftrightarrow> True"
| "runs en eff (x # xs) s \<longleftrightarrow> en x s \<and> runs en eff xs (eff x s)"

lemma runs_snoc: "runs en eff (xs @ [x]) s \<longleftrightarrow> runs en eff xs s \<and> en x (fold eff xs s)"
  by (induction xs arbitrary: s) auto

definition pairwise :: "('o \<Rightarrow> 'o \<Rightarrow> bool) \<Rightarrow> 'o set \<Rightarrow> bool" where
  "pairwise R X \<longleftrightarrow> (\<forall>x \<in> X. \<forall>y \<in> X. R x y)"

lemma pairwise_subset: "pairwise R X \<Longrightarrow> Y \<subseteq> X \<Longrightarrow> pairwise R Y"
  by (auto simp: pairwise_def)

locale op_crdt =
  fixes effect :: "'o \<Rightarrow> 's \<Rightarrow> 's"
    and enabled :: "'o \<Rightarrow> 's \<Rightarrow> bool"
    and compatible :: "'o \<Rightarrow> 'o \<Rightarrow> bool"
  assumes effect_commute: "compatible a b \<Longrightarrow> effect a (effect b s) = effect b (effect a s)"
    and effect_idem: "effect a (effect a s) = effect a s"
    and enabled_effect: "enabled a s \<Longrightarrow> enabled a (effect b s)"
begin

lemma fold_effect_swap:
  "pairwise compatible (insert a (set xs)) \<Longrightarrow>
    effect a (fold effect xs s) = fold effect xs (effect a s)"
proof (induction xs arbitrary: s)
  case (Cons x xs)
  have "effect a (effect x s) = effect x (effect a s)"
    using Cons.prems by (intro effect_commute) (auto simp: pairwise_def)
  moreover have "pairwise compatible (insert a (set xs))"
    using Cons.prems by (rule pairwise_subset) auto
  ultimately show ?case using Cons.IH by simp
qed simp

lemma fold_effect_absorb:
  "pairwise compatible (set xs) \<Longrightarrow> a \<in> set xs \<Longrightarrow> fold effect xs (effect a s) = fold effect xs s"
proof (induction xs arbitrary: s)
  case (Cons x xs)
  have rest: "pairwise compatible (set xs)" using Cons.prems(1) by (rule pairwise_subset) auto
  have swap: "effect x (effect a s) = effect a (effect x s)"
    using Cons.prems by (intro effect_commute) (auto simp: pairwise_def)
  show ?case
  proof (cases "a = x")
    case True
    then show ?thesis by (simp add: effect_idem)
  next
    case False
    then show ?thesis using Cons.IH [OF rest] Cons.prems(2) by (simp add: swap)
  qed
qed simp

lemma fold_effect_absorb_list:
  "pairwise compatible (set xs) \<Longrightarrow> set ys \<subseteq> set xs \<Longrightarrow>
    fold effect xs (fold effect ys s) = fold effect xs s"
proof (induction ys arbitrary: s)
  case (Cons y ys)
  then show ?case by (simp add: fold_effect_absorb)
qed simp

lemma fold_effect_fold_commute:
  "pairwise compatible (set xs \<union> set ys) \<Longrightarrow>
    fold effect xs (fold effect ys s) = fold effect ys (fold effect xs s)"
proof (induction xs arbitrary: s)
  case (Cons x xs)
  have "pairwise compatible (insert x (set ys))" "pairwise compatible (set xs \<union> set ys)"
    using Cons.prems by (auto elim: pairwise_subset)
  with Cons.IH show ?case by (simp add: fold_effect_swap)
qed simp

lemma fold_effect_set:
  assumes "set xs = set ys" and "pairwise compatible (set xs)"
  shows "fold effect xs s = fold effect ys s"
proof -
  have ys: "pairwise compatible (set ys)" using assms by simp
  have "fold effect xs s = fold effect xs (fold effect ys s)"
    by (rule fold_effect_absorb_list [OF assms(2), symmetric]) (simp add: assms(1))
  also have "\<dots> = fold effect ys (fold effect xs s)"
    by (rule fold_effect_fold_commute) (simp add: assms(1) ys)
  also have "\<dots> = fold effect ys s"
    by (rule fold_effect_absorb_list [OF ys]) (simp add: assms(1))
  finally show ?thesis .
qed

lemma enabled_fold: "enabled a s \<Longrightarrow> enabled a (fold effect xs s)"
  by (induction xs arbitrary: s) (simp_all add: enabled_effect)

lemma enabled_fold_mono:
  assumes "enabled a (fold effect xs s)" and "set xs \<subseteq> set ys" and "pairwise compatible (set ys)"
  shows "enabled a (fold effect ys s)"
proof -
  have "enabled a (fold effect ys (fold effect xs s))" using assms(1) by (rule enabled_fold)
  then show ?thesis using assms by (simp add: fold_effect_absorb_list)
qed

lemma run_within_stuck:
  assumes run: "runs enabled effect ys s" and all: "set ys \<subseteq> set xs \<union> P"
    and stuck: "\<forall>p \<in> P. \<not> enabled p (fold effect xs s)" and pw: "pairwise compatible (set xs)"
  shows "set ys \<subseteq> set xs"
  using run all
proof (induction ys rule: rev_induct)
  case (snoc y ys)
  have run: "runs enabled effect ys s" and en: "enabled y (fold effect ys s)"
    using snoc.prems(1) unfolding runs_snoc by blast+
  from snoc.IH [OF run] snoc.prems(2) have "set ys \<subseteq> set xs" by simp
  with en pw have "enabled y (fold effect xs s)" by (blast intro: enabled_fold_mono)
  with stuck snoc.prems(2) have "y \<in> set xs" by auto
  with \<open>set ys \<subseteq> set xs\<close> show ?case by simp
qed simp

text \<open>Two maximal runs over the same operations end in the same state.\<close>

lemma stuck_runs_agree:
  assumes "runs enabled effect xs s" and "runs enabled effect ys s"
    and "set xs \<union> P = set ys \<union> Q"
    and "\<forall>p \<in> P. \<not> enabled p (fold effect xs s)" and "\<forall>q \<in> Q. \<not> enabled q (fold effect ys s)"
    and "pairwise compatible (set xs)" and "pairwise compatible (set ys)"
  shows "set xs = set ys" and "fold effect xs s = fold effect ys s"
proof -
  have "set ys \<subseteq> set xs" using assms by (intro run_within_stuck [where P = P]) auto
  moreover have "set xs \<subseteq> set ys" using assms by (intro run_within_stuck [where P = Q]) auto
  ultimately show eq: "set xs = set ys" by simp
  show "fold effect xs s = fold effect ys s" using eq assms(6) by (rule fold_effect_set)
qed

end

section \<open>The session is such a CRDT\<close>

definition op_effect :: "timeline_operation \<times> op_tag \<Rightarrow> session \<Rightarrow> session" where
  "op_effect x s = session_effect (fst x) (snd x) s"

definition op_enabled :: "timeline_operation \<times> op_tag \<Rightarrow> session \<Rightarrow> bool" where
  "op_enabled x s \<longleftrightarrow> session_enabled (fst x) s"

interpretation session_crdt: op_crdt op_effect op_enabled ops_compatible
proof unfold_locales
  fix a b :: "timeline_operation \<times> op_tag" and s
  show "op_effect a (op_effect b s) = op_effect b (op_effect a s)" if "ops_compatible a b"
    using that session_effect_commute [of "fst a" "snd a" "fst b" "snd b" s]
    by (simp add: op_effect_def)
qed (simp_all add: op_effect_def op_enabled_def session_effect_idem session_enabled_effect)

lemma valid_ops_pairwise: "valid_ops X \<Longrightarrow> Y \<subseteq> X \<Longrightarrow> pairwise ops_compatible Y"
  by (auto simp: valid_ops_def pairwise_def)

lemma valid_ops_subset: "valid_ops X \<Longrightarrow> Y \<subseteq> X \<Longrightarrow> valid_ops Y"
  by (auto simp: valid_ops_def)

lemma session_apply_op:
  assumes "session_inv X s" and "valid_ops X" and "x \<in> X"
  shows "op_enabled x s \<Longrightarrow> session_apply (fst x) (snd x) s = (Inr (), op_effect x s)"
    and "\<not> op_enabled x s \<Longrightarrow>
      \<exists>e. is_unknown_target e \<and> session_apply (fst x) (snd x) s = (Inl e, s)"
  using session_apply_guarded [OF assms(1,2), of "fst x" "snd x"] assms(3)
  by (simp_all add: op_enabled_def op_effect_def)

lemma session_inv_op:
  "session_inv X s \<Longrightarrow> x \<in> X \<Longrightarrow> op_enabled x s \<Longrightarrow> session_inv X (op_effect x s)"
  using session_inv_effect [of X s "fst x" "snd x"] by (simp add: op_enabled_def op_effect_def)

lemma session_inv_runs:
  "session_inv X s \<Longrightarrow> set xs \<subseteq> X \<Longrightarrow> runs op_enabled op_effect xs s \<Longrightarrow>
    session_inv X (fold op_effect xs s)"
  by (induction xs arbitrary: s) (simp_all add: session_inv_op)

end
