(* ===== verification/Replica.thy ===== *)
theory Replica
  imports Timeline Op_Crdt
begin

text \<open>
  One replica (\<open>timeline_crdt.rs\<close>) against the abstract runs of \<open>Op_Crdt\<close>. The
  refinement relation \<open>replica_ok X es c\<close> says that the replica's session is the result
  of the run \<open>es\<close> and that executed and buffered operations together are the log; every
  entry point preserves it, returns, and never reports an error or reaches the
  \<open>unreachable!\<close>. After a remote delivery the buffer is stuck (\<open>quiescent\<close>), so the
  session is determined by the set of operations in the log.
\<close>

section \<open>Refinement relation\<close>

definition op_key :: "tagged_operation \<Rightarrow> timeline_operation \<times> op_tag" where
  "op_key x = (operation x, op_tag_of x)"

definition well_formed_op :: "tagged_operation \<Rightarrow> bool" where
  "well_formed_op x \<longleftrightarrow> op_id x = OperationId (lamport_ts x) (op_peer x)"

definition replica_core ::
  "(timeline_operation \<times> op_tag) set \<Rightarrow> (timeline_operation \<times> op_tag) list \<Rightarrow>
    (timeline_operation \<times> op_tag) set \<Rightarrow> timeline_crdt \<Rightarrow> bool" where
  "replica_core X es P c \<longleftrightarrow>
     runs op_enabled op_effect es session_new \<and>
     tl_session c = fold op_effect es session_new \<and>
     set es \<union> P = op_key ` set (tl_log c) \<and> op_key ` set (tl_log c) \<subseteq> X \<and>
     (\<forall>x \<in> set (tl_log c). well_formed_op x) \<and>
     fset (tl_seen c) = op_id ` set (tl_log c)"

definition replica_ok ::
  "(timeline_operation \<times> op_tag) set \<Rightarrow> (timeline_operation \<times> op_tag) list \<Rightarrow> timeline_crdt \<Rightarrow> bool" where
  "replica_ok X es c \<longleftrightarrow> replica_core X es (op_key ` set (tl_pending c)) c"

definition quiescent :: "timeline_crdt \<Rightarrow> bool" where
  "quiescent c \<longleftrightarrow> (\<forall>x \<in> set (tl_pending c). \<not> op_enabled (op_key x) (tl_session c))"

lemma replica_ok_new [simp]: "replica_ok X [] (timeline_new p)"
  by (simp add: replica_ok_def replica_core_def timeline_new_def)

lemma quiescent_new [simp]: "quiescent (timeline_new p)"
  by (simp add: quiescent_def timeline_new_def)

lemma replica_core_mono: "replica_core X es P c \<Longrightarrow> X \<subseteq> Y \<Longrightarrow> replica_core Y es P c"
  by (auto simp: replica_core_def)

lemma replica_core_inv:
  assumes "replica_core X es P c"
  shows "session_inv X (tl_session c)"
  using assms session_inv_runs [of X session_new es] by (auto simp: replica_core_def)

lemma replica_core_wf_runs:
  "valid_ops X \<Longrightarrow> set es \<subseteq> X \<Longrightarrow> runs op_enabled op_effect es s \<Longrightarrow> session_inv X s \<Longrightarrow>
    parents_wf s \<Longrightarrow> parents_wf (fold op_effect es s)"
proof (induction es arbitrary: s)
  case (Cons x es)
  then have "parents_wf (op_effect x s)"
    using parents_wf_effect [of X s "fst x" "snd x"] by (simp add: op_effect_def op_enabled_def)
  with Cons show ?case by (simp add: session_inv_op)
qed simp

lemma replica_core_wf:
  assumes "replica_core X es P c" and "valid_ops X"
  shows "parents_wf (tl_session c)"
  using assms replica_core_wf_runs [OF assms(2), of es session_new] by (auto simp: replica_core_def)

text \<open>What the loops over the buffer leave alone.\<close>

definition same_frame :: "timeline_crdt \<Rightarrow> timeline_crdt \<Rightarrow> bool" where
  "same_frame c d \<longleftrightarrow> tl_log c = tl_log d \<and> tl_seen c = tl_seen d \<and> tl_clock c = tl_clock d \<and>
     tl_lamport c = tl_lamport d \<and> tl_local_peer c = tl_local_peer d \<and> tl_history c = tl_history d"

lemma same_frame_refl [simp]: "same_frame c c"
  by (simp add: same_frame_def)

lemma same_frame_trans: "same_frame c d \<Longrightarrow> same_frame d e \<Longrightarrow> same_frame c e"
  by (simp add: same_frame_def)

lemma same_frame_updates [simp]:
  "same_frame (c\<lparr>tl_session := s\<rparr>) d = same_frame c d"
  "same_frame (c\<lparr>tl_pending := p\<rparr>) d = same_frame c d"
  "same_frame c (d\<lparr>tl_session := s\<rparr>) = same_frame c d"
  "same_frame c (d\<lparr>tl_pending := p\<rparr>) = same_frame c d"
  by (simp_all add: same_frame_def)

lemma replica_core_frame:
  "same_frame c d \<Longrightarrow> tl_session c = tl_session d \<Longrightarrow> replica_core X es P c = replica_core X es P d"
  by (simp add: replica_core_def same_frame_def)

lemma observe_resolution_frame [simp]:
  "same_frame (observe_resolution x c) d = same_frame c d"
  "same_frame d (observe_resolution x c) = same_frame d c"
  "tl_session (observe_resolution x c) = tl_session c"
  "tl_pending (observe_resolution x c) = tl_pending c"
  by (simp_all add: observe_resolution_def same_frame_def Let_def split: option.split prod.split)

lemma observe_resolution_fields [simp]:
  "tl_log (observe_resolution x c) = tl_log c" "tl_seen (observe_resolution x c) = tl_seen c"
  "tl_lamport (observe_resolution x c) = tl_lamport c"
  "tl_local_peer (observe_resolution x c) = tl_local_peer c"
  "tl_history (observe_resolution x c) = tl_history c"
  by (simp_all add: observe_resolution_def Let_def split: option.split prod.split)

lemma replica_core_observe [simp]:
  "replica_core X es P (observe_resolution x c) = replica_core X es P c"
  by (rule replica_core_frame) simp_all

section \<open>Executing or buffering one operation\<close>

lemma replica_core_apply:
  assumes core: "replica_core X es P c" and X: "valid_ops X" and x: "op_key x \<in> P"
  shows "op_enabled (op_key x) (tl_session c) \<Longrightarrow>
      session_apply (operation x) (op_tag_of x) (tl_session c) =
        (Inr (), op_effect (op_key x) (tl_session c)) \<and>
      (P = insert (op_key x) Q \<longrightarrow> replica_core X (es @ [op_key x]) Q
        (c\<lparr>tl_session := op_effect (op_key x) (tl_session c)\<rparr>))"
    and "\<not> op_enabled (op_key x) (tl_session c) \<Longrightarrow>
      \<exists>e. is_unknown_target e \<and>
        session_apply (operation x) (op_tag_of x) (tl_session c) = (Inl e, tl_session c)"
proof -
  have "op_key x \<in> X" using core x by (auto simp: replica_core_def)
  note app = session_apply_op [OF replica_core_inv [OF core] X this]
  show "session_apply (operation x) (op_tag_of x) (tl_session c) =
        (Inr (), op_effect (op_key x) (tl_session c)) \<and>
      (P = insert (op_key x) Q \<longrightarrow> replica_core X (es @ [op_key x]) Q
        (c\<lparr>tl_session := op_effect (op_key x) (tl_session c)\<rparr>))"
    if "op_enabled (op_key x) (tl_session c)"
    using app(1) [OF that] that core
    by (auto simp: replica_core_def runs_snoc op_key_def [of x])
  show "\<exists>e. is_unknown_target e \<and>
        session_apply (operation x) (op_tag_of x) (tl_session c) = (Inl e, tl_session c)"
    if "\<not> op_enabled (op_key x) (tl_session c)"
    using app(2) [OF that] by (simp add: op_key_def)
qed

lemma drain_round_ok:
  assumes "valid_ops X" and "replica_core X es (op_key ` (set ops \<union> set waiting)) c"
  shows "\<exists>progress' waiting' c' es'. drain_round ops progress waiting c = Some (progress', waiting', c') \<and>
    replica_core X es' (op_key ` set waiting') c' \<and> same_frame c' c \<and> (progress \<longrightarrow> progress') \<and>
    (\<not> progress' \<longrightarrow> tl_session c' = tl_session c \<and> waiting' = waiting @ ops \<and>
       (\<forall>x \<in> set ops. \<not> op_enabled (op_key x) (tl_session c)))"
  using assms(2)
proof (induction ops arbitrary: progress waiting c es)
  case (Cons x ops)
  define d where "d = observe_resolution x c"
  have d: "tl_session d = tl_session c" "same_frame d c" by (simp_all add: d_def)
  have core: "replica_core X es (insert (op_key x) (op_key ` (set ops \<union> set waiting))) d"
    using Cons.prems by (simp add: d_def insert_commute)
  note app = replica_core_apply [OF core assms(1), of x, simplified]
  show ?case
  proof (cases "op_enabled (op_key x) (tl_session c)")
    case True
    define e where "e = d\<lparr>tl_session := op_effect (op_key x) (tl_session d)\<rparr>"
    from app(1) [of "op_key ` (set ops \<union> set waiting)"] True d
    have step: "session_apply (operation x) (op_tag_of x) (tl_session d) = (Inr (), tl_session e)"
      and core': "replica_core X (es @ [op_key x]) (op_key ` (set ops \<union> set waiting)) e"
      by (simp_all add: e_def)
    have "same_frame e c" using d by (simp add: e_def)
    from Cons.IH [OF core', of True] obtain pr w c' es' where
      "drain_round ops True waiting e = Some (pr, w, c')" "replica_core X es' (op_key ` set w) c'"
      "same_frame c' e" "pr" by blast
    with \<open>same_frame e c\<close> step show ?thesis
      by (auto simp: d_def [symmetric] e_def Let_def intro: same_frame_trans)
  next
    case False
    with app(2) d obtain e where e: "is_unknown_target e"
        "session_apply (operation x) (op_tag_of x) (tl_session d) = (Inl e, tl_session d)" by auto
    have core': "replica_core X es (op_key ` (set ops \<union> set (waiting @ [x]))) d"
      using core by simp
    from Cons.IH [OF core', of progress] obtain pr w c' es' where
      ih: "drain_round ops progress (waiting @ [x]) d = Some (pr, w, c')"
      "replica_core X es' (op_key ` set w) c'" "same_frame c' d" "progress \<longrightarrow> pr"
      "\<not> pr \<longrightarrow> tl_session c' = tl_session d \<and> w = (waiting @ [x]) @ ops \<and>
        (\<forall>x \<in> set ops. \<not> op_enabled (op_key x) (tl_session d))" by blast
    have "drain_round (x # ops) progress waiting c = Some (pr, w, c')"
      using ih(1) e by (simp add: d_def [symmetric] Let_def)
    with ih d False show ?thesis
      by (auto intro: same_frame_trans)
  qed
qed auto

lemma drain_pending_ok:
  assumes "valid_ops X"
  shows "replica_ok X es c \<Longrightarrow> \<exists>c' es'. drain_pending c = Some c' \<and> replica_ok X es' c' \<and>
    quiescent c' \<and> same_frame c' c"
proof (induction c arbitrary: es rule: drain_pending.induct)
  case (1 c)
  let ?c = "c\<lparr>tl_pending := []\<rparr>"
  have "replica_core X es (op_key ` (set (tl_pending c) \<union> set [])) ?c"
    using 1(2) by (simp add: replica_ok_def replica_core_def)
  from drain_round_ok [OF assms this, of False] obtain pr w c' es' where
    r: "drain_round (tl_pending c) False [] ?c = Some (pr, w, c')"
    "replica_core X es' (op_key ` set w) c'" "same_frame c' c"
    "\<not> pr \<longrightarrow> tl_session c' = tl_session ?c \<and> w = [] @ tl_pending c \<and>
       (\<forall>x \<in> set (tl_pending c). \<not> op_enabled (op_key x) (tl_session ?c))" by auto
  have ok: "replica_ok X es' (c'\<lparr>tl_pending := w\<rparr>)"
    using r(2) by (simp add: replica_ok_def replica_core_def)
  show ?case
  proof (cases pr)
    case True
    from 1(1) [OF r(1) refl refl True ok] obtain c'' es'' where
      "drain_pending (c'\<lparr>tl_pending := w\<rparr>) = Some c''" "replica_ok X es'' c''" "quiescent c''"
      "same_frame c'' c'" by auto
    with True r show ?thesis
      by (subst drain_pending.simps) (auto intro: same_frame_trans)
  next
    case False
    with r ok show ?thesis
      by (subst drain_pending.simps) (auto simp: quiescent_def)
  qed
qed

section \<open>Remote delivery\<close>

lemma op_id_determines_key:
  assumes "valid_ops X" "well_formed_op x" "well_formed_op y" "op_key x \<in> X" "op_key y \<in> X"
    and "op_id x = op_id y"
  shows "op_key x = op_key y"
proof -
  have "op_tag_of x = op_tag_of y" using assms by (simp add: well_formed_op_def op_tag_of_def)
  moreover have "ops_compatible (op_key x) (op_key y)" using assms by (simp add: valid_ops_def)
  ultimately show ?thesis by (simp add: ops_compatible_def op_key_def)
qed

lemma apply_remote_seen: "op_id x |\<in>| tl_seen c \<Longrightarrow> apply_remote x c = Some (Inr (), c)"
  by (simp add: apply_remote_def)

lemma apply_remote_fresh:
  assumes ok: "replica_ok X es c" and X: "valid_ops X" and x: "op_key x \<in> X" "well_formed_op x"
    and fresh: "op_id x |\<notin>| tl_seen c"
  shows "\<exists>c' es'. apply_remote x c = Some (Inr (), c') \<and> replica_ok X es' c' \<and> quiescent c' \<and>
    tl_log c' = tl_log c @ [x] \<and> tl_local_peer c' = tl_local_peer c \<and>
    tl_lamport c' = lamport_observe (tl_lamport c) (lamport_ts x) \<and> tl_history c' = tl_history c"
proof -
  define d where "d = observe_resolution x
    (c\<lparr>tl_clock := vc_witness (vc_merge (tl_clock c) (op_clock x)) (op_peer x) (lamport_ts x),
       tl_lamport := lamport_observe (tl_lamport c) (lamport_ts x),
       tl_seen := finsert (op_id x) (tl_seen c), tl_log := tl_log c @ [x]\<rparr>)"
  let ?P = "op_key ` set (tl_pending c)"
  have core: "replica_core X es (insert (op_key x) ?P) d"
    using ok x by (auto simp: d_def replica_ok_def replica_core_def)
  have d: "tl_log d = tl_log c @ [x]" "tl_local_peer d = tl_local_peer c"
      "tl_lamport d = lamport_observe (tl_lamport c) (lamport_ts x)" "tl_history d = tl_history c"
      "tl_pending d = tl_pending c"
    by (simp_all add: d_def)
  have rem: "apply_remote x c = (case session_apply (operation x) (op_tag_of x) (tl_session d) of
      (res, session) \<Rightarrow> (case res of
         Inr _ \<Rightarrow> map_option (\<lambda>c. (Inr (), c)) (drain_pending (d\<lparr>tl_session := session\<rparr>))
       | Inl e \<Rightarrow> if is_unknown_target e
           then map_option (\<lambda>c. (Inr (), c)) (drain_pending
             (d\<lparr>tl_session := session\<rparr>\<lparr>tl_pending := tl_pending (d\<lparr>tl_session := session\<rparr>) @ [x]\<rparr>))
           else Some (Inl e, d\<lparr>tl_session := session\<rparr>)))"
    unfolding apply_remote_def Let_def d_def using fresh by (simp only: if_False)
  have "\<exists>e es. replica_ok X es e \<and> same_frame e d \<and>
      apply_remote x c = map_option (\<lambda>c. (Inr (), c)) (drain_pending e)"
  proof (cases "op_enabled (op_key x) (tl_session d)")
    case True
    with replica_core_apply(1) [OF core X, of x ?P] show ?thesis using fresh
      by (intro exI [of _ "d\<lparr>tl_session := op_effect (op_key x) (tl_session d)\<rparr>"]
          exI [of _ "es @ [op_key x]"])
        (simp add: rem replica_ok_def d)
  next
    case False
    from replica_core_apply(2) [OF core X _ False] obtain e where e: "is_unknown_target e"
        "session_apply (operation x) (op_tag_of x) (tl_session d) = (Inl e, tl_session d)" by auto
    have "replica_ok X es (d\<lparr>tl_pending := tl_pending d @ [x]\<rparr>)"
      using core by (simp add: replica_ok_def replica_core_def d)
    with e fresh show ?thesis
      by (intro exI [of _ "d\<lparr>tl_pending := tl_pending d @ [x]\<rparr>"] exI [of _ es])
        (simp add: rem)
  qed
  then obtain e es' where e: "replica_ok X es' e" "same_frame e d"
      "apply_remote x c = map_option (\<lambda>c. (Inr (), c)) (drain_pending e)" by blast
  from drain_pending_ok [OF X e(1)] obtain c' es'' where
    "drain_pending e = Some c'" "replica_ok X es'' c'" "quiescent c'" "same_frame c' e" by auto
  with e d show ?thesis by (auto simp: same_frame_def)
qed

lemma replica_ok_seen_key:
  assumes ok: "replica_ok X es c" and X: "valid_ops X" and x: "op_key x \<in> X" "well_formed_op x"
    and seen: "op_id x |\<in>| tl_seen c"
  shows "op_key x \<in> op_key ` set (tl_log c)"
proof -
  obtain y where y: "y \<in> set (tl_log c)" "op_id x = op_id y"
    using ok seen by (auto simp: replica_ok_def replica_core_def)
  then have "op_key x = op_key y"
    using ok x by (intro op_id_determines_key [OF X]) (auto simp: replica_ok_def replica_core_def)
  with y show ?thesis by simp
qed

lemma apply_remote_all_replica:
  assumes X: "valid_ops X"
  shows "replica_ok X es c \<Longrightarrow> op_key ` set xs \<subseteq> X \<Longrightarrow> \<forall>x \<in> set xs. well_formed_op x \<Longrightarrow>
    \<exists>c' es'. apply_remote_all xs c = Some c' \<and> replica_ok X es' c' \<and> (quiescent c \<longrightarrow> quiescent c') \<and>
      op_key ` set (tl_log c') = op_key ` set (tl_log c) \<union> op_key ` set xs"
proof (induction xs arbitrary: c es)
  case (Cons x xs)
  then have x: "op_key x \<in> X" "well_formed_op x" by auto
  show ?case
  proof (cases "op_id x |\<in>| tl_seen c")
    case True
    have key: "op_key x \<in> op_key ` set (tl_log c)"
      by (rule replica_ok_seen_key [OF Cons.prems(1) X x True])
    from Cons.IH [OF Cons.prems(1)] Cons.prems(2,3) obtain c' es' where
      "apply_remote_all xs c = Some c'" "replica_ok X es' c'" "quiescent c \<longrightarrow> quiescent c'"
      "op_key ` set (tl_log c') = op_key ` set (tl_log c) \<union> op_key ` set xs" by auto
    with True key show ?thesis by (auto simp: apply_remote_seen)
  next
    case False
    from apply_remote_fresh [OF Cons.prems(1) X x False] obtain d es' where
      d: "apply_remote x c = Some (Inr (), d)" "replica_ok X es' d" "quiescent d"
        "tl_log d = tl_log c @ [x]" by auto
    from Cons.IH [OF d(2)] Cons.prems(2,3) d(3) obtain c' es'' where
      "apply_remote_all xs d = Some c'" "replica_ok X es'' c'" "quiescent c'"
      "op_key ` set (tl_log c') = op_key ` set (tl_log d) \<union> op_key ` set xs" by auto
    with d show ?thesis by auto
  qed
qed auto

lemma apply_remote_all_ok:
  assumes "valid_ops X" "replica_ok X es c" "quiescent c" "op_key ` set xs \<subseteq> X"
    "\<forall>x \<in> set xs. well_formed_op x"
  shows "\<exists>c' es'. apply_remote_all xs c = Some c' \<and> replica_ok X es' c' \<and> quiescent c' \<and>
      op_key ` set (tl_log c') = op_key ` set (tl_log c) \<union> op_key ` set xs"
  using apply_remote_all_replica [OF assms(1,2,4,5)] assms(3) by blast

lemma apply_remote_replica:
  assumes "valid_ops X" "replica_ok X es c" "op_key x \<in> X" "well_formed_op x"
  shows "\<exists>c' es'. apply_remote x c = Some (Inr (), c') \<and> replica_ok X es' c'"
proof (cases "op_id x |\<in>| tl_seen c")
  case True
  with assms(2) show ?thesis by (auto simp: apply_remote_seen)
next
  case False
  from apply_remote_fresh [OF assms(2,1,3,4) False] show ?thesis by blast
qed

section \<open>Local edits\<close>

definition next_local_tag :: "timeline_crdt \<Rightarrow> op_tag" where
  "next_local_tag c = OpTag (fst (lamport_tick (tl_lamport c))) (tl_local_peer c)"

lemma replica_core_extend:
  assumes core: "replica_core X es P c" and t: "op_key t \<in> X" "well_formed_op t"
    and run: "runs op_enabled op_effect fs session_new" "tl_session d = fold op_effect fs session_new"
    and keys: "set fs \<union> Q = insert (op_key t) (set es \<union> P)"
    and log: "tl_log d = tl_log c @ [t]" "tl_seen d = finsert (op_id t) (tl_seen c)"
  shows "replica_core X fs Q d"
  unfolding replica_core_def
proof (intro conjI)
  have c: "set es \<union> P = op_key ` set (tl_log c)" "op_key ` set (tl_log c) \<subseteq> X"
    "\<forall>x \<in> set (tl_log c). well_formed_op x" "fset (tl_seen c) = op_id ` set (tl_log c)"
    using core by (simp_all add: replica_core_def)
  show "set fs \<union> Q = op_key ` set (tl_log d)" using c(1) by (simp add: keys log)
  show "op_key ` set (tl_log d) \<subseteq> X" "\<forall>x \<in> set (tl_log d). well_formed_op x"
    using c(2,3) t by (simp_all add: log)
  show "fset (tl_seen d) = op_id ` set (tl_log d)" using c(4) by (simp add: log)
qed (rule run)+

lemma apply_local_internal_ok:
  assumes ok: "replica_ok X es c" and X: "valid_ops X" and x: "(oper, next_local_tag c) \<in> X"
  shows "\<exists>tagged c' es'. apply_local_internal oper rec now c = Some (tagged, c') \<and>
    replica_ok X es' c' \<and> tl_log c' = tl_log c @ [tagged] \<and> op_key tagged = (oper, next_local_tag c) \<and>
    well_formed_op tagged \<and> tl_local_peer c' = tl_local_peer c \<and>
    tl_lamport c' = snd (lamport_tick (tl_lamport c)) \<and> op_id tagged |\<in>| tl_seen c'"
proof -
  obtain lam clk where tick: "lamport_tick (tl_lamport c) = (lam, clk)" by (cases "lamport_tick (tl_lamport c)")
  let ?tag = "OpTag lam (tl_local_peer c)"
  let ?vc = "vc_increment (tl_clock c) (tl_local_peer c)"
  let ?t = "\<lparr>op_id = OperationId lam (tl_local_peer c), operation = oper, lamport_ts = lam,
    op_clock = ?vc, op_peer = tl_local_peer c, timestamp = now\<rparr>"
  have core: "replica_core X es (op_key ` set (tl_pending c)) c" using ok by (simp add: replica_ok_def)
  have key: "op_key ?t = (oper, ?tag)" by (simp add: op_key_def op_tag_of_def)
  have wf: "well_formed_op ?t" by (simp add: well_formed_op_def)
  have mem: "(oper, ?tag) \<in> X" using x by (simp add: next_local_tag_def tick)
  obtain undo where undo: "(if rec then compute_inverse oper (tl_session c) else Some None) = Some undo"
    using compute_inverse_returns [OF replica_core_wf [OF core X], of oper] by (cases rec) auto
  note app = session_apply_op [OF replica_core_inv [OF core] X mem]
  show ?thesis
  proof (cases "op_enabled (oper, ?tag) (tl_session c)")
    case True
    have run: "runs op_enabled op_effect (es @ [(oper, ?tag)]) session_new"
      "op_effect (oper, ?tag) (tl_session c) = fold op_effect (es @ [(oper, ?tag)]) session_new"
      using core True by (auto simp: replica_core_def runs_snoc)
    let ?d = "c\<lparr>tl_lamport := clk, tl_clock := ?vc, tl_session := op_effect (oper, ?tag) (tl_session c),
      tl_history := (case undo of None \<Rightarrow> tl_history c
        | Some i \<Rightarrow> history_record \<lparr>he_forward = oper, he_inverse = i\<rparr> (tl_history c)),
      tl_log := tl_log c @ [?t], tl_seen := finsert (op_id ?t) (tl_seen c)\<rparr>"
    have "apply_local_internal oper rec now c = Some (?t, ?d)"
      using app(1) [OF True] undo
      by (cases rec; cases undo) (simp_all add: apply_local_internal_def tick Let_def)
    moreover have "replica_ok X (es @ [(oper, ?tag)]) ?d"
      unfolding replica_ok_def
      by (rule replica_core_extend [OF core _ wf run(1)]) (use run(2) mem key in simp_all)
    ultimately show ?thesis using key wf by (auto simp: tick next_local_tag_def)
  next
    case False
    from app(2) [OF False] obtain e where e: "is_unknown_target e"
        "session_apply oper ?tag (tl_session c) = (Inl e, tl_session c)" by auto
    let ?d = "c\<lparr>tl_lamport := clk, tl_clock := ?vc, tl_pending := tl_pending c @ [?t],
      tl_log := tl_log c @ [?t], tl_seen := finsert (op_id ?t) (tl_seen c)\<rparr>"
    have "apply_local_internal oper rec now c = Some (?t, ?d)"
      using e undo by (cases rec) (simp_all add: apply_local_internal_def tick Let_def)
    moreover have "replica_ok X es ?d"
      unfolding replica_ok_def
      by (rule replica_core_extend [OF core _ wf])
        (use core mem key in \<open>simp_all add: replica_core_def\<close>)
    ultimately show ?thesis using key wf by (auto simp: tick next_local_tag_def)
  qed
qed

section \<open>Determinacy\<close>

lemma replica_ok_executed: "replica_ok X es c \<Longrightarrow> set es \<subseteq> X"
proof -
  assume "replica_ok X es c"
  then have "set es \<union> op_key ` set (tl_pending c) = op_key ` set (tl_log c)"
    "op_key ` set (tl_log c) \<subseteq> X" by (simp_all add: replica_ok_def replica_core_def)
  then show ?thesis by blast
qed

lemma quiescent_replicas_agree:
  assumes "replica_ok X es c" and "replica_ok X fs d" and X: "valid_ops X"
    and "quiescent c" and "quiescent d"
    and "op_key ` set (tl_log c) = op_key ` set (tl_log d)"
  shows "tl_session c = tl_session d" and "op_key ` set (tl_pending c) - set es = op_key ` set (tl_pending d) - set fs"
proof -
  note es = replica_ok_executed [OF assms(1)] and fs = replica_ok_executed [OF assms(2)]
  have sessions: "tl_session c = fold op_effect es session_new" "tl_session d = fold op_effect fs session_new"
    and run: "runs op_enabled op_effect es session_new" "runs op_enabled op_effect fs session_new"
    and logs: "set es \<union> op_key ` set (tl_pending c) = op_key ` set (tl_log c)"
      "set fs \<union> op_key ` set (tl_pending d) = op_key ` set (tl_log d)"
    using assms(1,2) by (simp_all add: replica_ok_def replica_core_def)
  have "set es \<union> op_key ` set (tl_pending c) = set fs \<union> op_key ` set (tl_pending d)"
    using logs assms(6) by simp
  note agree = session_crdt.stuck_runs_agree [OF run this]
  have "\<forall>p \<in> op_key ` set (tl_pending c). \<not> op_enabled p (fold op_effect es session_new)"
    "\<forall>p \<in> op_key ` set (tl_pending d). \<not> op_enabled p (fold op_effect fs session_new)"
    using assms(4,5) by (simp_all add: quiescent_def sessions)
  note agree = agree [OF this valid_ops_pairwise [OF X es] valid_ops_pairwise [OF X fs]]
  show "tl_session c = tl_session d" using agree(2) by (simp add: sessions)
  show "op_key ` set (tl_pending c) - set es = op_key ` set (tl_pending d) - set fs"
    using agree(1) \<open>set es \<union> op_key ` set (tl_pending c) = set fs \<union> op_key ` set (tl_pending d)\<close>
    by blast
qed

end
