(* ===== verification/Convergence.thy ===== *)
theory Convergence
  imports Replica
begin

text \<open>
  Replicas together. The first section proves the replication contract of
  \<open>TimelineCrdt\<close> for any delivery order and any duplicates; the second models a system of
  peers that edit, undo, redo and deliver each other's operations as a step relation, and
  carries the contract to every reachable state. Tag uniqueness is derived there from the
  Lamport clocks; that split children are fresh ids is the guard of the local steps.
\<close>

section \<open>Delivery order\<close>

definition deliverable :: "tagged_operation list \<Rightarrow> bool" where
  "deliverable xs \<longleftrightarrow> valid_ops (op_key ` set xs) \<and> (\<forall>x \<in> set xs. well_formed_op x)"

lemma deliver_to_new:
  assumes "deliverable xs"
  shows "\<exists>c es. apply_remote_all xs (timeline_new p) = Some c \<and> replica_ok (op_key ` set xs) es c \<and>
    quiescent c \<and> op_key ` set (tl_log c) = op_key ` set xs"
proof -
  from apply_remote_all_ok [of "op_key ` set xs" "[]" "timeline_new p" xs] assms
  obtain c es where "apply_remote_all xs (timeline_new p) = Some c"
    "replica_ok (op_key ` set xs) es c" "quiescent c"
    "op_key ` set (tl_log c) = op_key ` set (tl_log (timeline_new p)) \<union> op_key ` set xs"
    by (auto simp: deliverable_def)
  moreover have "tl_log (timeline_new p) = []" by (simp add: timeline_new_def)
  ultimately show ?thesis by auto
qed

lemma deliverable_cong: "set xs = set ys \<Longrightarrow> deliverable xs = deliverable ys"
  by (simp add: deliverable_def)

lemma delivered_sessions_agree:
  assumes xs: "deliverable xs" "set xs = set ys"
    and c: "apply_remote_all xs (timeline_new p) = Some c"
    and d: "apply_remote_all ys (timeline_new q) = Some d"
  shows "tl_session c = tl_session d"
proof -
  have ys: "deliverable ys" using xs deliverable_cong by blast
  obtain es where es: "replica_ok (op_key ` set xs) es c" "quiescent c"
    "op_key ` set (tl_log c) = op_key ` set xs" using deliver_to_new [OF xs(1), of p] c by auto
  obtain fs where fs: "replica_ok (op_key ` set xs) fs d" "quiescent d"
    "op_key ` set (tl_log d) = op_key ` set xs" using deliver_to_new [OF ys, of q] d xs(2) by auto
  have "valid_ops (op_key ` set xs)" using xs(1) by (simp add: deliverable_def)
  from quiescent_replicas_agree [OF es(1) fs(1) this es(2) fs(2)] es(3) fs(3) show ?thesis by simp
qed

lemma delivered_view_exists:
  assumes "deliverable xs" and "apply_remote_all xs (timeline_new p) = Some c"
  shows "\<exists>v. timeline_view c = Some v"
proof -
  obtain es where "replica_ok (op_key ` set xs) es c"
    using deliver_to_new [OF assms(1), of p] assms(2) by auto
  moreover have "valid_ops (op_key ` set xs)" using assms(1) by (simp add: deliverable_def)
  ultimately have "parents_wf (tl_session c)" by (intro replica_core_wf) (auto simp: replica_ok_def)
  then show ?thesis using materialize_returns by (auto simp: timeline_view_def)
qed

text \<open>Claim C1. The replication contract: two fresh replicas that receive the
  same operations, in any two orders and with any duplicates, both return from every
  delivery and end with identical sessions, hence identical views, and the views exist. The
  operations need the discipline of \<open>Session_Laws\<close>: unique tags, well-formed ids and
  fresh split children; missing targets are handled by the buffer.\<close>

theorem delivery_order_irrelevant:
  assumes "deliverable xs" and "set xs = set ys"
  shows "\<exists>c d. apply_remote_all xs (timeline_new p) = Some c \<and>
    apply_remote_all ys (timeline_new q) = Some d \<and> tl_session c = tl_session d \<and>
    timeline_view c = timeline_view d \<and> timeline_view c \<noteq> None"
proof -
  have ys: "deliverable ys" using assms deliverable_cong by blast
  obtain c es where c: "apply_remote_all xs (timeline_new p) = Some c"
    "replica_ok (op_key ` set xs) es c" using deliver_to_new [OF assms(1), of p] by blast
  obtain d where d: "apply_remote_all ys (timeline_new q) = Some d"
    using deliver_to_new [OF ys, of q] by blast
  have eq: "tl_session c = tl_session d"
    by (rule delivered_sessions_agree [OF assms c(1) d])
  have "timeline_view c \<noteq> None" using delivered_view_exists [OF assms(1) c(1)] by simp
  with c(1) d eq show ?thesis by (auto simp: timeline_view_def)
qed

text \<open>Two peers: a rename and a split race, the buffer holds what arrives early.\<close>

definition example_op :: "u64 \<Rightarrow> u64 \<Rightarrow> timeline_operation \<Rightarrow> tagged_operation" where
  "example_op l p oper = \<lparr>op_id = OperationId l (PeerId p), operation = oper, lamport_ts = l,
     op_clock = vc_new, op_peer = PeerId p, timestamp = 0\<rparr>"

definition example_ops :: "tagged_operation list" where
  "example_ops =
     [example_op 1 1 (InsertTrack (TrackId 1) (track_data_new ''A1'') 0),
      example_op 2 1 (InsertClip (ClipId 1) (TrackId 1) (clip_data_new ''a'' 0 1000) 0),
      example_op 3 2 (SplitClip (ClipId 1) 400 (ClipId 2)),
      example_op 3 1 (DeleteClip (ClipId 2))]"

lemma example_ops_deliverable: "deliverable example_ops"
  by (simp add: deliverable_def example_ops_def example_op_def valid_ops_def ops_compatible_def
      origin_compatible_def split_of_def insert_target_def op_key_def op_tag_of_def
      well_formed_op_def op_tag_initial_def)

theorem delivery_order_irrelevant_witness:
  "\<exists>c d. apply_remote_all example_ops (timeline_new (PeerId 8)) = Some c \<and>
    apply_remote_all (rev example_ops @ example_ops) (timeline_new (PeerId 9)) = Some d \<and>
    tl_session c = tl_session d \<and> timeline_view c = timeline_view d \<and> timeline_view c \<noteq> None"
  by (rule delivery_order_irrelevant [OF example_ops_deliverable]) simp

section \<open>Register tags come from executed operations\<close>

lemma clip_tags_apply: "set (clip_tags (clip_apply oper t r)) \<subseteq> insert t (set (clip_tags r))"
  by (cases oper) (auto simp: clip_tags_def clip_simps lww.stamp_put lww_set_opt_tag max_def)

lemma clip_tags_claim: "set (clip_tags (clip_claim p f t r)) \<subseteq> insert t (set (clip_tags r))"
  by (auto simp: clip_tags_def clip_claim_def lww.stamp_put max_def)

lemma clip_tags_record [simp]: "clip_tags (clip_record_split f c r) = clip_tags r"
  by (simp add: clip_tags_def clip_record_split_eq)

lemma track_tags_apply: "set (track_tags (track_apply oper t r)) \<subseteq> insert t (set (track_tags r))"
  by (cases oper) (auto simp: track_tags_def lww.stamp_put lww_set_opt_tag max_def)

lemma blank_tags [simp]:
  "set (clip_tags clip_blank) = {op_tag_initial}" "set (track_tags track_blank) = {op_tag_initial}"
  by (simp_all add: clip_tags_def clip_blank_def clip_from_split_def track_tags_def track_blank_def)

text \<open>The tags of a session as a set.\<close>

definition tag_set :: "session \<Rightarrow> op_tag set" where
  "tag_set s = {t. (\<exists>c r. fmlookup (ss_clips s) c = Some r \<and> t \<in> set (clip_tags r)) \<or>
     (\<exists>k r. fmlookup (ss_tracks s) k = Some r \<and> t \<in> set (track_tags r)) \<or>
     (\<exists>k r. fmlookup (ss_envelopes s) k = Some r \<and> t = reg_tag r) \<or>
     t \<in> set (session_metadata_tags s)}"

lemma set_session_tags: "set (session_tags s) = tag_set s"
proof -
  have "t \<in> set (session_tags s) \<longleftrightarrow> t \<in> tag_set s" for t
    unfolding session_tags_def tag_set_def set_append set_concat set_map
    by (simp add: env_tags_mem, simp only: Un_iff UN_iff image_iff Bex_def split_paired_Ex
        set_btree_entries prod.case) (force simp: env_tags_mem)
  then show ?thesis by blast
qed

lemma tag_set_cong:
  "ss_clips s = ss_clips s' \<Longrightarrow> ss_tracks s = ss_tracks s' \<Longrightarrow> ss_envelopes s = ss_envelopes s' \<Longrightarrow>
    ss_metadata s = ss_metadata s' \<Longrightarrow> tag_set s = tag_set s'"
  by (simp add: tag_set_def session_metadata_tags_def)

lemma tag_set_clip_effect:
  assumes "\<And>r. set (clip_tags (g r)) \<subseteq> insert t (set (clip_tags r))"
  shows "tag_set (clip_effect c g s) \<subseteq> {t, op_tag_initial} \<union> tag_set s"
proof
  fix u
  assume u: "u \<in> tag_set (clip_effect c g s)"
  have same: "session_metadata_tags (clip_effect c g s) = session_metadata_tags s"
    by (simp add: session_metadata_tags_def)
  show "u \<in> {t, op_tag_initial} \<union> tag_set s"
  proof (cases "\<exists>d r. fmlookup (ss_clips (clip_effect c g s)) d = Some r \<and> u \<in> set (clip_tags r)")
    case True
    then obtain d r where r: "fmlookup (ss_clips (clip_effect c g s)) d = Some r" "u \<in> set (clip_tags r)"
      by blast
    show ?thesis
    proof (cases "d = c")
      case False
      with r show ?thesis by (auto simp: tag_set_def)
    next
      case True
      define r0 where "r0 = (case fmlookup (ss_clips s) c of None \<Rightarrow> clip_blank | Some v \<Rightarrow> v)"
      have "r = g r0" using r(1) True by (simp add: r0_def)
      with r(2) assms [of r0] have "u = t \<or> u \<in> set (clip_tags r0)" by auto
      then show ?thesis
        by (auto simp: r0_def tag_set_def split: option.splits)
    qed
  next
    case False
    with u show ?thesis by (auto simp: tag_set_def same simp del: clip_effect_other_fields(4))
  qed
qed

lemma tag_set_track_effect:
  assumes "\<And>r. set (track_tags (g r)) \<subseteq> insert t (set (track_tags r))"
  shows "tag_set (track_effect c g s) \<subseteq> {t, op_tag_initial} \<union> tag_set s"
proof
  fix u
  assume u: "u \<in> tag_set (track_effect c g s)"
  have same: "session_metadata_tags (track_effect c g s) = session_metadata_tags s"
    by (simp add: session_metadata_tags_def)
  show "u \<in> {t, op_tag_initial} \<union> tag_set s"
  proof (cases "\<exists>d r. fmlookup (ss_tracks (track_effect c g s)) d = Some r \<and> u \<in> set (track_tags r)")
    case True
    then obtain d r where r: "fmlookup (ss_tracks (track_effect c g s)) d = Some r"
        "u \<in> set (track_tags r)"
      by blast
    show ?thesis
    proof (cases "d = c")
      case False
      with r show ?thesis by (auto simp: tag_set_def)
    next
      case True
      define r0 where "r0 = (case fmlookup (ss_tracks s) c of None \<Rightarrow> track_blank | Some v \<Rightarrow> v)"
      have "r = g r0" using r(1) True by (simp add: r0_def)
      with r(2) assms [of r0] have "u = t \<or> u \<in> set (track_tags r0)" by auto
      then show ?thesis
        by (auto simp: r0_def tag_set_def split: option.splits)
    qed
  next
    case False
    with u show ?thesis by (auto simp: tag_set_def same simp del: track_effect_other_fields(4))
  qed
qed

lemma tag_set_effect: "tag_set (session_effect oper t s) \<subseteq> {t, op_tag_initial} \<union> tag_set s"
proof (cases oper rule: operation_shapes)
  case (clip c)
  then show ?thesis by (simp only: session_effect_clip tag_set_clip_effect [OF clip_tags_apply])
next
  case (track k)
  then show ?thesis by (simp only: session_effect_track tag_set_track_effect [OF track_tags_apply])
next
  case (split p f c)
  have "tag_set (clip_effect p (clip_record_split f c) s) \<subseteq> {t, op_tag_initial} \<union> tag_set s"
    by (rule tag_set_clip_effect) auto
  with tag_set_clip_effect [of "clip_claim p f t" t c "clip_effect p (clip_record_split f c) s", OF clip_tags_claim]
  show ?thesis by (auto simp: split)
next
  case (envelope a e v)
  show ?thesis unfolding envelope tag_set_def
    by (auto simp: env_set_def lww.stamp_put max_def env_entry_def session_metadata_tags_def
        lww_new_initial_def split: if_splits option.splits)
next
  case (metadata u)
  show ?thesis unfolding metadata tag_set_def
    by (auto simp: session_metadata_tags_def session_metadata_apply_def lww_set_opt_tag max_def)
qed

lemma tag_set_new: "tag_set session_new = {op_tag_initial}"
  by (auto simp: tag_set_def session_new_def session_metadata_tags_def session_metadata_default_def
      env_new_def)

lemma tag_set_runs: "tag_set (fold op_effect es s) \<subseteq> insert op_tag_initial (snd ` set es) \<union> tag_set s"
proof (induction es arbitrary: s)
  case (Cons x es)
  have "tag_set (fold op_effect es (op_effect x s)) \<subseteq>
      insert op_tag_initial (snd ` set es) \<union> tag_set (op_effect x s)" by (rule Cons.IH)
  also have "\<dots> \<subseteq> insert op_tag_initial (snd ` set (x # es)) \<union> tag_set s"
    using tag_set_effect [of "fst x" "snd x" s] by (auto simp: op_effect_def)
  finally show ?case by simp
qed auto

lemma replica_tags:
  assumes "replica_ok X es c"
  shows "tag_set (tl_session c) \<subseteq> insert op_tag_initial (op_tag_of ` set (tl_log c))"
proof -
  have s: "tl_session c = fold op_effect es session_new"
    and keys: "set es \<subseteq> op_key ` set (tl_log c)"
    using assms by (auto simp: replica_ok_def replica_core_def)
  have "snd ` set es \<subseteq> op_tag_of ` set (tl_log c)" using keys by (force simp: op_key_def)
  moreover have "tag_set (tl_session c) \<subseteq> insert op_tag_initial (snd ` set es)"
    using tag_set_runs [of es session_new] by (simp add: s tag_set_new)
  ultimately show ?thesis by blast
qed

section \<open>A system of peers\<close>

text \<open>
  Every replica, and the operations issued so far by anyone (each may be delivered to any
  replica, at any time, any number of times).
\<close>

record system =
  sys_replica :: "peer_id \<Rightarrow> timeline_crdt"
  sys_issued :: "tagged_operation set"

definition system_init :: system where
  "system_init = \<lparr>sys_replica = timeline_new, sys_issued = {}\<rparr>"

text \<open>An edit whose split child or insert target does not clash with an issued split.\<close>

definition admissible :: "timeline_operation \<Rightarrow> tagged_operation set \<Rightarrow> bool" where
  "admissible oper Y \<longleftrightarrow>
     (\<forall>y \<in> Y. origin_compatible oper (operation y) \<and> origin_compatible (operation y) oper)"

text \<open>The Lamport counter of the peer has not reached its saturation point.\<close>

definition clock_ok :: "timeline_crdt \<Rightarrow> bool" where
  "clock_ok c \<longleftrightarrow> lamport_get (tl_lamport c) < u64_max"

definition issue :: "peer_id \<Rightarrow> tagged_operation \<Rightarrow> timeline_crdt \<Rightarrow> system \<Rightarrow> system" where
  "issue p x c S = S\<lparr>sys_replica := (sys_replica S)(p := c), sys_issued := insert x (sys_issued S)\<rparr>"

inductive sys_step :: "system \<Rightarrow> system \<Rightarrow> bool" where
  local: "apply_local oper now (sys_replica S p) = Some (x, c) \<Longrightarrow> clock_ok (sys_replica S p) \<Longrightarrow>
    admissible oper (sys_issued S) \<Longrightarrow> sys_step S (issue p x c S)"
| undo: "timeline_undo now (sys_replica S p) = Some (Some x, c) \<Longrightarrow> clock_ok (sys_replica S p) \<Longrightarrow>
    admissible (operation x) (sys_issued S) \<Longrightarrow> sys_step S (issue p x c S)"
| redo: "timeline_redo now (sys_replica S p) = Some (Some x, c) \<Longrightarrow> clock_ok (sys_replica S p) \<Longrightarrow>
    admissible (operation x) (sys_issued S) \<Longrightarrow> sys_step S (issue p x c S)"
| deliver: "x \<in> sys_issued S \<Longrightarrow> apply_remote x (sys_replica S p) = Some (r, c) \<Longrightarrow>
    sys_step S (S\<lparr>sys_replica := (sys_replica S)(p := c)\<rparr>)"

inductive sys_reachable :: "system \<Rightarrow> bool" where
  start: "sys_reachable system_init"
| step: "sys_reachable S \<Longrightarrow> sys_step S T \<Longrightarrow> sys_reachable T"

inductive_cases sys_stepE: "sys_step S T"

text \<open>The invariant of the system.\<close>

definition sys_keys :: "system \<Rightarrow> (timeline_operation \<times> op_tag) set" where
  "sys_keys S = op_key ` sys_issued S"

definition replica_inv :: "system \<Rightarrow> peer_id \<Rightarrow> bool" where
  "replica_inv S p \<longleftrightarrow> (let c = sys_replica S p in
     tl_local_peer c = p \<and> (\<exists>es. replica_ok (sys_keys S) es c) \<and>
     (\<forall>x \<in> sys_issued S. op_peer x = p \<longrightarrow> lamport_ts x \<le> lamport_get (tl_lamport c)) \<and>
     (\<forall>x \<in> set (tl_log c). x \<in> sys_issued S \<and> lamport_ts x \<le> lamport_get (tl_lamport c)))"

definition sys_inv :: "system \<Rightarrow> bool" where
  "sys_inv S \<longleftrightarrow> valid_ops (sys_keys S) \<and> (\<forall>x \<in> sys_issued S. well_formed_op x) \<and>
     (\<forall>p. replica_inv S p)"

lemma sys_inv_init: "sys_inv system_init"
  by (auto simp: sys_inv_def system_init_def sys_keys_def valid_ops_def replica_inv_def
      timeline_new_def replica_ok_def replica_core_def intro!: exI [of _ "[]"])

text \<open>The tag of the next local operation is fresh.\<close>

lemma next_tag_above:
  assumes "clock_ok c" "l \<le> lamport_get (tl_lamport c)"
  shows "l < tag_lamport (next_local_tag c)"
  using assms lamport_tick_gt [of "tl_lamport c"]
  by (auto simp: next_local_tag_def clock_ok_def lamport_get_def intro: le_less_trans)

lemma sys_inv_fresh_tag:
  assumes inv: "sys_inv S" and clk: "clock_ok (sys_replica S p)" and x: "x \<in> sys_issued S"
  shows "op_tag_of x \<noteq> next_local_tag (sys_replica S p)"
proof
  assume eq: "op_tag_of x = next_local_tag (sys_replica S p)"
  have p: "replica_inv S p" using inv by (simp add: sys_inv_def)
  then have "op_peer x = p" using eq by (simp add: replica_inv_def Let_def op_tag_of_def next_local_tag_def)
  then have "lamport_ts x \<le> lamport_get (tl_lamport (sys_replica S p))"
    using p x by (simp add: replica_inv_def Let_def)
  from next_tag_above [OF clk this] eq show False by (metis less_irrefl op_tag.sel(1) op_tag_of_def)
qed

lemma valid_ops_issue:
  assumes inv: "sys_inv S" and clk: "clock_ok (sys_replica S p)"
    and adm: "admissible oper (sys_issued S)"
  shows "valid_ops (insert (oper, next_local_tag (sys_replica S p)) (sys_keys S))"
proof -
  let ?t = "next_local_tag (sys_replica S p)"
  have X: "valid_ops (sys_keys S)" using inv by (simp add: sys_inv_def)
  have "op_tag_initial < ?t"
    using next_tag_above [OF clk, of 0] by (intro op_tag_initial_less) simp
  moreover have "ops_compatible (oper, ?t) y \<and> ops_compatible y (oper, ?t)" if "y \<in> sys_keys S" for y
  proof -
    obtain x where x: "x \<in> sys_issued S" "y = op_key x" using \<open>y \<in> sys_keys S\<close> by (auto simp: sys_keys_def)
    with sys_inv_fresh_tag [OF inv clk x(1)] adm show ?thesis
      by (auto simp: ops_compatible_def op_key_def admissible_def)
  qed
  moreover have "ops_compatible (oper, ?t) (oper, ?t)" by (simp add: ops_compatible_def)
  ultimately show ?thesis using X by (simp add: valid_ops_def)
qed

lemma replica_ok_history [simp]:
  "replica_ok X es (c\<lparr>tl_history := h\<rparr>) = replica_ok X es c"
  "next_local_tag (c\<lparr>tl_history := h\<rparr>) = next_local_tag c"
  by (simp_all add: replica_ok_def replica_core_def next_local_tag_def)

lemma sys_inv_issue:
  assumes inv: "sys_inv S" and clk: "clock_ok (sys_replica S p)"
    and adm: "admissible oper (sys_issued S)"
    and ok: "replica_ok (insert (oper, next_local_tag (sys_replica S p)) (sys_keys S)) es c"
    and x: "op_key x = (oper, next_local_tag (sys_replica S p))" "well_formed_op x"
    and c: "tl_log c = tl_log (sys_replica S p) @ [x]" "tl_local_peer c = p"
      "tl_lamport c = snd (lamport_tick (tl_lamport (sys_replica S p)))"
  shows "sys_inv (issue p x c S)"
proof -
  let ?T = "issue p x c S"
  have keys: "sys_keys ?T = insert (oper, next_local_tag (sys_replica S p)) (sys_keys S)"
    using x(1) by (simp add: sys_keys_def issue_def)
  have pinv: "replica_inv S p" using inv by (simp add: sys_inv_def)
  then have lp: "tl_local_peer (sys_replica S p) = p" by (simp add: replica_inv_def Let_def)
  have xp: "op_peer x = p" "lamport_ts x = lamport_get (tl_lamport c)"
    using x(1) lp c(3) by (simp_all add: op_key_def op_tag_of_def next_local_tag_def lamport_get_def
        lamport_tick_value)
  have up: "lamport_get (tl_lamport (sys_replica S p)) \<le> lamport_get (tl_lamport c)"
    using lamport_tick_ge by (simp add: c(3) lamport_get_def)
  have "replica_inv ?T q" for q
  proof (cases "q = p")
    case True
    have "\<forall>y \<in> sys_issued S. op_peer y = p \<longrightarrow> lamport_ts y \<le> lamport_get (tl_lamport c)"
      "\<forall>y \<in> set (tl_log (sys_replica S p)). y \<in> sys_issued S \<and> lamport_ts y \<le> lamport_get (tl_lamport c)"
      using pinv up by (auto simp: replica_inv_def Let_def intro: order_trans)
    with True ok xp c show ?thesis
      by (auto simp: replica_inv_def keys Let_def) (auto simp: issue_def)
  next
    case False
    have "replica_inv S q" using inv by (simp add: sys_inv_def)
    then show ?thesis using False xp
      by (auto simp: replica_inv_def issue_def Let_def keys [unfolded issue_def] replica_ok_def
          intro: replica_core_mono)
  qed
  moreover have "valid_ops (sys_keys ?T)" unfolding keys by (rule valid_ops_issue [OF inv clk adm])
  ultimately show ?thesis using inv x(2) by (simp add: sys_inv_def) (simp add: issue_def)
qed

lemma sys_inv_apply_local_internal:
  assumes inv: "sys_inv S" and clk: "clock_ok (sys_replica S p)"
    and adm: "admissible oper (sys_issued S)"
    and app: "apply_local_internal oper rec now ((sys_replica S p)\<lparr>tl_history := h\<rparr>) = Some (x, c)"
  shows "sys_inv (issue p x (c\<lparr>tl_history := h'\<rparr>) S)"
proof -
  let ?c = "sys_replica S p"
  let ?X = "insert (oper, next_local_tag ?c) (sys_keys S)"
  have pinv: "replica_inv S p" using inv by (simp add: sys_inv_def)
  then obtain es where "replica_ok (sys_keys S) es ?c" and lp: "tl_local_peer ?c = p"
    by (auto simp: replica_inv_def Let_def)
  then have "replica_ok ?X es (?c\<lparr>tl_history := h\<rparr>)"
    by (auto simp: replica_ok_def replica_core_def)
  from apply_local_internal_ok [OF this valid_ops_issue [OF inv clk adm], of oper rec now] app
  obtain es' where "replica_ok ?X es' c" "tl_log c = tl_log ?c @ [x]" "op_key x = (oper, next_local_tag ?c)"
    "well_formed_op x" "tl_local_peer c = tl_local_peer ?c"
    "tl_lamport c = snd (lamport_tick (tl_lamport ?c))"
    by auto
  with lp show ?thesis
    by (intro sys_inv_issue [OF inv clk adm, of es']) simp_all
qed

lemma apply_local_internal_operation:
  "apply_local_internal oper rec now c = Some (x, d) \<Longrightarrow> operation x = oper"
  by (auto simp: apply_local_internal_def Let_def split: prod.splits sum.splits if_splits
      bind_splits option.splits)

lemma sys_inv_deliver:
  assumes inv: "sys_inv S" and x: "x \<in> sys_issued S"
    and app: "apply_remote x (sys_replica S p) = Some (r, c)"
  shows "sys_inv (S\<lparr>sys_replica := (sys_replica S)(p := c)\<rparr>)"
proof -
  let ?c = "sys_replica S p"
  let ?T = "S\<lparr>sys_replica := (sys_replica S)(p := c)\<rparr>"
  have keys: "sys_keys ?T = sys_keys S" by (simp add: sys_keys_def)
  have X: "valid_ops (sys_keys S)" using inv by (simp add: sys_inv_def)
  have pinv: "replica_inv S p" using inv by (simp add: sys_inv_def)
  then obtain es where ok: "replica_ok (sys_keys S) es ?c" by (auto simp: replica_inv_def Let_def)
  have xk: "op_key x \<in> sys_keys S" "well_formed_op x" using x inv by (auto simp: sys_keys_def sys_inv_def)
  have "replica_inv ?T q" for q
  proof (cases "q = p")
    case False
    then show ?thesis using inv by (simp add: sys_inv_def replica_inv_def keys)
  next
    case True
    show ?thesis
    proof (cases "op_id x |\<in>| tl_seen ?c")
      case seen: True
      with app have "c = ?c" by (simp add: apply_remote_seen)
      with True pinv show ?thesis by (simp add: replica_inv_def keys)
    next
      case False
      from apply_remote_fresh [OF ok X xk False] app obtain es' where
        c: "replica_ok (sys_keys S) es' c" "tl_log c = tl_log ?c @ [x]"
          "tl_local_peer c = tl_local_peer ?c"
          "tl_lamport c = lamport_observe (tl_lamport ?c) (lamport_ts x)" by auto
      have counter: "lamport_get (lamport_observe clk l) = max (lamport_get clk) l" for clk l
        by (simp add: lamport_get_def)
      from True pinv c x show ?thesis
        by (auto simp: replica_inv_def Let_def keys counter le_max_iff_disj)
    qed
  qed
  with inv show ?thesis by (simp add: sys_inv_def keys)
qed

lemma sys_inv_step: "sys_step S T \<Longrightarrow> sys_inv S \<Longrightarrow> sys_inv T"
proof (induction rule: sys_step.induct)
  case (local oper now S p x c)
  from sys_inv_apply_local_internal [OF local(4,2,3), of True now "tl_history (sys_replica S p)" x c "tl_history c"]
    local(1)
  show ?case by (simp add: apply_local_def)
next
  case (undo now S p x c)
  then obtain e h d where d: "apply_local_internal (he_inverse e) False now
      ((sys_replica S p)\<lparr>tl_history := h\<rparr>) = Some (x, d)"
    "c = d\<lparr>tl_history := push_redo e (tl_history d)\<rparr>"
    by (auto simp: timeline_undo_def split: prod.splits option.splits bind_splits)
  then have "operation x = he_inverse e" by (simp add: apply_local_internal_operation)
  with undo(3) have adm: "admissible (he_inverse e) (sys_issued S)" by simp
  show ?case unfolding d(2) by (rule sys_inv_apply_local_internal [OF undo(4,2) adm d(1)])
next
  case (redo now S p x c)
  then obtain e h d where d: "apply_local_internal (he_forward e) False now
      ((sys_replica S p)\<lparr>tl_history := h\<rparr>) = Some (x, d)"
    "c = d\<lparr>tl_history := push_undo e (tl_history d)\<rparr>"
    by (auto simp: timeline_redo_def split: prod.splits option.splits bind_splits)
  then have "operation x = he_forward e" by (simp add: apply_local_internal_operation)
  with redo(3) have adm: "admissible (he_forward e) (sys_issued S)" by simp
  show ?case unfolding d(2) by (rule sys_inv_apply_local_internal [OF redo(4,2) adm d(1)])
next
  case (deliver x S p r c)
  then show ?case by (intro sys_inv_deliver)
qed

lemma sys_inv_reachable: "sys_reachable S \<Longrightarrow> sys_inv S"
  by (induction rule: sys_reachable.induct) (simp_all add: sys_inv_init sys_inv_step)

lemma sys_replica_ok:
  assumes "sys_reachable S"
  obtains es where "replica_ok (sys_keys S) es (sys_replica S p)" "valid_ops (sys_keys S)"
proof -
  have "sys_inv S" using assms by (rule sys_inv_reachable)
  then have "replica_inv S p" "valid_ops (sys_keys S)" by (simp_all add: sys_inv_def)
  with that show ?thesis by (auto simp: replica_inv_def Let_def)
qed

text \<open>Operations are determined by their ids.\<close>

lemma seen_determines_keys:
  assumes "replica_ok X es c" "replica_ok X fs d" "valid_ops X" "fset (tl_seen c) = fset (tl_seen d)"
  shows "op_key ` set (tl_log c) \<subseteq> op_key ` set (tl_log d)"
proof
  fix k
  assume "k \<in> op_key ` set (tl_log c)"
  then obtain x where x: "x \<in> set (tl_log c)" "k = op_key x" by blast
  with assms have "op_id x |\<in>| tl_seen d" by (auto simp: replica_ok_def replica_core_def)
  with assms(1) x show "k \<in> op_key ` set (tl_log d)"
    using replica_ok_seen_key [OF assms(2,3), of x] by (auto simp: replica_ok_def replica_core_def)
qed

text \<open>Claim C2. Strong convergence of the system: in every state that peers can
  reach by editing, undoing, redoing and delivering operations in any order, two
  replicas that have seen the same operation ids and whose buffers are stuck have equal
  sessions, and both can render their view.\<close>

theorem reachable_replicas_converge:
  assumes "sys_reachable S"
    and "tl_seen (sys_replica S p) = tl_seen (sys_replica S q)"
    and "quiescent (sys_replica S p)" and "quiescent (sys_replica S q)"
  shows "tl_session (sys_replica S p) = tl_session (sys_replica S q) \<and>
    timeline_view (sys_replica S p) \<noteq> None"
proof -
  obtain es where p: "replica_ok (sys_keys S) es (sys_replica S p)" and X: "valid_ops (sys_keys S)"
    by (rule sys_replica_ok [OF assms(1)])
  obtain fs where q: "replica_ok (sys_keys S) fs (sys_replica S q)"
    by (rule sys_replica_ok [OF assms(1)])
  have "op_key ` set (tl_log (sys_replica S p)) = op_key ` set (tl_log (sys_replica S q))"
    using seen_determines_keys [OF p q X] seen_determines_keys [OF q p X] assms(2) by simp
  then have "tl_session (sys_replica S p) = tl_session (sys_replica S q)"
    using quiescent_replicas_agree [OF p q X assms(3,4)] by simp
  moreover have "parents_wf (tl_session (sys_replica S p))"
    using p by (intro replica_core_wf [OF _ X]) (simp add: replica_ok_def)
  ultimately show ?thesis using materialize_returns by (auto simp: timeline_view_def)
qed

lemma reachable_tags_below:
  assumes "sys_reachable S" and "clock_ok (sys_replica S p)"
  shows "\<forall>t \<in> set (session_tags (tl_session (sys_replica S p))). t < next_local_tag (sys_replica S p)"
proof
  fix t
  let ?c = "sys_replica S p"
  assume t: "t \<in> set (session_tags (tl_session ?c))"
  have pinv: "replica_inv S p" using sys_inv_reachable [OF assms(1)] by (simp add: sys_inv_def)
  obtain es where p: "replica_ok (sys_keys S) es ?c" by (rule sys_replica_ok [OF assms(1)])
  have "t \<in> insert op_tag_initial (op_tag_of ` set (tl_log ?c))"
    using replica_tags [OF p] t by (auto simp: set_session_tags)
  then have "tag_lamport t \<le> lamport_get (tl_lamport ?c)"
    using pinv by (auto simp: replica_inv_def Let_def op_tag_of_def op_tag_initial_def)
  then show "t < next_local_tag ?c" using next_tag_above [OF assms(2)] by (blast intro: op_tag_less_lamport)
qed

text \<open>Claim C12. A local write always wins: in every reachable state the tag a
  replica gives its next local operation is greater than the tag of every register of its
  session, so the operation's registers take its values whatever arrived before. This is
  the reason given in the code for reporting no resolution event on local edits.\<close>

theorem local_tag_dominates:
  assumes "sys_reachable S" and "clock_ok (sys_replica S p)"
    and "t \<in> set (session_tags (tl_session (sys_replica S p)))"
  shows "t < next_local_tag (sys_replica S p)"
  using reachable_tags_below [OF assms(1,2)] assms(3) by blast

text \<open>Peer 1 inserts a track and peer 2 receives the insert.\<close>

definition example_edit :: timeline_operation where
  "example_edit = InsertTrack (TrackId 1) (track_data_new ''A1'') 0"

definition example_issue :: "tagged_operation \<times> timeline_crdt" where
  "example_issue = the (apply_local example_edit 0 (timeline_new (PeerId 1)))"

definition example_receipt :: "unit result \<times> timeline_crdt" where
  "example_receipt = the (apply_remote (fst example_issue) (timeline_new (PeerId 2)))"

definition example_issued :: system where
  "example_issued = issue (PeerId 1) (fst example_issue) (snd example_issue) system_init"

definition example_system :: system where
  "example_system = example_issued\<lparr>sys_replica :=
     (sys_replica example_issued)(PeerId 2 := snd example_receipt)\<rparr>"

lemma example_issued_reachable: "sys_reachable example_issued"
proof (rule sys_reachable.step [OF sys_reachable.start])
  have "apply_local example_edit 0 (timeline_new (PeerId 1)) \<noteq> None" by code_simp
  then have issue: "apply_local example_edit 0 (sys_replica system_init (PeerId 1)) =
      Some (fst example_issue, snd example_issue)"
    by (simp add: example_issue_def system_init_def)
  have "clock_ok (timeline_new (PeerId 1))" by code_simp
  then show "sys_step system_init example_issued"
    unfolding example_issued_def
    by (intro sys_step.local [OF issue]) (simp_all add: system_init_def admissible_def)
qed

lemma example_system_reachable: "sys_reachable example_system"
proof (rule sys_reachable.step [OF example_issued_reachable])
  have "apply_remote (fst example_issue) (timeline_new (PeerId 2)) \<noteq> None" by code_simp
  then show "sys_step example_issued example_system"
    unfolding example_system_def
    by (intro sys_step.deliver [of "fst example_issue" _ _ "fst example_receipt"])
      (simp_all add: example_issued_def example_receipt_def issue_def system_init_def)
qed

lemma example_system_replicas:
  "sys_replica example_system (PeerId 1) = snd example_issue"
  "sys_replica example_system (PeerId 2) = snd example_receipt"
  by (simp_all add: example_system_def example_issued_def issue_def)

theorem reachable_replicas_converge_witness:
  "tl_session (snd example_issue) = tl_session (snd example_receipt) \<and>
    timeline_view (snd example_issue) \<noteq> None"
proof -
  have pending: "tl_pending (snd example_issue) = []" "tl_pending (snd example_receipt) = []"
    by code_simp+
  have seen: "tl_seen (snd example_issue) = tl_seen (snd example_receipt)" by code_simp
  show ?thesis
    using reachable_replicas_converge [OF example_system_reachable, of "PeerId 1" "PeerId 2"]
    by (simp add: example_system_replicas seen pending quiescent_def)
qed

theorem local_tag_dominates_witness:
  "OpTag 1 (PeerId 1) < next_local_tag (snd example_receipt)"
proof -
  have "clock_ok (snd example_receipt)" by code_simp
  moreover have "OpTag 1 (PeerId 1) \<in> set (session_tags (tl_session (snd example_receipt)))"
    by code_simp
  ultimately show ?thesis
    using local_tag_dominates [OF example_system_reachable, of "PeerId 2" "OpTag 1 (PeerId 1)"]
    by (simp add: example_system_replicas)
qed

section \<open>Snapshots\<close>

lemma log_deliverable:
  assumes "replica_ok X es c" and "valid_ops X" and "set xs = set (tl_log c)"
  shows "deliverable xs"
  using assms valid_ops_subset [OF assms(2), of "op_key ` set (tl_log c)"]
  by (auto simp: deliverable_def replica_ok_def replica_core_def)

text \<open>Claim C11. Snapshots are exact: a peer that restores the snapshot of a
  replica whose buffer is stuck, by replaying it in rank order from scratch, returns and
  obtains the same session and the same view.\<close>

theorem snapshot_restores_session:
  assumes "sys_reachable S" and "quiescent (sys_replica S p)"
  shows "\<exists>d. from_snapshot (timeline_snapshot_of (sys_replica S p)) q = Some d \<and>
    tl_session d = tl_session (sys_replica S p) \<and>
    timeline_view d = timeline_view (sys_replica S p)"
proof -
  let ?c = "sys_replica S p"
  obtain es where c: "replica_ok (sys_keys S) es ?c" and X: "valid_ops (sys_keys S)"
    by (rule sys_replica_ok [OF assms(1)])
  have sub: "op_key ` set (tl_log ?c) \<subseteq> sys_keys S" and wf: "\<forall>x \<in> set (tl_log ?c). well_formed_op x"
    using c by (simp_all add: replica_ok_def replica_core_def)
  from apply_remote_all_ok [OF X replica_ok_new quiescent_new, of "sort_key op_rank (tl_log ?c)" q]
    sub wf
  obtain d fs where d: "apply_remote_all (sort_key op_rank (tl_log ?c)) (timeline_new q) = Some d"
    "replica_ok (sys_keys S) fs d" "quiescent d"
    "op_key ` set (tl_log d) = op_key ` set (tl_log (timeline_new q)) \<union> op_key ` set (tl_log ?c)"
    by auto
  moreover have "tl_log (timeline_new q) = []" by (simp add: timeline_new_def)
  ultimately have "tl_session d = tl_session ?c"
    using quiescent_replicas_agree [OF d(2) c X d(3) assms(2)] by simp
  with d(1) show ?thesis
    by (simp add: from_snapshot_def timeline_snapshot_of_def timeline_view_def)
qed

theorem snapshot_restores_session_witness:
  "\<exists>d. from_snapshot (timeline_snapshot_of (snd example_issue)) (PeerId 7) = Some d \<and>
    tl_session d = tl_session (snd example_issue) \<and>
    timeline_view d = timeline_view (snd example_issue)"
proof -
  have "tl_pending (snd example_issue) = []" by code_simp
  then show ?thesis
    using snapshot_restores_session [OF example_system_reachable, of "PeerId 1" "PeerId 7"]
    by (simp add: example_system_replicas quiescent_def)
qed

text \<open>Offline resync: when two replicas exchange snapshots, both return
  and end with equal sessions, whatever each missed.\<close>

theorem snapshot_exchange_converges:
  assumes "sys_reachable S" and "quiescent (sys_replica S p)" and "quiescent (sys_replica S q)"
  shows "\<exists>c d. merge_snapshot (timeline_snapshot_of (sys_replica S q)) (sys_replica S p) = Some c \<and>
    merge_snapshot (timeline_snapshot_of (sys_replica S p)) (sys_replica S q) = Some d \<and>
    tl_session c = tl_session d"
proof -
  let ?p = "sys_replica S p" and ?q = "sys_replica S q"
  obtain es where p: "replica_ok (sys_keys S) es ?p" and X: "valid_ops (sys_keys S)"
    by (rule sys_replica_ok [OF assms(1)])
  obtain fs where q: "replica_ok (sys_keys S) fs ?q" by (rule sys_replica_ok [OF assms(1)])
  have sub: "op_key ` set (tl_log ?p) \<subseteq> sys_keys S" "\<forall>x \<in> set (tl_log ?p). well_formed_op x"
    "op_key ` set (tl_log ?q) \<subseteq> sys_keys S" "\<forall>x \<in> set (tl_log ?q). well_formed_op x"
    using p q by (simp_all add: replica_ok_def replica_core_def)
  from apply_remote_all_ok [OF X p assms(2), of "sort_key op_rank (tl_log ?q)"] sub
  obtain c es' where c: "apply_remote_all (sort_key op_rank (tl_log ?q)) ?p = Some c"
    "replica_ok (sys_keys S) es' c" "quiescent c"
    "op_key ` set (tl_log c) = op_key ` set (tl_log ?p) \<union> op_key ` set (tl_log ?q)" by auto
  from apply_remote_all_ok [OF X q assms(3), of "sort_key op_rank (tl_log ?p)"] sub
  obtain d fs' where d: "apply_remote_all (sort_key op_rank (tl_log ?p)) ?q = Some d"
    "replica_ok (sys_keys S) fs' d" "quiescent d"
    "op_key ` set (tl_log d) = op_key ` set (tl_log ?q) \<union> op_key ` set (tl_log ?p)" by auto
  have "tl_session c = tl_session d"
    using quiescent_replicas_agree [OF c(2) d(2) X c(3) d(3)] c(4) d(4) by (simp add: Un_commute)
  with c(1) d(1) show ?thesis by (simp add: merge_snapshot_def timeline_snapshot_of_def)
qed

theorem snapshot_exchange_converges_witness:
  "\<exists>c d. merge_snapshot (timeline_snapshot_of (timeline_new (PeerId 3))) (snd example_issue) = Some c \<and>
    merge_snapshot (timeline_snapshot_of (snd example_issue)) (timeline_new (PeerId 3)) = Some d \<and>
    tl_session c = tl_session d"
proof -
  have "tl_pending (snd example_issue) = []" by code_simp
  moreover have "sys_replica example_system (PeerId 3) = timeline_new (PeerId 3)"
    by (simp add: example_system_def example_issued_def issue_def system_init_def)
  ultimately show ?thesis
    using snapshot_exchange_converges [OF example_system_reachable, of "PeerId 1" "PeerId 3"]
    by (simp add: example_system_replicas quiescent_def)
      (simp add: timeline_new_def)
qed

end
