(* ===== verification/Anomalies.thy ===== *)
theory Anomalies
  imports Convergence
begin

text \<open>
  Schedules on which the code does not do what its documentation says, each evaluated on
  the model: resolution that does not return, inherited fields that override a clip's own,
  a moved split piece that disappears, undo that does not restore, split ownership that
  depends on delivery order, a buffer that a local insert does not drain, and a
  compacted log that replays to a different view. They mark the edge of the discipline
  under which \<open>Convergence\<close> holds.
\<close>

section \<open>Resolution\<close>

text \<open>A split that re-parents a clip under its own grandchild closes a cycle.\<close>

definition cyclic_ops :: "(timeline_operation \<times> op_tag) list" where
  "cyclic_ops =
     [(InsertClip (ClipId 3) (TrackId 1) (clip_data_new ''a'' 0 100) 0, OpTag 1 (PeerId 1)),
      (SplitClip (ClipId 3) 10 (ClipId 2), OpTag 2 (PeerId 1)),
      (SplitClip (ClipId 2) 5 (ClipId 1), OpTag 3 (PeerId 1)),
      (SplitClip (ClipId 1) 0 (ClipId 2), OpTag 4 (PeerId 1))]"

definition cyclic_session :: session where
  "cyclic_session = apply_all cyclic_ops session_new"

definition parent_closed :: "(clip_id, clip_crdt) fmap \<Rightarrow> clip_crdt set \<Rightarrow> bool" where
  "parent_closed clips R \<longleftrightarrow> (\<forall>r \<in> R. \<exists>link parent. cc_parent r = Some link \<and>
     fmlookup clips (cp_clip link) = Some parent \<and> parent \<in> R)"

lemma inherit_loop_diverges:
  assumes "parent_closed clips R" and "r \<in> R"
  shows "inherit_loop clips r a = None"
proof (rule ccontr)
  assume "inherit_loop clips r a \<noteq> None"
  then obtain y where "inherit_loop clips r a = Some y" by auto
  then have "parent_closed clips R \<longrightarrow> r \<notin> R"
  proof (rule inherit_loop.raw_induct [where P = "\<lambda>clips r a y. parent_closed clips R \<longrightarrow> r \<notin> R", rotated])
    fix loop :: "(clip_id, clip_crdt) fmap \<Rightarrow> clip_crdt \<Rightarrow> inherited \<Rightarrow> inherited option" and clips cur a y
    assume ih: "\<And>clips cur a y. loop clips cur a = Some y \<Longrightarrow> parent_closed clips R \<longrightarrow> cur \<notin> R"
      and body: "(case cc_parent cur of None \<Rightarrow> Some a
        | Some link \<Rightarrow> (case fmlookup clips (cp_clip link) of None \<Rightarrow> Some a
            | Some parent \<Rightarrow> loop clips parent (inherit_step cur parent a))) = Some y"
    show "parent_closed clips R \<longrightarrow> cur \<notin> R"
    proof (intro impI notI)
      assume R: "parent_closed clips R" "cur \<in> R"
      then obtain link parent where "cc_parent cur = Some link"
          "fmlookup clips (cp_clip link) = Some parent" "parent \<in> R"
        by (auto simp: parent_closed_def)
      with body ih [of clips parent] R(1) show False by auto
    qed
  qed
  with assms show False by simp
qed

lemma cyclic_links:
  "map_option cc_parent (fmlookup (ss_clips cyclic_session) (ClipId 1)) =
     Some (Some \<lparr>cp_clip = ClipId 2, cp_offset = 5\<rparr>)"
  "map_option cc_parent (fmlookup (ss_clips cyclic_session) (ClipId 2)) =
     Some (Some \<lparr>cp_clip = ClipId 1, cp_offset = 0\<rparr>)"
  by code_simp+

text \<open>Claim C22. Resolution need not return: four operations that are all accepted
  (the last re-parents a clip under its own descendant, the tie-break of
  \<open>apply_split\<close>) close a cycle of parent links, and from then on the view of the session
  never returns.\<close>

theorem reparent_cycle_hangs_view:
  "fst (session_apply (SplitClip (ClipId 1) 0 (ClipId 2)) (OpTag 4 (PeerId 1))
      (apply_all (take 3 cyclic_ops) session_new)) = Inr () \<and>
   resolve_clip cyclic_session (ClipId 1) = None \<and> materialize cyclic_session = None"
proof -
  let ?clips = "ss_clips cyclic_session"
  obtain r1 r2 where r: "fmlookup ?clips (ClipId 1) = Some r1" "fmlookup ?clips (ClipId 2) = Some r2"
      "cc_parent r1 = Some \<lparr>cp_clip = ClipId 2, cp_offset = 5\<rparr>"
      "cc_parent r2 = Some \<lparr>cp_clip = ClipId 1, cp_offset = 0\<rparr>"
    using cyclic_links by auto
  then have "parent_closed ?clips {r1, r2}" by (simp add: parent_closed_def)
  then have hang: "resolve_clip cyclic_session (ClipId 1) = None"
    using inherit_loop_diverges [of ?clips "{r1, r2}" r1] r(1) by (simp add: resolve_clip_def)
  have keys: "btree_keys ?clips = [ClipId 1, ClipId 2, ClipId 3]" by code_simp
  have "materialize cyclic_session = None"
    by (simp add: materialize_def keys hang Let_def)
  moreover have "fst (session_apply (SplitClip (ClipId 1) 0 (ClipId 2)) (OpTag 4 (PeerId 1))
      (apply_all (take 3 cyclic_ops) session_new)) = Inr ()" by code_simp
  ultimately show ?thesis using hang by simp
qed

definition one_clip_ops :: "(timeline_operation \<times> op_tag) list" where
  "one_clip_ops =
     [(InsertTrack (TrackId 1) (track_data_new ''T'') 0, OpTag 1 (PeerId 1)),
      (InsertClip (ClipId 1) (TrackId 1) (clip_data_new ''take'' 0 1000) 0, OpTag 2 (PeerId 1)),
      (SplitClip (ClipId 1) 300 (ClipId 2), OpTag 3 (PeerId 1))]"

definition split_session :: session where
  "split_session = apply_all one_clip_ops session_new"

definition visible_clips :: "session \<Rightarrow> (u64 \<times> string \<times> u64 \<times> u64) list option" where
  "visible_clips s = map_option (\<lambda>v. map (\<lambda>c. (clip_raw (cv_clip_id c), cv_name c,
     cv_start_frame c, cv_duration_frames c)) (sv_clips v)) (materialize s)"

text \<open>A written field can be overridden: a piece of a piece that is
  renamed keeps showing the name of the original clip, because the inheritance loop goes
  on copying while an intermediate clip is unwritten. The module documentation says that
  a field is inherited only while it is unwritten.\<close>

theorem grandchild_rename_lost:
  "map_option (map_option rc_name) (resolve_clip (apply_all
     [(SplitClip (ClipId 2) 100 (ClipId 3), OpTag 4 (PeerId 1)),
      (UpdateClipMetadata (ClipId 3) (clip_metadata_update_default\<lparr>cm_name := Some ''chorus''\<rparr>),
       OpTag 5 (PeerId 1))] split_session) (ClipId 3)) = Some (Some ''take'')"
  by code_simp

text \<open>Moving a split piece hides it: the piece occupies frames 300 to
  1000 and is visible; after \<open>MoveClip\<close> on it (which marks it detached while its
  duration register is unwritten, hence 0) it is gone from the view.\<close>

theorem moved_piece_disappears:
  "visible_clips split_session = Some [(1, ''take'', 0, 300), (2, ''take'', 300, 700)] \<and>
   visible_clips (snd (session_apply (MoveClip (ClipId 2) (TrackId 1) 5000 1) (OpTag 4 (PeerId 1))
     split_session)) = Some [(1, ''take'', 0, 300)]"
  by (intro conjI; code_simp)

section \<open>Undo\<close>

text \<open>Undo does not restore a split clip: undoing a trim of the first
  piece writes back its visible duration (300), not its own (1000), so the second piece,
  whose range is cut out of the first one's, loses all its frames.\<close>

theorem undo_trim_loses_piece:
  "compute_inverse (TrimClip (ClipId 1) 0 200 End) split_session =
     Some (Some (TrimClip (ClipId 1) 0 300 End)) \<and>
   visible_clips (apply_all
     [(TrimClip (ClipId 1) 0 200 End, OpTag 4 (PeerId 1)),
      (TrimClip (ClipId 1) 0 300 End, OpTag 5 (PeerId 1))] split_session) =
     Some [(1, ''take'', 0, 300)]"
  by (intro conjI; code_simp)

text \<open>The same with a delete of the first piece.\<close>

lemma undo_delete_loses_piece:
  "compute_inverse (DeleteClip (ClipId 1)) split_session =
     Some (Some (InsertClip (ClipId 1) (TrackId 1)
       \<lparr>cd_name = ''take'', cd_source = [], cd_start_frame = 0, cd_duration_frames = 300,
        cd_color = 0xFFAACC88\<rparr> 0))"
  by code_simp

section \<open>Split ownership\<close>

text \<open>The liveness of a clip in what a sequence of operations makes of a session.\<close>

definition alive_after :: "(timeline_operation \<times> op_tag) list \<Rightarrow> session \<Rightarrow> clip_id \<Rightarrow> bool option" where
  "alive_after ops s c = map_option (\<lambda>r. reg_value (cc_alive r)) (fmlookup (ss_clips (apply_all ops s)) c)"

text \<open>Claim C23. Split ownership depends on delivery order, in every session: let two splits, of clips of the
  session, make the same new clip, let the one with the smaller claim carry the smaller tag,
  and let a delete of the new clip carry a tag between the two. Then the new clip is deleted when the splits
  are delivered in the order of their tags, and alive when they are delivered in the other order.
  A losing split is dropped whole, with the liveness it would have written, when the
  winner came first, but has already written it when the winner comes later; the
  documentation of \<open>apply_split\<close> claims convergence regardless of order.\<close>

theorem competing_splits_diverge:
  assumes "fmlookup (ss_clips s) p = Some rp" and "fmlookup (ss_clips s) q = Some rq"
    and "fmlookup (ss_clips s) c = None" and "claim_less (p, f) (q, g)"
    and "t1 < d" and "d < t2"
  shows "alive_after [(SplitClip p f c, t1), (SplitClip q g c, t2), (DeleteClip c, d)] s c = Some False \<and>
    alive_after [(SplitClip q g c, t2), (SplitClip p f c, t1), (DeleteClip c, d)] s c = Some True"
proof -
  have diff: "p \<noteq> c" "q \<noteq> c" using assms(1-3) by auto
  have order: "\<not> claim_less (q, g) (p, f)" using assms(4) by (auto simp: claim_less_def)
  have born: "\<exists>r s'. session_apply (SplitClip k h c) t s = (Inr (), s') \<and> fmlookup (ss_clips s') c = Some r \<and>
      cc_alive r = lww_new True t \<and> cc_origin_claim r = Some (k, h) \<and>
      fmlookup (ss_clips s') p \<noteq> None \<and> fmlookup (ss_clips s') q \<noteq> None"
    if "fmlookup (ss_clips s) k = Some rk" "k \<noteq> c" for k h t rk
    using that assms(1-3) by (auto simp: apply_split_def Let_def clip_from_split_def)
  note delete = apply_to_clip_def lww_set_def lww_try_set_def lww_new_def
  obtain r s1 where s1: "session_apply (SplitClip p f c) t1 s = (Inr (), s1)" "fmlookup (ss_clips s1) c = Some r"
    "cc_alive r = lww_new True t1" "cc_origin_claim r = Some (p, f)" using born assms(1) diff by blast
  have "session_apply (SplitClip q g c) t2 s1 = (Inr (), s1)"
    using s1 diff assms(4) by (simp add: apply_split_def Let_def)
  then have in_order: "alive_after [(SplitClip p f c, t1), (SplitClip q g c, t2), (DeleteClip c, d)] s c = Some False"
    using s1 assms(5) by (simp add: alive_after_def apply_all_def delete)
  obtain r2 s2 where s2: "session_apply (SplitClip q g c) t2 s = (Inr (), s2)" "fmlookup (ss_clips s2) c = Some r2"
    "cc_alive r2 = lww_new True t2" "cc_origin_claim r2 = Some (q, g)" "fmlookup (ss_clips s2) p \<noteq> None"
    using born assms(2) diff by blast
  have "\<exists>s3 r3 res. session_apply (SplitClip p f c) t1 s2 = (res, s3) \<and> fmlookup (ss_clips s3) c = Some r3 \<and>
      cc_alive r3 = lww_set True t1 (cc_alive r2)"
    using s2 diff assms(4) order
    by (auto simp: apply_split_def Let_def release_split_def reparent_def revive_def split: option.splits)
  moreover have "lww_set True t1 (cc_alive r2) = lww_new True t2"
    using s2(3) leD [OF less_imp_le [OF less_trans [OF assms(5,6)]]] by (simp add: lww_set_def lww_try_set_def lww_new_def)
  ultimately have "alive_after [(SplitClip q g c, t2), (SplitClip p f c, t1), (DeleteClip c, d)] s c = Some True"
    using s2 assms(6) by (auto simp: alive_after_def apply_all_def delete)
  with in_order show ?thesis by blast
qed

definition two_clips :: session where
  "two_clips = apply_all
     [(InsertClip (ClipId 1) (TrackId 1) (clip_data_new ''a'' 0 1000) 0, OpTag 1 (PeerId 1)),
      (InsertClip (ClipId 5) (TrackId 1) (clip_data_new ''b'' 0 1000) 0, OpTag 2 (PeerId 1))] session_new"

theorem competing_splits_diverge_witness:
  "alive_after [(SplitClip (ClipId 1) 10 (ClipId 9), OpTag 3 (PeerId 1)),
      (SplitClip (ClipId 5) 10 (ClipId 9), OpTag 7 (PeerId 2)), (DeleteClip (ClipId 9), OpTag 5 (PeerId 1))]
      two_clips (ClipId 9) = Some False \<and>
    alive_after [(SplitClip (ClipId 5) 10 (ClipId 9), OpTag 7 (PeerId 2)),
      (SplitClip (ClipId 1) 10 (ClipId 9), OpTag 3 (PeerId 1)), (DeleteClip (ClipId 9), OpTag 5 (PeerId 1))]
      two_clips (ClipId 9) = Some True"
proof -
  have "fmlookup (ss_clips two_clips) (ClipId 1) = Some (the (fmlookup (ss_clips two_clips) (ClipId 1)))"
    "fmlookup (ss_clips two_clips) (ClipId 5) = Some (the (fmlookup (ss_clips two_clips) (ClipId 5)))"
    "fmlookup (ss_clips two_clips) (ClipId 9) = None"
    by (simp_all add: two_clips_def apply_all_def session_new_def)
  moreover have "claim_less (ClipId 1, 10) (ClipId 5, 10)" by code_simp
  ultimately show ?thesis by (rule competing_splits_diverge) simp_all
qed

text \<open>An insert of a split child's id diverges: this is what undoing the
  deletion of a split piece issues. Delivered after the split the clip stays a child of its
  parent; delivered before, it is a root clip for ever.\<close>

theorem insert_of_child_diverges:
  "let prefix =
     [(InsertClip (ClipId 1) (TrackId 1) (clip_data_new ''a'' 0 1000) 0, OpTag 1 (PeerId 1))];
     split = (SplitClip (ClipId 1) 400 (ClipId 2), OpTag 2 (PeerId 1));
     insert = (InsertClip (ClipId 2) (TrackId 1) (clip_data_new ''a'' 400 600) 0, OpTag 4 (PeerId 1));
     parent = (\<lambda>ops. map_option cc_parent
       (fmlookup (ss_clips (apply_all (prefix @ ops) session_new)) (ClipId 2)))
   in parent [split, insert] = Some (Some \<lparr>cp_clip = ClipId 1, cp_offset = 400\<rparr>) \<and>
      parent [insert, split] = Some None"
  unfolding Let_def by (intro conjI; code_simp)

section \<open>The buffer\<close>

definition early_update :: tagged_operation where
  "early_update = example_op 5 2 (UpdateTrackMetadata (TrackId 1)
     (track_metadata_update_default\<lparr>tm_solo := Some True\<rparr>))"

definition solo_of :: "timeline_crdt \<Rightarrow> bool option" where
  "solo_of c = map_option (\<lambda>t. reg_value (tc_solo t)) (session_track (tl_session c) (TrackId 1))"

text \<open>A local edit does not drain the buffer: a replica buffers an update
  of a track it does not know, then inserts that track locally; the update stays buffered
  and the view does not show it, although the documentation of \<open>apply_local\<close> promises that
  buffered operations apply whenever the target appears.\<close>

theorem local_insert_leaves_buffer:
  "let c = snd (the (apply_remote early_update (timeline_new (PeerId 1))));
       d = snd (the (apply_local example_edit 0 c))
   in pending_len c = 1 \<and> pending_len d = 1 \<and> solo_of d = Some False \<and> \<not> quiescent d"
proof -
  let ?c = "snd (the (apply_remote early_update (timeline_new (PeerId 1))))"
  let ?d = "snd (the (apply_local example_edit 0 ?c))"
  have p: "tl_pending ?d = [early_update]" by code_simp
  have "op_enabled (op_key early_update) (tl_session ?d)" by code_simp
  then have "\<not> quiescent ?d" by (simp add: quiescent_def p)
  moreover have "pending_len ?c = 1" "pending_len ?d = 1" "solo_of ?d = Some False" by code_simp+
  ultimately show ?thesis by (simp add: Let_def)
qed

text \<open>
  Each buffered operation is observed again on every pass over the buffer, so one
  conflict between two buffered operations is reported twice on the spot.
\<close>

lemma buffered_conflict_reported_twice:
  "let a = example_op 3 1 (DeleteClip (ClipId 1));
       a = a\<lparr>op_clock := vc_increment vc_new (PeerId 1)\<rparr>;
       b = example_op 3 2 (DeleteClip (ClipId 1));
       b = b\<lparr>op_clock := vc_increment vc_new (PeerId 2)\<rparr>
   in map_option (\<lambda>c. length (tl_events c)) (apply_remote_all [a, b] (timeline_new (PeerId 7))) = Some 2"
  unfolding Let_def by code_simp

section \<open>Compaction\<close>

definition compaction_ops :: "tagged_operation list" where
  "compaction_ops =
     [example_op 1 1 (InsertTrack (TrackId 1) (track_data_new ''T'') 0),
      example_op 2 1 (InsertClip (ClipId 1) (TrackId 1) (clip_data_new ''take'' 0 1000) 0),
      example_op 3 1 (SplitClip (ClipId 1) 300 (ClipId 2)),
      example_op 4 1 (TrimClip (ClipId 2) 400 100 End),
      example_op 5 1 (InsertClip (ClipId 2) (TrackId 1) (clip_data_new ''take'' 500 50) 0)]"

definition compaction_replica :: timeline_crdt where
  "compaction_replica = the (apply_remote_all compaction_ops (timeline_new (PeerId 1)))"

text \<open>Outside the discipline (an insert reuses the id of a split child) compaction can
  change the view, which it never does within it (\<open>Compaction_Laws\<close>): \<open>detached\<close> is not a register, so
  the trim that set it is dropped once its registers are superseded, and a replica that
  replays the compacted log puts the piece back under its parent's geometry. The
  documentation of \<open>compact\<close> says that the compacted log replays to the same state.\<close>

theorem compaction_loses_detached:
  "visible_clips (tl_session compaction_replica) = Some [(1, ''take'', 0, 300), (2, ''take'', 500, 50)] \<and>
   map_option (\<lambda>c. visible_clips (tl_session c))
     (apply_remote_all (tl_log (timeline_compact compaction_replica)) (timeline_new (PeerId 2))) =
     Some (Some [(1, ''take'', 0, 300), (2, ''take'', 300, 700)])"
  by (intro conjI; code_simp)

text \<open>A buffered operation owns no register, so compaction drops it from the log.\<close>

lemma compaction_drops_buffered:
  "let c = snd (the (apply_remote early_update (timeline_new (PeerId 1))))
   in pending_len c = 1 \<and> tl_log (timeline_compact c) = []"
  unfolding Let_def by (intro conjI; code_simp)

end
