(* ===== verification/System_Properties.thy ===== *)
theory System_Properties
  imports Convergence
begin

text \<open>
  What the reachable states of the system of \<open>Convergence\<close> satisfy beyond convergence:
  every session refines a run of its operations, the undo history stays within its
  capacity, every replica is well formed and can be rendered, and undoing a track update or a
  metadata update restores the view.
\<close>

section \<open>Refinement\<close>

text \<open>Claim C3. Refinement: in every reachable state each replica's session is the
  result of a run of the abstract operations (each enabled when it is executed), and the
  executed and the buffered operations together are exactly the logged ones. Whatever
  order operations arrived in, the code's buffering, deduplication and split bookkeeping
  implement that specification.\<close>

theorem reachable_refines_run:
  assumes "sys_reachable S"
  shows "\<exists>es. runs op_enabled op_effect es session_new \<and>
    tl_session (sys_replica S p) = fold op_effect es session_new \<and>
    set es \<union> op_key ` set (tl_pending (sys_replica S p)) = op_key ` set (tl_log (sys_replica S p)) \<and>
    fset (tl_seen (sys_replica S p)) = op_id ` set (tl_log (sys_replica S p))"
proof -
  obtain es where "replica_ok (sys_keys S) es (sys_replica S p)"
    by (rule sys_replica_ok [OF assms])
  then show ?thesis by (auto simp: replica_ok_def replica_core_def)
qed

theorem reachable_refines_run_witness:
  "\<exists>es. tl_session (snd example_receipt) = fold op_effect es session_new \<and>
    set es = op_key ` set (tl_log (snd example_receipt))"
proof -
  have "tl_pending (snd example_receipt) = []" by code_simp
  then show ?thesis
    using reachable_refines_run [OF example_system_reachable, of "PeerId 2"]
    by (auto simp: example_system_replicas)
qed

section \<open>The history is bounded\<close>

definition history_bounded :: "history \<Rightarrow> bool" where
  "history_bounded h \<longleftrightarrow> history_inv h \<and> hs_capacity h = 256"

lemma apply_local_internal_history:
  assumes "apply_local_internal oper rec now c = Some (x, d)"
  shows "tl_history d = tl_history c \<or> rec \<and> (\<exists>e. tl_history d = history_record e (tl_history c))"
  using assms
  by (auto simp: apply_local_internal_def Let_def split: prod.splits sum.splits if_splits
      bind_splits option.splits)

lemma history_bounded_step:
  "sys_step S T \<Longrightarrow> sys_inv S \<Longrightarrow> \<forall>p. history_bounded (tl_history (sys_replica S p)) \<Longrightarrow>
    history_bounded (tl_history (sys_replica T p))"
proof (induction rule: sys_step.induct)
  case (local oper now S q x c)
  then have "history_bounded (tl_history (sys_replica S q))" by simp
  with apply_local_internal_history [OF local(1) [unfolded apply_local_def]] local(5) show ?case
    by (auto simp: issue_def history_bounded_def history_inv_record history_capacity_kept)
next
  case (undo now S q x c)
  then obtain e h d where d: "pop_undo (tl_history (sys_replica S q)) = (Some e, h)"
    "apply_local_internal (he_inverse e) False now ((sys_replica S q)\<lparr>tl_history := h\<rparr>) = Some (x, d)"
    "c = d\<lparr>tl_history := push_redo e (tl_history d)\<rparr>"
    by (auto simp: timeline_undo_def split: prod.splits option.splits bind_splits)
  moreover have "hs_capacity h = hs_capacity (tl_history (sys_replica S q))"
    using d(1) history_capacity_kept(4) [of "tl_history (sys_replica S q)"] by simp
  ultimately show ?case
    using undo(5) apply_local_internal_history [OF d(2)]
    by (auto simp: issue_def history_bounded_def history_capacity_kept intro: history_inv_undo)
next
  case (redo now S q x c)
  then obtain e h d where d: "pop_redo (tl_history (sys_replica S q)) = (Some e, h)"
    "apply_local_internal (he_forward e) False now ((sys_replica S q)\<lparr>tl_history := h\<rparr>) = Some (x, d)"
    "c = d\<lparr>tl_history := push_undo e (tl_history d)\<rparr>"
    by (auto simp: timeline_redo_def split: prod.splits option.splits bind_splits)
  moreover have "hs_capacity h = hs_capacity (tl_history (sys_replica S q))"
    using d(1) history_capacity_kept(5) [of "tl_history (sys_replica S q)"] by simp
  ultimately show ?case
    using redo(5) apply_local_internal_history [OF d(2)]
    by (auto simp: issue_def history_bounded_def history_capacity_kept intro: history_inv_redo)
next
  case (deliver x S q r c)
  have "tl_history c = tl_history (sys_replica S q)"
  proof (cases "op_id x |\<in>| tl_seen (sys_replica S q)")
    case True
    with deliver(2) show ?thesis by (simp add: apply_remote_seen)
  next
    case False
    have inv: "replica_inv S q" "valid_ops (sys_keys S)" "op_key x \<in> sys_keys S" "well_formed_op x"
      using deliver(1,3) by (auto simp: sys_inv_def sys_keys_def)
    then obtain es where "replica_ok (sys_keys S) es (sys_replica S q)"
      by (auto simp: replica_inv_def Let_def)
    from apply_remote_fresh [OF this inv(2-4) False] deliver(2) show ?thesis by auto
  qed
  with deliver(4) show ?case by simp
qed

text \<open>Claim C14. The undo history is bounded: in every reachable state the undo and redo
  stacks of a replica together never hold more than 256 entries, however many edits, undos,
  redos and deliveries happened.\<close>

theorem reachable_history_bounded:
  assumes "sys_reachable S"
  shows "undo_len (tl_history (sys_replica S p)) + redo_len (tl_history (sys_replica S p)) \<le> 256"
proof -
  have "\<forall>p. history_bounded (tl_history (sys_replica S p))"
    using assms
  proof (induction rule: sys_reachable.induct)
    case start
    have "hs_capacity (history_new 256) = 256" by (simp add: history_new_def)
    then show ?case by (simp add: system_init_def timeline_new_def history_bounded_def)
  next
    case (step S T)
    then show ?case using history_bounded_step sys_inv_reachable by blast
  qed
  then show ?thesis by (metis history_bounded_def history_inv_def)
qed

theorem reachable_history_bounded_witness:
  "undo_len (tl_history (snd example_issue)) + redo_len (tl_history (snd example_issue)) \<le> 256 \<and>
   undo_len (tl_history (snd example_issue)) = 1"
proof -
  have "undo_len (tl_history (snd example_issue)) = 1" by code_simp
  then show ?thesis
    using reachable_history_bounded [OF example_system_reachable, of "PeerId 1"]
    by (simp add: example_system_replicas)
qed

section \<open>Well-formed replicas\<close>

text \<open>Claim C15. Well-formedness: in every reachable state the seen set of a replica is the set of
  ids of its log, every operation of the log is well formed, the buffer holds operations of
  the log only, the split links of its session are well founded, and so its view exists: it
  can always be rendered.\<close>

theorem reachable_replica_well_formed:
  assumes "sys_reachable S"
  shows "fset (tl_seen (sys_replica S p)) = op_id ` set (tl_log (sys_replica S p)) \<and>
    (\<forall>x \<in> set (tl_log (sys_replica S p)). well_formed_op x) \<and>
    op_key ` set (tl_pending (sys_replica S p)) \<subseteq> op_key ` set (tl_log (sys_replica S p)) \<and>
    parents_wf (tl_session (sys_replica S p)) \<and> (\<exists>v. timeline_view (sys_replica S p) = Some v)"
proof -
  obtain es where c: "replica_ok (sys_keys S) es (sys_replica S p)" and X: "valid_ops (sys_keys S)"
    by (rule sys_replica_ok [OF assms])
  then have "parents_wf (tl_session (sys_replica S p))"
    by (intro replica_core_wf) (auto simp: replica_ok_def)
  with c show ?thesis
    using materialize_returns by (auto simp: replica_ok_def replica_core_def timeline_view_def)
qed

theorem reachable_replica_well_formed_witness:
  "fset (tl_seen (snd example_receipt)) = op_id ` set (tl_log (snd example_receipt)) \<and>
   (\<exists>v. timeline_view (snd example_receipt) = Some v)"
  using reachable_replica_well_formed [OF example_system_reachable, of "PeerId 2"]
  by (simp add: example_system_replicas)

section \<open>Undo restores tracks and session metadata\<close>

text \<open>Sessions that differ only in the tags of track and metadata registers.\<close>

definition same_look :: "session \<Rightarrow> session \<Rightarrow> bool" where
  "same_look s s' \<longleftrightarrow> ss_clips s = ss_clips s' \<and> ss_envelopes s = ss_envelopes s' \<and>
     metadata_view s = metadata_view s' \<and>
     (\<forall>k. rel_option (\<lambda>r r'. track_view_of k r = track_view_of k r' \<and>
       reg_value (tc_alive r) = reg_value (tc_alive r')) (fmlookup (ss_tracks s) k) (fmlookup (ss_tracks s') k))"

lemma same_look_track_views:
  assumes "same_look s s'"
  shows "track_views s = track_views s'"
proof -
  have rel: "rel_option (\<lambda>r r'. track_view_of k r = track_view_of k r' \<and>
      reg_value (tc_alive r) = reg_value (tc_alive r')) (fmlookup (ss_tracks s) k) (fmlookup (ss_tracks s') k)"
    for k using assms by (simp add: same_look_def)
  have "fmdom (ss_tracks s) = fmdom (ss_tracks s')"
  proof (rule fset_eqI)
    fix k
    show "k |\<in>| fmdom (ss_tracks s) \<longleftrightarrow> k |\<in>| fmdom (ss_tracks s')"
      using rel [of k] by (cases "fmlookup (ss_tracks s) k"; cases "fmlookup (ss_tracks s') k")
        (auto simp: fmlookup_dom_iff)
  qed
  then have keys: "btree_keys (ss_tracks s) = btree_keys (ss_tracks s')" by (simp add: btree_keys_def)
  have "map (\<lambda>(k, t). track_view_of k t) (filter (\<lambda>(_, t). reg_value (tc_alive t))
      (map (\<lambda>k. (k, the (fmlookup (ss_tracks s) k))) ks)) =
    map (\<lambda>(k, t). track_view_of k t) (filter (\<lambda>(_, t). reg_value (tc_alive t))
      (map (\<lambda>k. (k, the (fmlookup (ss_tracks s') k))) ks))"
    if "set ks \<subseteq> fset (fmdom (ss_tracks s))" for ks
    using that
  proof (induction ks)
    case (Cons k ks)
    then obtain r where "fmlookup (ss_tracks s) k = Some r" by (auto simp: fmlookup_dom_iff)
    with rel [of k] obtain r' where "fmlookup (ss_tracks s') k = Some r'"
      "track_view_of k r = track_view_of k r'" "reg_value (tc_alive r) = reg_value (tc_alive r')"
      by (cases "fmlookup (ss_tracks s') k") auto
    with \<open>fmlookup (ss_tracks s) k = Some r\<close> Cons show ?case by simp
  qed simp
  from this [of "btree_keys (ss_tracks s)"] show ?thesis
    by (simp only: track_views_def btree_entries_alt keys [symmetric] set_btree_keys order_refl
        simp_thms)
qed

lemma same_look_materialize:
  assumes "same_look s s'"
  shows "materialize s = materialize s'"
proof -
  have "(case fmlookup (ss_tracks s) k of None \<Rightarrow> False | Some t \<Rightarrow> reg_value (tc_alive t)) =
      (case fmlookup (ss_tracks s') k of None \<Rightarrow> False | Some t \<Rightarrow> reg_value (tc_alive t))" for k
    using assms unfolding same_look_def
    by (cases "fmlookup (ss_tracks s) k"; cases "fmlookup (ss_tracks s') k") (auto dest!: spec [of _ k])
  then have "resolve_clip s c = resolve_clip s' c" for c
    using assms by (simp add: resolve_clip_def same_look_def cong: option.case_cong)
  then have "resolve_all s cs = resolve_all s' cs" for cs by (induction cs) simp_all
  with assms same_look_track_views [OF assms] show ?thesis by (simp add: materialize_def same_look_def)
qed

lemma apply_local_internal_applied:
  assumes "session_apply oper (next_local_tag c) (tl_session c) = (Inr (), s')"
    and "(if rec then compute_inverse oper (tl_session c) else Some None) = Some rev_op"
  shows "\<exists>x d. apply_local_internal oper rec now c = Some (x, d) \<and> tl_session d = s' \<and>
    tl_lamport d = snd (lamport_tick (tl_lamport c)) \<and> tl_local_peer d = tl_local_peer c \<and>
    tl_history d = (case rev_op of None \<Rightarrow> tl_history c
      | Some i \<Rightarrow> history_record \<lparr>he_forward = oper, he_inverse = i\<rparr> (tl_history c))"
proof -
  obtain lam clk where tick: "lamport_tick (tl_lamport c) = (lam, clk)" by force
  with assms show ?thesis
    by (cases rec; cases rev_op) (auto simp: apply_local_internal_def next_local_tag_def Let_def)
qed

lemma undo_after_local:
  assumes "session_apply oper (next_local_tag c) (tl_session c) = (Inr (), s1)"
    and "compute_inverse oper (tl_session c) = Some (Some i)"
    and "session_apply i (OpTag (fst (lamport_tick (snd (lamport_tick (tl_lamport c))))) (tl_local_peer c)) s1 =
      (Inr (), s2)"
  shows "\<exists>x d y e. apply_local oper now c = Some (x, d) \<and> timeline_undo now' d = Some (Some y, e) \<and>
    tl_session e = s2"
proof -
  let ?entry = "\<lparr>he_forward = oper, he_inverse = i\<rparr>"
  from apply_local_internal_applied [OF assms(1), of True "Some i" now] assms(2) obtain x d where
    d: "apply_local oper now c = Some (x, d)" "tl_session d = s1"
      "tl_lamport d = snd (lamport_tick (tl_lamport c))" "tl_local_peer d = tl_local_peer c"
      "tl_history d = history_record ?entry (tl_history c)"
    by (auto simp: apply_local_def)
  obtain h where pop: "pop_undo (tl_history d) = (Some ?entry, h)"
    by (simp add: d(5) pop_undo_def history_record_def Let_def)
  from apply_local_internal_applied [of i "d\<lparr>tl_history := h\<rparr>" s2 False None now'] assms(3) d
  obtain y e where "apply_local_internal i False now' (d\<lparr>tl_history := h\<rparr>) = Some (y, e)" "tl_session e = s2"
    by (auto simp: next_local_tag_def)
  with d(1) pop show ?thesis by (simp add: timeline_undo_def)
qed

text \<open>Writing a register and writing its old value back at a later tag.\<close>

lemma set_opt_back:
  assumes "reg_tag r < t" "t < u"
  shows "reg_value (lww_set_opt (map_option (\<lambda>_. reg_value r) v) u (lww_set_opt v t r)) = reg_value r"
  using assms by (cases v) (auto simp: lww_set_opt_def lww_set_wins)

lemma track_update_undone:
  assumes "\<forall>g \<in> set (track_tags r). g < t" "t < u"
    and "upd' = \<lparr>tm_name = map_option (\<lambda>_. reg_value (tc_name r)) (tm_name upd),
        tm_volume_db = map_option (\<lambda>_. reg_value (tc_volume_db r)) (tm_volume_db upd),
        tm_muted = map_option (\<lambda>_. reg_value (tc_muted r)) (tm_muted upd),
        tm_solo = map_option (\<lambda>_. reg_value (tc_solo r)) (tm_solo upd),
        tm_position = map_option (\<lambda>_. reg_value (tc_order_hint r)) (tm_position upd)\<rparr>"
  shows "track_view_of k (track_apply (UpdateTrackMetadata k upd') u
      (track_apply (UpdateTrackMetadata k upd) t r)) = track_view_of k r"
  using assms by (simp add: track_view_of_def track_tags_def set_opt_back)

lemma metadata_update_undone:
  assumes "\<forall>g \<in> set (session_metadata_tags s). g < t" "t < u"
    and "upd' = \<lparr>sm_name = map_option (\<lambda>_. md_name (metadata_view s)) (sm_name upd),
        sm_sample_rate = map_option (\<lambda>_. md_sample_rate (metadata_view s)) (sm_sample_rate upd),
        sm_tempo_bpm = map_option (\<lambda>_. md_tempo_bpm (metadata_view s)) (sm_tempo_bpm upd),
        sm_ts_numerator = map_option (\<lambda>_. fst (md_time_signature (metadata_view s))) (sm_ts_numerator upd),
        sm_ts_denominator = map_option (\<lambda>_. snd (md_time_signature (metadata_view s))) (sm_ts_denominator upd)\<rparr>"
  shows "metadata_view (s\<lparr>ss_metadata := session_metadata_apply upd' u
      (session_metadata_apply upd t (ss_metadata s))\<rparr>) = metadata_view s"
  using assms
  by (simp add: metadata_view_def session_metadata_tags_def session_metadata_apply_def set_opt_back)

lemma track_edit_and_back:
  assumes tags: "\<forall>g \<in> set (session_tags s). g < t" "t < u"
    and r: "fmlookup (ss_tracks s) k = Some r"
  shows "\<exists>i s1 s2. compute_inverse (UpdateTrackMetadata k upd) s = Some (Some i) \<and>
    session_apply (UpdateTrackMetadata k upd) t s = (Inr (), s1) \<and>
    session_apply i u s1 = (Inr (), s2) \<and> same_look s2 s"
proof -
  define upd' where "upd' = \<lparr>tm_name = map_option (\<lambda>_. reg_value (tc_name r)) (tm_name upd),
        tm_volume_db = map_option (\<lambda>_. reg_value (tc_volume_db r)) (tm_volume_db upd),
        tm_muted = map_option (\<lambda>_. reg_value (tc_muted r)) (tm_muted upd),
        tm_solo = map_option (\<lambda>_. reg_value (tc_solo r)) (tm_solo upd),
        tm_position = map_option (\<lambda>_. reg_value (tc_order_hint r)) (tm_position upd)\<rparr>"
  have "set (track_tags r) \<subseteq> set (session_tags s)" using r by (auto simp: set_session_tags tag_set_def)
  then have below: "\<forall>g \<in> set (track_tags r). g < t" using tags(1) by blast
  let ?r1 = "track_apply (UpdateTrackMetadata k upd) t r"
  let ?r2 = "track_apply (UpdateTrackMetadata k upd') u ?r1"
  let ?s1 = "s\<lparr>ss_tracks := fmupd k ?r1 (ss_tracks s)\<rparr>"
  let ?s2 = "s\<lparr>ss_tracks := fmupd k ?r2 (ss_tracks s)\<rparr>"
  have "track_view_of k ?r2 = track_view_of k r" by (rule track_update_undone [OF below tags(2) upd'_def])
  moreover have "reg_value (tc_alive ?r2) = reg_value (tc_alive r)" by simp
  ultimately have "same_look ?s2 s"
    by (simp add: same_look_def option.rel_refl metadata_view_def r del: track_apply.simps)
  moreover have "compute_inverse (UpdateTrackMetadata k upd) s = Some (Some (UpdateTrackMetadata k upd'))"
    by (simp add: session_track_def r upd'_def)
  moreover have "session_apply (UpdateTrackMetadata k upd) t s = (Inr (), ?s1)"
    by (simp add: apply_to_track_def r del: track_apply.simps)
  moreover have "session_apply (UpdateTrackMetadata k upd') u ?s1 = (Inr (), ?s2)"
    by (simp add: apply_to_track_def del: track_apply.simps)
  ultimately show ?thesis by blast
qed

lemma metadata_edit_and_back:
  assumes tags: "\<forall>g \<in> set (session_tags s). g < t" "t < u" and wf: "parents_wf s"
  shows "\<exists>i s1 s2. compute_inverse (UpdateSessionMetadata upd) s = Some (Some i) \<and>
    session_apply (UpdateSessionMetadata upd) t s = (Inr (), s1) \<and>
    session_apply i u s1 = (Inr (), s2) \<and> same_look s2 s"
proof -
  obtain v where v: "materialize s = Some v" "sv_metadata v = metadata_view s"
    using materialize_returns [OF wf]
    by (auto simp: materialize_def Let_def bind_eq_Some_conv)
  define upd' where "upd' = \<lparr>sm_name = map_option (\<lambda>_. md_name (metadata_view s)) (sm_name upd),
        sm_sample_rate = map_option (\<lambda>_. md_sample_rate (metadata_view s)) (sm_sample_rate upd),
        sm_tempo_bpm = map_option (\<lambda>_. md_tempo_bpm (metadata_view s)) (sm_tempo_bpm upd),
        sm_ts_numerator = map_option (\<lambda>_. fst (md_time_signature (metadata_view s))) (sm_ts_numerator upd),
        sm_ts_denominator = map_option (\<lambda>_. snd (md_time_signature (metadata_view s))) (sm_ts_denominator upd)\<rparr>"
  have below: "\<forall>g \<in> set (session_metadata_tags s). g < t"
    using tags(1) by (simp add: session_tags_def)
  let ?s2 = "s\<lparr>ss_metadata := session_metadata_apply upd' u (session_metadata_apply upd t (ss_metadata s))\<rparr>"
  have "metadata_view ?s2 = metadata_view s" by (rule metadata_update_undone [OF below tags(2) upd'_def])
  then have "same_look ?s2 s" by (simp add: same_look_def option.rel_refl)
  moreover have "compute_inverse (UpdateSessionMetadata upd) s = Some (Some (UpdateSessionMetadata upd'))"
    by (simp add: v compute_session_metadata_inverse_def upd'_def)
  moreover have "session_apply (UpdateSessionMetadata upd) t s =
      (Inr (), s\<lparr>ss_metadata := session_metadata_apply upd t (ss_metadata s)\<rparr>)" by simp
  moreover have "session_apply (UpdateSessionMetadata upd') u
      (s\<lparr>ss_metadata := session_metadata_apply upd t (ss_metadata s)\<rparr>) = (Inr (), ?s2)" by simp
  ultimately show ?thesis by blast
qed

lemma two_ticks_left:
  fixes a :: u64
  assumes "unat a + 2 < 2 ^ 64"
  shows "a \<noteq> - 1" "sat_add a 1 \<noteq> - 1"
proof -
  have top: "unat (- 1 :: u64) = 2 ^ 64 - 1" by (simp only: unat_minus_one_word) simp
  show "a \<noteq> - 1" using assms top by auto
  have "unat (sat_add a 1) = unat a + 1" using assms by (simp add: sat_simps)
  then show "sat_add a 1 \<noteq> - 1" using assms top by auto
qed

text \<open>Claim C13. Undo restores what the user saw: in every reachable state, editing a
  track's metadata or the session's metadata and then undoing returns, issues a second
  operation, and gives back exactly the view from before the edit, whichever of the fields
  the edit touched (the two ticks must not exhaust the Lamport clock).\<close>

theorem undo_restores_view:
  assumes S: "sys_reachable S" and clk: "unat (lamport_get (tl_lamport (sys_replica S p))) + 2 < 2 ^ 64"
    and oper: "(\<exists>k u r. oper = UpdateTrackMetadata k u \<and>
        fmlookup (ss_tracks (tl_session (sys_replica S p))) k = Some r) \<or>
      (\<exists>u. oper = UpdateSessionMetadata u)"
  shows "\<exists>x d y e. apply_local oper now (sys_replica S p) = Some (x, d) \<and>
    timeline_undo now' d = Some (Some y, e) \<and> timeline_view e = timeline_view (sys_replica S p) \<and>
    timeline_view e \<noteq> None"
proof -
  define c where "c = sys_replica S p"
  let ?s = "tl_session c" and ?t = "next_local_tag c"
  let ?u = "OpTag (fst (lamport_tick (snd (lamport_tick (tl_lamport c))))) (tl_local_peer c)"
  obtain es where ok: "replica_ok (sys_keys S) es c" and X: "valid_ops (sys_keys S)"
    unfolding c_def by (rule sys_replica_ok [OF S])
  have wf: "parents_wf ?s" using ok by (intro replica_core_wf [OF _ X]) (simp add: replica_ok_def)
  have ne: "lc_counter (tl_lamport c) \<noteq> - 1" "sat_add (lc_counter (tl_lamport c)) 1 \<noteq> - 1"
    using two_ticks_left [of "lc_counter (tl_lamport c)"] clk by (simp_all add: c_def lamport_get_def)
  have "clock_ok c" using ne(1) by (simp add: clock_ok_def lamport_get_def u64_max_def word_order.not_eq_extremum)
  then have tags: "\<forall>g \<in> set (session_tags ?s). g < ?t"
    using reachable_tags_below [OF S] by (simp add: c_def)
  have tu: "?t < ?u" using sat_succ_gt [OF ne(2)]
    by (simp add: next_local_tag_def lamport_tick_value)
  have "\<exists>i s1 s2. compute_inverse oper ?s = Some (Some i) \<and> session_apply oper ?t ?s = (Inr (), s1) \<and>
      session_apply i ?u s1 = (Inr (), s2) \<and> same_look s2 ?s"
    using oper track_edit_and_back [OF tags tu] metadata_edit_and_back [OF tags tu wf]
    unfolding c_def [symmetric] by blast
  then obtain i s1 s2 where "session_apply oper ?t ?s = (Inr (), s1)"
    "compute_inverse oper ?s = Some (Some i)" "session_apply i ?u s1 = (Inr (), s2)"
    and look: "same_look s2 ?s" by blast
  from undo_after_local [OF this(1-3), of now now'] obtain x d y e where
    "apply_local oper now c = Some (x, d)" "timeline_undo now' d = Some (Some y, e)" "tl_session e = s2"
    by blast
  moreover have "materialize s2 = materialize ?s" by (rule same_look_materialize [OF look])
  ultimately show ?thesis using materialize_returns [OF wf]
    by (auto simp: timeline_view_def c_def [symmetric])
qed

text \<open>Peer 2 renames and solos the track it received, and undoes it.\<close>

definition example_track_edit :: timeline_operation where
  "example_track_edit = UpdateTrackMetadata (TrackId 1)
     (track_metadata_update_default\<lparr>tm_name := Some ''Drums'', tm_solo := Some True\<rparr>)"

theorem undo_restores_view_witness:
  "\<exists>x d y e. apply_local example_track_edit 0 (snd example_receipt) = Some (x, d) \<and>
    timeline_undo 1 d = Some (Some y, e) \<and> timeline_view e = timeline_view (snd example_receipt) \<and>
    timeline_view e \<noteq> None"
proof -
  have replica: "sys_replica example_system (PeerId 2) = snd example_receipt"
    by (simp add: example_system_replicas)
  have "lamport_get (tl_lamport (snd example_receipt)) = 1" by code_simp
  then have clk: "unat (lamport_get (tl_lamport (snd example_receipt))) + 2 < 2 ^ 64" by simp
  have "fmlookup (ss_tracks (tl_session (snd example_receipt))) (TrackId 1) \<noteq> None" by code_simp
  then obtain r where "fmlookup (ss_tracks (tl_session (snd example_receipt))) (TrackId 1) = Some r" by blast
  then have edit: "(\<exists>k u r. example_track_edit = UpdateTrackMetadata k u \<and>
      fmlookup (ss_tracks (tl_session (snd example_receipt))) k = Some r) \<or>
      (\<exists>u. example_track_edit = UpdateSessionMetadata u)"
    by (simp add: example_track_edit_def)
  show ?thesis
    by (rule undo_restores_view [OF example_system_reachable, of "PeerId 2", unfolded replica, OF clk edit])
qed

end
