(* ===== verification/Floats.thy ===== *)
theory Floats
  imports Prelude Complex_Main
begin

text \<open>
  IEEE-754 double arithmetic on bit patterns, as Rust's \<open>f64\<close> computes it: every operation
  is the exact result rounded to the nearest double, ties to even. A finite double is
  decoded into sign, mantissa and exponent; \<open>f64_round\<close> packs sign, mantissa, exponent (and
  whether a remainder was cut off) back into a bit pattern. Rust leaves the payload of a
  NaN result open; the model returns one quiet NaN. \<open>f64_val\<close> is the real number a finite
  double denotes. The lemmas show that the order on bit patterns is the order of the
  values and that arithmetic is exact on integers (and their halves) of at most 53 bits.
\<close>

section \<open>Bit patterns\<close>

datatype decoded = Nan | Infinite bool | Finite bool int int

definition f64_decode :: "f64 \<Rightarrow> decoded" where
  "f64_decode b =
     (let n = uint b; negative = (2 ^ 63 \<le> n); ex = (n div 2 ^ 52) mod 2048; fr = n mod 2 ^ 52
      in if ex = 2047 then (if fr = 0 then Infinite negative else Nan)
         else if ex = 0 then Finite negative fr (- 1074)
         else Finite negative (2 ^ 52 + fr) (ex - 1075))"

definition f64_of_bits :: "bool \<Rightarrow> int \<Rightarrow> f64" where
  "f64_of_bits negative n = word_of_int (n + (if negative then 2 ^ 63 else 0))"

definition f64_quiet_nan :: f64 where "f64_quiet_nan = f64_of_bits False (2047 * 2 ^ 52 + 2 ^ 51)"
definition f64_infinity :: "bool \<Rightarrow> f64" where "f64_infinity negative = f64_of_bits negative (2047 * 2 ^ 52)"
definition f64_signed_zero :: "bool \<Rightarrow> f64" where "f64_signed_zero negative = f64_of_bits negative 0"

function bit_len :: "int \<Rightarrow> nat" where
  "bit_len n = (if n \<le> 0 then 0 else Suc (bit_len (n div 2)))"
  by pat_completeness auto

termination
  by (relation "measure nat") (auto simp: nat_less_eq_zless)

declare bit_len.simps [simp del]

text \<open>
  The mantissa \<open>d\<close> in units of \<open>2 ^ q\<close>: either \<open>d\<close> has 53 bits or \<open>q\<close> is the least exponent.
  A mantissa rounded up to \<open>2 ^ 53\<close> carries into the exponent field.
\<close>

definition f64_pack :: "bool \<Rightarrow> int \<Rightarrow> int \<Rightarrow> f64" where
  "f64_pack negative d q =
     (let bits = (q + 1074) * 2 ^ 52 + d
      in if 2047 * 2 ^ 52 \<le> bits then f64_infinity negative else f64_of_bits negative bits)"

definition f64_round :: "bool \<Rightarrow> int \<Rightarrow> int \<Rightarrow> bool \<Rightarrow> f64" where
  "f64_round negative m e sticky =
     (if m = 0 then f64_signed_zero negative
      else
        let q = max (e + int (bit_len m) - 53) (- 1074); shift = q - e
        in if shift \<le> 0 then f64_pack negative (m * 2 ^ nat (- shift)) q
           else
             let d = m div 2 ^ nat shift; r = m mod 2 ^ nat shift; half = 2 ^ nat (shift - 1);
                 up = (half < r \<or> r = half \<and> (sticky \<or> odd d))
             in f64_pack negative (if up then d + 1 else d) q)"

text \<open>The double nearest to \<open>n * 2 ^ e\<close>.\<close>

definition f64_of_dyadic :: "int \<Rightarrow> int \<Rightarrow> f64" where
  "f64_of_dyadic n e = f64_round (n < 0) \<bar>n\<bar> e False"

definition f64_of_int :: "int \<Rightarrow> f64" where
  "f64_of_int n = f64_of_dyadic n 0"

section \<open>Operations\<close>

definition signed :: "bool \<Rightarrow> int \<Rightarrow> int" where
  "signed negative m = (if negative then - m else m)"

text \<open>Negation flips the sign bit, the absolute value clears it.\<close>

definition f64_neg :: "f64 \<Rightarrow> f64" where
  "f64_neg b = b + 0x8000000000000000"

definition f64_abs :: "f64 \<Rightarrow> f64" where
  "f64_abs b = take_bit 63 b"

definition f64_add :: "f64 \<Rightarrow> f64 \<Rightarrow> f64" where
  "f64_add a b =
     (case (f64_decode a, f64_decode b) of
        (Nan, _) \<Rightarrow> f64_quiet_nan
      | (_, Nan) \<Rightarrow> f64_quiet_nan
      | (Infinite s, Infinite t) \<Rightarrow> if s = t then a else f64_quiet_nan
      | (Infinite s, _) \<Rightarrow> a
      | (_, Infinite t) \<Rightarrow> b
      | (Finite s m e, Finite t n f) \<Rightarrow>
          let g = min e f;
              sum = signed s (m * 2 ^ nat (e - g)) + signed t (n * 2 ^ nat (f - g))
          in if sum = 0 then f64_signed_zero (s \<and> t) else f64_of_dyadic sum g)"

definition f64_sub :: "f64 \<Rightarrow> f64 \<Rightarrow> f64" where
  "f64_sub a b = f64_add a (f64_neg b)"

definition f64_mul :: "f64 \<Rightarrow> f64 \<Rightarrow> f64" where
  "f64_mul a b =
     (case (f64_decode a, f64_decode b) of
        (Nan, _) \<Rightarrow> f64_quiet_nan
      | (_, Nan) \<Rightarrow> f64_quiet_nan
      | (Infinite s, Infinite t) \<Rightarrow> f64_infinity (s \<noteq> t)
      | (Infinite s, Finite t n f) \<Rightarrow> if n = 0 then f64_quiet_nan else f64_infinity (s \<noteq> t)
      | (Finite s m e, Infinite t) \<Rightarrow> if m = 0 then f64_quiet_nan else f64_infinity (s \<noteq> t)
      | (Finite s m e, Finite t n f) \<Rightarrow> f64_round (s \<noteq> t) (m * n) (e + f) False)"

text \<open>120 further bits of quotient are more than the rounding needs; the remainder is sticky.\<close>

definition f64_div :: "f64 \<Rightarrow> f64 \<Rightarrow> f64" where
  "f64_div a b =
     (case (f64_decode a, f64_decode b) of
        (Nan, _) \<Rightarrow> f64_quiet_nan
      | (_, Nan) \<Rightarrow> f64_quiet_nan
      | (Infinite s, Infinite t) \<Rightarrow> f64_quiet_nan
      | (Infinite s, Finite t n f) \<Rightarrow> f64_infinity (s \<noteq> t)
      | (Finite s m e, Infinite t) \<Rightarrow> f64_signed_zero (s \<noteq> t)
      | (Finite s m e, Finite t n f) \<Rightarrow>
          if n = 0 then (if m = 0 then f64_quiet_nan else f64_infinity (s \<noteq> t))
          else f64_round (s \<noteq> t) (m * 2 ^ 120 div n) (e - f - 120) (m * 2 ^ 120 mod n \<noteq> 0))"

text \<open>The order: bit patterns compare as signed magnitudes.\<close>

definition f64_key :: "f64 \<Rightarrow> int" where
  "f64_key b = (let n = uint b in if 2 ^ 63 \<le> n then - (n - 2 ^ 63) else n)"

definition f64_is_nan :: "f64 \<Rightarrow> bool" where
  "f64_is_nan b \<longleftrightarrow> f64_decode b = Nan"

definition f64_is_finite :: "f64 \<Rightarrow> bool" where
  "f64_is_finite b = (case f64_decode b of Finite _ _ _ \<Rightarrow> True | _ \<Rightarrow> False)"

definition f64_less :: "f64 \<Rightarrow> f64 \<Rightarrow> bool" where
  "f64_less a b \<longleftrightarrow> \<not> f64_is_nan a \<and> \<not> f64_is_nan b \<and> f64_key a < f64_key b"

definition f64_less_eq :: "f64 \<Rightarrow> f64 \<Rightarrow> bool" where
  "f64_less_eq a b \<longleftrightarrow> \<not> f64_is_nan a \<and> \<not> f64_is_nan b \<and> f64_key a \<le> f64_key b"

definition f64_max :: "f64 \<Rightarrow> f64 \<Rightarrow> f64" where
  "f64_max a b = (if f64_is_nan a then b else if f64_is_nan b then a else if f64_less a b then b else a)"

definition f64_min :: "f64 \<Rightarrow> f64 \<Rightarrow> f64" where
  "f64_min a b = (if f64_is_nan a then b else if f64_is_nan b then a else if f64_less b a then b else a)"

definition f64_clamp :: "f64 \<Rightarrow> f64 \<Rightarrow> f64 \<Rightarrow> f64" where
  "f64_clamp a lo hi = (if f64_less a lo then lo else if f64_less hi a then hi else a)"

text \<open>\<open>n as f64\<close>, \<open>x as u64\<close> (truncating, saturating) and \<open>x.round()\<close> (half away from zero).\<close>

definition f64_of_u64 :: "u64 \<Rightarrow> f64" where
  "f64_of_u64 n = f64_of_int (uint n)"

definition f64_of_u32 :: "u32 \<Rightarrow> f64" where
  "f64_of_u32 n = f64_of_int (uint n)"

definition int_part :: "int \<Rightarrow> int \<Rightarrow> int" where
  "int_part m e = (if 0 \<le> e then m * 2 ^ nat e else m div 2 ^ nat (- e))"

definition u64_of_f64 :: "f64 \<Rightarrow> u64" where
  "u64_of_f64 b =
     (case f64_decode b of
        Nan \<Rightarrow> 0
      | Infinite negative \<Rightarrow> if negative then 0 else u64_max
      | Finite negative m e \<Rightarrow>
          if negative then 0
          else if 2 ^ 64 \<le> int_part m e then u64_max
          else word_of_int (int_part m e))"

definition f64_round_half_away :: "f64 \<Rightarrow> f64" where
  "f64_round_half_away b =
     (case f64_decode b of
        Finite negative m e \<Rightarrow>
          if 0 \<le> e then b
          else f64_round negative ((m + 2 ^ nat (- e - 1)) div 2 ^ nat (- e)) 0 False
      | _ \<Rightarrow> b)"

section \<open>Rounding is exact on short mantissas\<close>

lemma bit_len_bounds:
  "0 < n \<Longrightarrow> 2 ^ (bit_len n - 1) \<le> n \<and> n < 2 ^ bit_len n \<and> 0 < bit_len n"
proof (induction n rule: bit_len.induct)
  case (1 n)
  show ?case
  proof (cases "n = 1")
    case True
    then show ?thesis by (simp add: bit_len.simps)
  next
    case False
    with 1 have IH: "2 ^ (bit_len (n div 2) - 1) \<le> n div 2" "n div 2 < 2 ^ bit_len (n div 2)" "0 < bit_len (n div 2)"
      by auto
    have len: "bit_len n = Suc (bit_len (n div 2))" using 1 by (subst bit_len.simps) simp
    have "(2 :: int) ^ bit_len (n div 2) = 2 * 2 ^ (bit_len (n div 2) - 1)"
      using IH(3) by (cases "bit_len (n div 2)") simp_all
    moreover have "n = 2 * (n div 2) + n mod 2" "0 \<le> n mod 2" "n mod 2 < 2" by simp_all
    ultimately show ?thesis unfolding len using IH by (simp only: diff_Suc_1 power_Suc) linarith
  qed
qed

lemma bit_len_le: "0 < n \<Longrightarrow> n < 2 ^ k \<Longrightarrow> bit_len n \<le> k"
proof -
  assume n: "0 < n" "n < 2 ^ k"
  then have "(2 :: int) ^ (bit_len n - 1) < 2 ^ k" using bit_len_bounds [OF n(1)] by linarith
  then have "bit_len n - 1 < k" by simp
  then show ?thesis by linarith
qed

lemma bit_len_shift: "0 < n \<Longrightarrow> bit_len (n * 2 ^ k) = bit_len n + k"
proof (induction k)
  case (Suc k)
  have "bit_len (n * 2 ^ Suc k) = Suc (bit_len (n * 2 ^ Suc k div 2))"
    using Suc.prems by (subst bit_len.simps) (simp add: not_le zero_less_mult_iff)
  also have "n * 2 ^ Suc k div 2 = n * 2 ^ k" by simp
  finally show ?case using Suc by simp
qed simp

lemma uint_of_bits:
  assumes "0 \<le> n" and "n < 2 ^ 63"
  shows "uint (f64_of_bits negative n) = n + (if negative then 2 ^ 63 else 0)"
  using assms unfolding f64_of_bits_def uint_word_of_int by (auto simp: mod_pos_pos_trivial)

lemma decode_of_bits:
  assumes "0 \<le> n" and "n < 2 ^ 63"
  shows "f64_decode (f64_of_bits negative n) =
    (let ex = n div 2 ^ 52; fr = n mod 2 ^ 52
     in if ex = 2047 then (if fr = 0 then Infinite negative else Nan)
        else if ex = 0 then Finite negative fr (- 1074)
        else Finite negative (2 ^ 52 + fr) (ex - 1075))"
proof -
  let ?u = "uint (f64_of_bits negative n)"
  have range: "n div 2 ^ 52 < 2048" "0 \<le> n div 2 ^ 52" using assms by simp_all
  have negative: "(2 ^ 63 \<le> ?u) = negative" using assms by (simp add: uint_of_bits [OF assms])
  have "?u = n \<or> ?u = n + 2048 * 2 ^ 52" by (simp add: uint_of_bits [OF assms])
  then have "?u div 2 ^ 52 = n div 2 ^ 52 \<or> ?u div 2 ^ 52 = n div 2 ^ 52 + 2048" "?u mod 2 ^ 52 = n mod 2 ^ 52"
    using div_mult_self1 [of "2 ^ 52" n "2048 :: int"] mod_mult_self1 [of n "2048 :: int" "2 ^ 52"] by auto
  moreover from this(1) have "?u div 2 ^ 52 mod 2048 = n div 2 ^ 52"
    using range by (auto simp: mod_pos_pos_trivial)
  ultimately show ?thesis by (simp only: f64_decode_def Let_def negative)
qed

lemma decode_pack:
  assumes "0 \<le> d" and "d < 2 ^ 53" and "- 1074 \<le> q" and "q \<le> 971" and "q = - 1074 \<or> 2 ^ 52 \<le> d"
  shows "f64_decode (f64_pack negative d q) = Finite negative d q"
proof -
  let ?n = "(q + 1074) * 2 ^ 52 + d"
  have n: "0 \<le> ?n" "?n < 2047 * 2 ^ 52" using assms by simp_all
  then have pack: "f64_pack negative d q = f64_of_bits negative ?n" by (simp add: f64_pack_def)
  have "?n < 2 ^ 63" using n by simp
  note dec = decode_of_bits [OF n(1) this, of negative]
  show ?thesis
  proof (cases "d < 2 ^ 52")
    case True
    then have "q = - 1074" using assms(5) by auto
    with True assms(1) show ?thesis unfolding pack dec by (simp add: Let_def)
  next
    case False
    then have d: "?n = 2 ^ 52 * (q + 1075) + (d - 2 ^ 52)" "0 \<le> d - 2 ^ 52" "d - 2 ^ 52 < 2 ^ 52"
      using assms(2) by (simp_all add: algebra_simps)
    have "?n div 2 ^ 52 = q + 1075" "?n mod 2 ^ 52 = d - 2 ^ 52"
      using int_div_pos_eq [OF d] int_mod_pos_eq [OF d] by blast+
    with dec assms(3,4) show ?thesis by (simp add: pack)
  qed
qed

text \<open>The result only depends on the number \<open>m * 2 ^ e\<close>, not on how it is split.\<close>

lemma f64_round_shift:
  assumes "0 \<le> m"
  shows "f64_round negative (m * 2 ^ k) e False = f64_round negative m (e + int k) False"
proof (cases "m = 0")
  case False
  with assms have m: "0 < m" by simp
  define q0 where "q0 = max (e + int k + int (bit_len m) - 53) (- 1074)"
  then have q: "max (e + int (bit_len (m * 2 ^ k)) - 53) (- 1074) = q0"
    "max (e + int k + int (bit_len m) - 53) (- 1074) = q0" by (simp_all add: bit_len_shift [OF m] algebra_simps)
  consider "q0 - e \<le> 0" | "0 < q0 - e" "q0 - (e + int k) \<le> 0" | "0 < q0 - (e + int k)" by linarith
  then show ?thesis
  proof cases
    case 1
    then have "nat (- (q0 - (e + int k))) = k + nat (- (q0 - e))" by linarith
    then have "m * 2 ^ k * 2 ^ nat (- (q0 - e)) = m * 2 ^ nat (- (q0 - (e + int k)))"
      by (simp add: power_add)
    moreover have "q0 - (e + int k) \<le> 0" using 1 by linarith
    ultimately show ?thesis using 1 m unfolding f64_round_def q by (simp add: Let_def mult.assoc)
  next
    case 2
    then have k: "k = nat (q0 - e) + nat (- (q0 - (e + int k)))" by linarith
    have pow: "m * 2 ^ k = (m * 2 ^ nat (- (q0 - (e + int k)))) * 2 ^ nat (q0 - e)"
      by (subst k) (simp add: power_add)
    have "m * 2 ^ k div 2 ^ nat (q0 - e) = m * 2 ^ nat (- (q0 - (e + int k)))" "m * 2 ^ k mod 2 ^ nat (q0 - e) = 0"
      unfolding pow by simp_all
    with 2 m show ?thesis unfolding f64_round_def q by (simp add: Let_def)
  next
    case 3
    let ?s = "nat (q0 - (e + int k))"
    have s: "nat (q0 - e) = ?s + k" "nat (q0 - e - 1) = nat (q0 - (e + int k) - 1) + k" "0 < q0 - e"
      using 3 by linarith+
    have "m * 2 ^ k div 2 ^ (?s + k) = m div 2 ^ ?s" "m * 2 ^ k mod 2 ^ (?s + k) = (m mod 2 ^ ?s) * 2 ^ k"
      by (simp_all add: power_add mult_mod_left)
    with 3 s m show ?thesis unfolding f64_round_def q by (simp add: Let_def power_add)
  qed
qed (simp add: f64_round_def)

lemma f64_of_dyadic_shift: "f64_of_dyadic (n * 2 ^ k) e = f64_of_dyadic n (e + int k)"
  using f64_round_shift [of "\<bar>n\<bar>" "n < 0" k e]
  by (simp add: f64_of_dyadic_def abs_mult mult_less_0_iff)

lemma decode_zero: "f64_decode (f64_signed_zero s) = Finite s 0 (- 1074)"
  using decode_of_bits [of 0 s] by (simp add: f64_signed_zero_def)

text \<open>A number of at most 53 bits is represented exactly.\<close>

lemma decode_round_exact:
  assumes "0 \<le> m" and "m < 2 ^ 53" and "- 1074 \<le> e" and "e \<le> 918"
  shows "\<exists>k. f64_decode (f64_round negative m e False) = Finite negative (m * 2 ^ k) (e - int k) \<and> m * 2 ^ k < 2 ^ 53"
proof (cases "m = 0")
  case True
  then show ?thesis using decode_zero assms(3) by (auto simp: f64_round_def intro!: exI [of _ "nat (e + 1074)"])
next
  case False
  with assms have m: "0 < m" by simp
  let ?q = "max (e + int (bit_len m) - 53) (- 1074)"
  let ?k = "nat (- (?q - e))"
  have len: "bit_len m \<le> 53" by (rule bit_len_le [OF m assms(2)])
  then have shift: "?q - e \<le> 0" "?q \<le> 971" using assms(3,4) by linarith+
  have q: "?q = e - int ?k" using shift by linarith
  have bounds: "2 ^ (bit_len m - 1) \<le> m" "m < 2 ^ bit_len m" "0 < bit_len m" using bit_len_bounds [OF m] by blast+
  have k: "bit_len m + ?k \<le> 53" using len by linarith
  have "m * 2 ^ ?k < 2 ^ bit_len m * 2 ^ ?k" using bounds(2) by simp
  also have "\<dots> \<le> 2 ^ 53"
    using power_increasing [OF k, of "2 :: int"] by (simp only: power_add)
  finally have lt: "m * 2 ^ ?k < 2 ^ 53" .
  have "?q = - 1074 \<or> 2 ^ 52 \<le> m * 2 ^ ?k"
  proof (cases "?q = - 1074")
    case False
    then have "bit_len m - 1 + ?k = 52" using bounds(3) len by linarith
    then have "(2 :: int) ^ 52 = 2 ^ (bit_len m - 1) * 2 ^ ?k" by (simp flip: power_add)
    also have "\<dots> \<le> m * 2 ^ ?k" by (rule mult_right_mono [OF bounds(1)]) simp
    finally show ?thesis by blast
  qed simp
  then have "f64_decode (f64_pack negative (m * 2 ^ ?k) ?q) = Finite negative (m * 2 ^ ?k) ?q"
    using m lt shift by (intro decode_pack) simp_all
  moreover have "f64_round negative m e False = f64_pack negative (m * 2 ^ ?k) ?q"
    using shift(1) m by (simp add: f64_round_def Let_def)
  ultimately show ?thesis using q lt by metis
qed

lemma decode_dyadic:
  assumes "\<bar>n\<bar> < 2 ^ 53" and "- 1074 \<le> e" and "e \<le> 918"
  obtains k where "f64_decode (f64_of_dyadic n e) = Finite (n < 0) (\<bar>n\<bar> * 2 ^ k) (e - int k)" "\<bar>n\<bar> * 2 ^ k < 2 ^ 53"
  using decode_round_exact [of "\<bar>n\<bar>" e "n < 0"] assms unfolding f64_of_dyadic_def by auto

section \<open>Exact arithmetic\<close>

lemma uint_neg: "uint (f64_neg b) = (if 2 ^ 63 \<le> uint b then uint b - 2 ^ 63 else uint b + 2 ^ 63)"
proof -
  have b: "0 \<le> uint b" "uint b < 2 ^ 64" using uint_lt2p [of b] by simp_all
  have "uint (f64_neg b) = (uint b + 2 ^ 63) mod 2 ^ 64"
    unfolding f64_neg_def by (simp add: uint_word_ariths)
  also have "\<dots> = (if 2 ^ 63 \<le> uint b then uint b - 2 ^ 63 else uint b + 2 ^ 63)"
  proof (cases "2 ^ 63 \<le> uint b")
    case True
    then have "uint b + 2 ^ 63 = (uint b - 2 ^ 63) + 2 ^ 64" by simp
    then have "(uint b + 2 ^ 63) mod 2 ^ 64 = (uint b - 2 ^ 63) mod 2 ^ 64" by (simp only: mod_add_self2)
    also have "\<dots> = uint b - 2 ^ 63" by (rule mod_pos_pos_trivial) (use True b in simp_all)
    finally show ?thesis using True by simp
  qed (use b in \<open>simp add: mod_pos_pos_trivial\<close>)
  finally show ?thesis .
qed

lemma magnitude_cases:
  obtains n negative where "0 \<le> n" "n < 2 ^ 63" "b = f64_of_bits negative n"
    "uint b = n + (if negative then 2 ^ 63 else 0)"
proof (cases "2 ^ 63 \<le> uint b")
  case True
  have "uint b < 2 ^ 64" using uint_lt2p [of b] by simp
  then show ?thesis using True by (intro that [of "uint b - 2 ^ 63" True]) (simp_all add: f64_of_bits_def)
next
  case False
  then show ?thesis by (intro that [of "uint b" False]) (simp_all add: f64_of_bits_def)
qed

lemma f64_neg_of_bits:
  assumes "0 \<le> n" and "n < 2 ^ 63"
  shows "f64_neg (f64_of_bits negative n) = f64_of_bits (\<not> negative) n"
  using assms by (simp add: word_uint_eq_iff uint_neg uint_of_bits)

lemma decode_neg: "f64_decode (f64_neg b) =
    (case f64_decode b of Nan \<Rightarrow> Nan | Infinite s \<Rightarrow> Infinite (\<not> s) | Finite s m e \<Rightarrow> Finite (\<not> s) m e)"
proof -
  obtain n negative where n: "0 \<le> n" "n < 2 ^ 63" "b = f64_of_bits negative n" by (rule magnitude_cases)
  show ?thesis unfolding n(3) f64_neg_of_bits [OF n(1,2)] decode_of_bits [OF n(1,2)] by (simp add: Let_def)
qed

lemma signed_abs [simp]: "signed (n < 0) \<bar>n\<bar> = n" "signed (n < 0) (\<bar>n\<bar> * k) = n * k"
  by (simp_all add: signed_def)

lemma signed_not: "signed (\<not> s) m = - signed s m"
  by (simp add: signed_def)

lemma f64_of_dyadic_zero: "f64_of_dyadic 0 e = f64_signed_zero False"
  by (simp add: f64_of_dyadic_def f64_round_def)

lemma align: "n + j = h \<Longrightarrow> (x :: int) * 2 ^ j * 2 ^ n = x * 2 ^ h"
  by (auto simp: power_add)

lemma add_dyadic:
  assumes "\<bar>a\<bar> < 2 ^ 53" and "\<bar>b\<bar> < 2 ^ 53" and "- 1074 \<le> e" and "e \<le> 918"
  shows "f64_add (f64_of_dyadic a e) (f64_of_dyadic b e) = f64_of_dyadic (a + b) e"
proof -
  obtain j where j: "f64_decode (f64_of_dyadic a e) = Finite (a < 0) (\<bar>a\<bar> * 2 ^ j) (e - int j)"
    by (rule decode_dyadic [OF assms(1,3,4)])
  obtain k where k: "f64_decode (f64_of_dyadic b e) = Finite (b < 0) (\<bar>b\<bar> * 2 ^ k) (e - int k)"
    by (rule decode_dyadic [OF assms(2,3,4)])
  let ?g = "min (e - int j) (e - int k)" and ?h = "max j k"
  have g: "?g = e - int ?h" "nat (e - int j - ?g) + j = ?h" "nat (e - int k - ?g) + k = ?h" by linarith+
  have "\<bar>a\<bar> * 2 ^ j * 2 ^ nat (e - int j - ?g) = \<bar>a\<bar> * 2 ^ ?h" "\<bar>b\<bar> * 2 ^ k * 2 ^ nat (e - int k - ?g) = \<bar>b\<bar> * 2 ^ ?h"
    by (rule align [OF g(2)], rule align [OF g(3)])
  then have "f64_add (f64_of_dyadic a e) (f64_of_dyadic b e) =
      (if (a + b) * 2 ^ ?h = 0 then f64_signed_zero (a < 0 \<and> b < 0) else f64_of_dyadic ((a + b) * 2 ^ ?h) ?g)"
    unfolding f64_add_def j k by (simp only: prod.case decoded.case Let_def signed_abs distrib_right)
  moreover have "f64_of_dyadic ((a + b) * 2 ^ ?h) ?g = f64_of_dyadic (a + b) e"
    unfolding f64_of_dyadic_shift g(1) by simp
  moreover have "a + b = 0 \<Longrightarrow> \<not> (a < 0 \<and> b < 0)" by linarith
  ultimately show ?thesis by (cases "a + b = 0") (simp_all add: f64_of_dyadic_zero)
qed

lemma sub_dyadic:
  assumes "\<bar>a\<bar> < 2 ^ 53" and "\<bar>b\<bar> < 2 ^ 53" and "- 1074 \<le> e" and "e \<le> 918"
  shows "f64_sub (f64_of_dyadic a e) (f64_of_dyadic b e) = f64_of_dyadic (a - b) e"
proof -
  obtain j where j: "f64_decode (f64_of_dyadic a e) = Finite (a < 0) (\<bar>a\<bar> * 2 ^ j) (e - int j)"
    by (rule decode_dyadic [OF assms(1,3,4)])
  obtain k where k: "f64_decode (f64_neg (f64_of_dyadic b e)) = Finite (\<not> b < 0) (\<bar>b\<bar> * 2 ^ k) (e - int k)"
    by (rule decode_dyadic [OF assms(2,3,4)]) (simp add: decode_neg that)
  let ?g = "min (e - int j) (e - int k)" and ?h = "max j k"
  have g: "?g = e - int ?h" "nat (e - int j - ?g) + j = ?h" "nat (e - int k - ?g) + k = ?h" by linarith+
  have "\<bar>a\<bar> * 2 ^ j * 2 ^ nat (e - int j - ?g) = \<bar>a\<bar> * 2 ^ ?h" "\<bar>b\<bar> * 2 ^ k * 2 ^ nat (e - int k - ?g) = \<bar>b\<bar> * 2 ^ ?h"
    by (rule align [OF g(2)], rule align [OF g(3)])
  then have "f64_sub (f64_of_dyadic a e) (f64_of_dyadic b e) =
      (if (a - b) * 2 ^ ?h = 0 then f64_signed_zero (a < 0 \<and> \<not> b < 0) else f64_of_dyadic ((a - b) * 2 ^ ?h) ?g)"
    unfolding f64_sub_def f64_add_def j k
    by (simp only: prod.case decoded.case Let_def signed_abs signed_not left_diff_distrib) simp
  also have "f64_of_dyadic ((a - b) * 2 ^ ?h) ?g = f64_of_dyadic (a - b) e"
    unfolding f64_of_dyadic_shift g(1) by simp
  finally show ?thesis by (cases "a - b = 0") (auto simp: f64_of_dyadic_zero)
qed

lemma mul_dyadic:
  assumes "\<bar>a\<bar> < 2 ^ 53" and "\<bar>b\<bar> < 2 ^ 53" and "- 1074 \<le> e" and "e \<le> 918" and "- 1074 \<le> f" and "f \<le> 918"
    and "0 \<le> a" and "0 \<le> b"
  shows "f64_mul (f64_of_dyadic a e) (f64_of_dyadic b f) = f64_of_dyadic (a * b) (e + f)"
proof -
  obtain j where j: "f64_decode (f64_of_dyadic a e) = Finite (a < 0) (\<bar>a\<bar> * 2 ^ j) (e - int j)"
    by (rule decode_dyadic [OF assms(1,3,4)])
  obtain k where k: "f64_decode (f64_of_dyadic b f) = Finite (b < 0) (\<bar>b\<bar> * 2 ^ k) (f - int k)"
    by (rule decode_dyadic [OF assms(2,5,6)])
  have "f64_mul (f64_of_dyadic a e) (f64_of_dyadic b f) =
      f64_round False (a * b * 2 ^ (j + k)) (e - int j + (f - int k)) False"
    using assms(7,8) by (simp add: f64_mul_def j k power_add ac_simps)
  also have "\<dots> = f64_of_dyadic (a * b) (e + f)"
    using mult_nonneg_nonneg [OF assms(7,8)] by (subst f64_round_shift) (simp_all add: f64_of_dyadic_def algebra_simps mult_nonneg_nonneg not_less)
  finally show ?thesis .
qed

lemma div_dyadic:
  assumes "\<bar>a * b\<bar> < 2 ^ 53" and "\<bar>b\<bar> < 2 ^ 53" and "- 1074 \<le> e" and "e \<le> 918" and "- 1074 \<le> f" and "f \<le> 918"
    and "0 < b"
  shows "f64_div (f64_of_dyadic (a * b) e) (f64_of_dyadic b f) = f64_of_dyadic a (e - f)"
proof -
  obtain j where j: "f64_decode (f64_of_dyadic (a * b) e) = Finite (a * b < 0) (\<bar>a * b\<bar> * 2 ^ j) (e - int j)"
    by (rule decode_dyadic [OF assms(1,3,4)])
  obtain k where k: "f64_decode (f64_of_dyadic b f) = Finite (b < 0) (\<bar>b\<bar> * 2 ^ k) (f - int k)" "\<bar>b\<bar> * 2 ^ k < 2 ^ 53"
    by (rule decode_dyadic [OF assms(2,5,6)])
  have "(2 :: int) ^ k \<le> \<bar>b\<bar> * 2 ^ k" using assms(7) by simp
  with k(2) have "(2 :: int) ^ k < 2 ^ 53" by linarith
  then have "k < 53" by (rule power_less_imp_less_exp [rotated]) simp
  then have h: "j + 120 = (j + 120 - k) + k" by simp
  have pow: "\<bar>a * b\<bar> * 2 ^ j * 2 ^ 120 = \<bar>a\<bar> * 2 ^ (j + 120 - k) * (\<bar>b\<bar> * 2 ^ k)"
  proof -
    have "\<bar>a * b\<bar> * 2 ^ j * 2 ^ 120 = \<bar>a\<bar> * \<bar>b\<bar> * 2 ^ (j + 120)" by (simp add: abs_mult power_add)
    also have "(2 :: int) ^ (j + 120) = 2 ^ (j + 120 - k) * 2 ^ k" by (subst h) (rule power_add)
    finally show ?thesis by (simp only: ac_simps)
  qed
  have nz: "\<bar>b\<bar> * 2 ^ k \<noteq> 0" using assms(7) by simp
  have "f64_div (f64_of_dyadic (a * b) e) (f64_of_dyadic b f) =
      f64_round (a < 0) (\<bar>a\<bar> * 2 ^ (j + 120 - k)) (e - int j - (f - int k) - 120) False"
    unfolding f64_div_def j k(1) pow prod.case decoded.case nonzero_mult_div_cancel_right [OF nz]
    using nz assms(7) by (simp add: mult_less_0_iff)
  also have "\<dots> = f64_of_dyadic a (e - f)"
    using \<open>k < 53\<close> by (subst f64_round_shift) (simp_all add: f64_of_dyadic_def algebra_simps)
  finally show ?thesis .
qed

section \<open>Values and order\<close>

definition f64_val :: "f64 \<Rightarrow> real" where
  "f64_val b = (case f64_decode b of Finite s m e \<Rightarrow> of_int (signed s m) * 2 powi e | _ \<Rightarrow> 0)"

text \<open>The value of a magnitude: the bits without the sign.\<close>

definition magnitude :: "int \<Rightarrow> real" where
  "magnitude n = (if n div 2 ^ 52 = 0 then of_int (n mod 2 ^ 52) * 2 powi (- 1074)
     else of_int (2 ^ 52 + n mod 2 ^ 52) * 2 powi (n div 2 ^ 52 - 1075))"

lemma magnitude_Suc:
  assumes "0 \<le> n"
  shows "magnitude n < magnitude (n + 1)"
proof (cases "n mod 2 ^ 52 = 2 ^ 52 - 1")
  case False
  have "n mod 2 ^ 52 < 2 ^ 52" by simp
  with False have lt: "n mod 2 ^ 52 + 1 < 2 ^ 52" by linarith
  have "n + 1 = 2 ^ 52 * (n div 2 ^ 52) + (n mod 2 ^ 52 + 1)" by simp
  from int_div_pos_eq [OF this _ lt] int_mod_pos_eq [OF this _ lt]
  have "(n + 1) div 2 ^ 52 = n div 2 ^ 52" "(n + 1) mod 2 ^ 52 = n mod 2 ^ 52 + 1" by simp_all
  then show ?thesis unfolding magnitude_def by (simp add: zero_less_power_int)
next
  case True
  have "n + 1 = 2 ^ 52 * (n div 2 ^ 52 + 1) + 0" using True mult_div_mod_eq [of "2 ^ 52" n] by (simp add: distrib_left)
  from int_div_pos_eq [OF this] int_mod_pos_eq [OF this]
  have next1: "(n + 1) div 2 ^ 52 = n div 2 ^ 52 + 1" "(n + 1) mod 2 ^ 52 = 0" by simp_all
  have ex: "0 \<le> n div 2 ^ 52" using assms by simp
  show ?thesis
  proof (cases "n div 2 ^ 52 = 0")
    case zero: True
    show ?thesis unfolding magnitude_def next1 unfolding zero True by (simp add: zero_less_power_int)
  next
    case False
    with ex have "n div 2 ^ 52 + 1 \<noteq> 0" by linarith
    have "(2 :: real) powi (n div 2 ^ 52 + 1 - 1075) = 2 * 2 powi (n div 2 ^ 52 - 1075)"
      using power_int_add_1 [of "2 :: real" "n div 2 ^ 52 - 1075"] by (simp add: algebra_simps)
    then show ?thesis unfolding magnitude_def next1 True using False \<open>n div 2 ^ 52 + 1 \<noteq> 0\<close>
      by (simp add: zero_less_power_int)
  qed
qed

lemma magnitude_less: "0 \<le> n \<Longrightarrow> n < n' \<Longrightarrow> magnitude n < magnitude n'"
proof -
  have mono: "magnitude (int k) < magnitude (int (Suc k))" for k
    using magnitude_Suc [of "int k"] by (simp add: add.commute)
  assume n: "0 \<le> n" "n < n'"
  then have "nat n < nat n'" by linarith
  with mono have "magnitude (int (nat n)) < magnitude (int (nat n'))" by (rule lift_Suc_mono_less)
  with n show ?thesis by simp
qed

lemma magnitude_zero [simp]: "magnitude 0 = 0"
  by (simp add: magnitude_def)

lemma magnitude_less_iff: "0 \<le> n \<Longrightarrow> 0 \<le> n' \<Longrightarrow> magnitude n < magnitude n' \<longleftrightarrow> n < n'"
  using magnitude_less [of n n'] magnitude_less [of n' n] by (cases n n' rule: linorder_cases) auto

lemma magnitude_nonneg: "0 \<le> n \<Longrightarrow> 0 \<le> magnitude n"
  using magnitude_less [of 0 n] by (cases "n = 0") auto

lemma f64_val_of_bits:
  assumes "0 \<le> n" and "n < 2 ^ 63" and "f64_is_finite (f64_of_bits negative n)"
  shows "f64_val (f64_of_bits negative n) = (if negative then - magnitude n else magnitude n)"
  using assms(3) unfolding f64_val_def f64_is_finite_def decode_of_bits [OF assms(1,2)] magnitude_def
  by (auto simp: Let_def signed_def split: if_splits)

lemma f64_key_of_bits:
  assumes "0 \<le> n" and "n < 2 ^ 63"
  shows "f64_key (f64_of_bits negative n) = (if negative then - n else n)"
  using assms by (simp add: f64_key_def uint_of_bits)

text \<open>On finite doubles the order of the keys is the order of the values.\<close>

lemma f64_key_less_iff:
  assumes "f64_is_finite a" and "f64_is_finite b"
  shows "f64_key a < f64_key b \<longleftrightarrow> f64_val a < f64_val b"
proof -
  obtain n s where n: "0 \<le> n" "n < 2 ^ 63" "a = f64_of_bits s n" by (rule magnitude_cases)
  obtain m t where m: "0 \<le> m" "m < 2 ^ 63" "b = f64_of_bits t m" by (rule magnitude_cases)
  have val: "f64_val a = (if s then - magnitude n else magnitude n)" "f64_val b = (if t then - magnitude m else magnitude m)"
    using assms unfolding n(3) m(3) by (simp_all only: f64_val_of_bits n(1,2) m(1,2))
  have key: "f64_key a = (if s then - n else n)" "f64_key b = (if t then - m else m)"
    unfolding n(3) m(3) by (simp_all only: f64_key_of_bits n(1,2) m(1,2))
  have less: "magnitude n < magnitude m \<longleftrightarrow> n < m" "magnitude m < magnitude n \<longleftrightarrow> m < n"
    "0 < magnitude n \<longleftrightarrow> 0 < n" "0 < magnitude m \<longleftrightarrow> 0 < m"
    using magnitude_less_iff [of n m] magnitude_less_iff [of m n] magnitude_less_iff [of 0 n]
      magnitude_less_iff [of 0 m] n(1) m(1) by simp_all
  note nonneg = magnitude_nonneg [OF n(1)] magnitude_nonneg [OF m(1)]
  show ?thesis unfolding val key
    by (cases s; cases t) (use less nonneg n(1) m(1) in \<open>simp_all; linarith\<close>)+
qed

lemma dyadic_val:
  assumes "\<bar>n\<bar> < 2 ^ 53" and "- 1074 \<le> e" and "e \<le> 918"
  shows "f64_is_finite (f64_of_dyadic n e)" "f64_val (f64_of_dyadic n e) = of_int n * 2 powi e"
proof -
  obtain k where k: "f64_decode (f64_of_dyadic n e) = Finite (n < 0) (\<bar>n\<bar> * 2 ^ k) (e - int k)"
    by (rule decode_dyadic [OF assms])
  then show "f64_is_finite (f64_of_dyadic n e)" by (simp add: f64_is_finite_def)
  have "(2 :: real) ^ k * 2 powi (e - int k) = 2 powi e"
    by (simp flip: power_int_of_nat power_int_add)
  then show "f64_val (f64_of_dyadic n e) = of_int n * 2 powi e"
    by (simp add: f64_val_def k mult.assoc)
qed

lemma finite_not_nan: "f64_is_finite b \<Longrightarrow> \<not> f64_is_nan b"
  by (auto simp: f64_is_finite_def f64_is_nan_def)

lemma f64_less_dyadic:
  assumes "\<bar>a\<bar> < 2 ^ 53" and "\<bar>b\<bar> < 2 ^ 53" and "- 1074 \<le> e" and "e \<le> 918"
  shows "f64_less (f64_of_dyadic a e) (f64_of_dyadic b e) \<longleftrightarrow> a < b"
proof -
  note a = dyadic_val [OF assms(1,3,4)] and b = dyadic_val [OF assms(2,3,4)]
  have "f64_less (f64_of_dyadic a e) (f64_of_dyadic b e) \<longleftrightarrow> f64_val (f64_of_dyadic a e) < f64_val (f64_of_dyadic b e)"
    using a(1) b(1) by (simp add: f64_less_def f64_key_less_iff finite_not_nan)
  also have "\<dots> \<longleftrightarrow> a < b" by (simp add: a(2) b(2) zero_less_power_int)
  finally show ?thesis .
qed

section \<open>Integers\<close>

text \<open>A value that the code computes from integers of fewer than 53 bits.\<close>

definition small :: "int \<Rightarrow> bool" where
  "small n \<longleftrightarrow> \<bar>n\<bar> < 2 ^ 53"

named_theorems f64_exact \<open>operations on doubles that hold integers\<close>

lemma f64_of_int_ops [f64_exact]:
  assumes "small a" and "small b"
  shows "f64_add (f64_of_int a) (f64_of_int b) = f64_of_int (a + b)"
    "f64_sub (f64_of_int a) (f64_of_int b) = f64_of_int (a - b)"
    "0 \<le> a \<Longrightarrow> 0 \<le> b \<Longrightarrow> f64_mul (f64_of_int a) (f64_of_int b) = f64_of_int (a * b)"
    "f64_less (f64_of_int a) (f64_of_int b) \<longleftrightarrow> a < b"
    "f64_less_eq (f64_of_int a) (f64_of_int b) \<longleftrightarrow> a \<le> b"
proof -
  have less: "f64_less (f64_of_int a) (f64_of_int b) \<longleftrightarrow> a < b" "f64_less (f64_of_int b) (f64_of_int a) \<longleftrightarrow> b < a"
    using assms by (simp_all add: small_def f64_of_int_def f64_less_dyadic)
  then show "f64_less (f64_of_int a) (f64_of_int b) \<longleftrightarrow> a < b" by blast
  have "\<not> f64_is_nan (f64_of_int a)" "\<not> f64_is_nan (f64_of_int b)"
    using assms dyadic_val(1) by (simp_all add: small_def f64_of_int_def finite_not_nan)
  with less(2) show "f64_less_eq (f64_of_int a) (f64_of_int b) \<longleftrightarrow> a \<le> b"
    by (auto simp: f64_less_eq_def f64_less_def not_less)
qed (use assms in \<open>simp_all add: small_def f64_of_int_def add_dyadic sub_dyadic mul_dyadic\<close>)

lemma f64_of_int_not_nan [simp]: "small a \<Longrightarrow> \<not> f64_is_nan (f64_of_int a)"
  using dyadic_val(1) by (simp add: small_def f64_of_int_def finite_not_nan)

lemma f64_of_int_max_min [f64_exact]:
  assumes "small a" and "small b"
  shows "f64_max (f64_of_int a) (f64_of_int b) = f64_of_int (max a b)"
    "f64_min (f64_of_int a) (f64_of_int b) = f64_of_int (min a b)"
  using assms by (auto simp: f64_max_def f64_min_def f64_of_int_ops max_def min_def)

lemma f64_of_int_div [f64_exact]:
  assumes "small (a * b)" and "small b" and "0 < b"
  shows "f64_div (f64_of_int (a * b)) (f64_of_int b) = f64_of_int a"
  using div_dyadic [of a b 0 0] assms by (simp add: small_def f64_of_int_def)

text \<open>Halves.\<close>

lemma f64_half [f64_exact]:
  assumes "small n"
  shows "f64_div (f64_of_int n) (f64_of_int 2) = f64_of_dyadic n (- 1)"
proof -
  have "f64_of_int 2 = f64_of_dyadic 1 1" using f64_of_dyadic_shift [of 1 1 0] by (simp add: f64_of_int_def)
  then show ?thesis using div_dyadic [of n 1 0 1] assms by (simp add: small_def f64_of_int_def)
qed

lemma decode_of_int:
  assumes "small n" and "0 \<le> n"
  obtains k where "f64_decode (f64_of_int n) = Finite False (n * 2 ^ k) (- int k)"
  using decode_dyadic [of n 0] assms unfolding small_def f64_of_int_def by (auto simp: not_less)

lemma u64_of_f64_of_int [f64_exact]:
  assumes "small n" and "0 \<le> n"
  shows "u64_of_f64 (f64_of_int n) = word_of_int n"
proof -
  obtain k where k: "f64_decode (f64_of_int n) = Finite False (n * 2 ^ k) (- int k)"
    by (rule decode_of_int [OF assms])
  have "int_part (n * 2 ^ k) (- int k) = n" by (simp add: int_part_def)
  then show ?thesis using assms by (simp add: u64_of_f64_def k small_def)
qed

lemma f64_round_of_int [f64_exact]:
  assumes "small n" and "0 \<le> n"
  shows "f64_round_half_away (f64_of_int n) = f64_of_int n"
proof -
  obtain k where k: "f64_decode (f64_of_int n) = Finite False (n * 2 ^ k) (- int k)"
    by (rule decode_of_int [OF assms])
  show ?thesis
  proof (cases "k = 0")
    case True
    then show ?thesis by (simp add: f64_round_half_away_def k)
  next
    case False
    then have nat: "nat (int k - 1) = k - 1" by simp
    have "(n * 2 ^ k + 2 ^ (k - 1)) div 2 ^ k = n + 2 ^ (k - 1) div 2 ^ k" by simp
    also have "(2 :: int) ^ (k - 1) div 2 ^ k = 0" using False by (simp add: div_pos_pos_trivial power_strict_increasing)
    finally have "f64_round_half_away (f64_of_int n) = f64_round False n 0 False"
      using False by (simp add: f64_round_half_away_def k nat)
    then show ?thesis using assms(2) by (simp add: f64_of_int_def f64_of_dyadic_def)
  qed
qed

lemma small_uint32 [simp]: "small (uint (w :: u32))"
proof -
  have "uint w < 2 ^ 32" using uint_lt2p [of w] by simp
  then show ?thesis by (simp add: small_def)
qed

text \<open>Sample results, as hardware computes them: \<open>1 / 3\<close> and \<open>0.1 + 0.2\<close>.\<close>

lemma f64_samples:
  "f64_div (f64_of_int 1) (f64_of_int 3) = 0x3FD5555555555555"
  "f64_add 0x3FB999999999999A 0x3FC999999999999A = 0x3FD3333333333334"
  by code_simp+

section \<open>Durations\<close>

text \<open>\<open>Duration::as_secs_f64\<close> of a number of nanoseconds.\<close>

definition as_secs_f64 :: "int \<Rightarrow> f64" where
  "as_secs_f64 ns =
     f64_add (f64_of_int (ns div 10 ^ 9)) (f64_div (f64_of_int (ns mod 10 ^ 9)) (f64_of_int (10 ^ 9)))"

lemma as_secs_whole:
  assumes "0 \<le> s" and "s < 2 ^ 20"
  shows "as_secs_f64 (s * 10 ^ 9) = f64_of_int s"
proof -
  have "f64_div (f64_of_int 0) (f64_of_int (10 ^ 9)) = f64_of_int 0"
    using f64_of_int_div [of 0 "10 ^ 9"] by (simp add: small_def)
  moreover have "small s" using assms by (simp add: small_def)
  ultimately show ?thesis using f64_of_int_ops(1) [of s 0] by (simp add: as_secs_f64_def small_def)
qed

end
