(* ===== verification/Replay.thy ===== *)
theory Replay
  imports Convergence Floats
begin

text \<open>
  Session replay (\<open>tpt-av-sync-crdt/src/replay.rs\<close>). The blocking sleeps are an output:
  the list of durations (nanoseconds) that a real-time replay sleeps for, in order. Scaling a
  gap between capture times divides by the speed, which panics when the quotient is no
  duration; the panic is an outcome of the replay. The lemmas show that a replay that does not
  panic reproduces the session whatever the capture clocks say, and when it panics.
\<close>

datatype replay_speed = Instant | Realtime f64

record session_recording =
  rec_ops :: "tagged_operation list"

definition recording_new :: "tagged_operation list \<Rightarrow> session_recording" where
  "recording_new ops = \<lparr>rec_ops = sort_key timestamp ops\<rparr>"

definition recording_len :: "session_recording \<Rightarrow> nat" where
  "recording_len r = length (rec_ops r)"

definition recording_is_empty :: "session_recording \<Rightarrow> bool" where
  "recording_is_empty r \<longleftrightarrow> rec_ops r = []"

definition recording_time_range :: "session_recording \<Rightarrow> (int \<times> int) option" where
  "recording_time_range r =
     (if rec_ops r = [] then None
      else Some (timestamp (hd (rec_ops r)), timestamp (last (rec_ops r))))"

text \<open>\<open>factor > 0.0\<close> on the bit pattern.\<close>

definition f64_positive :: "f64 \<Rightarrow> bool" where
  "f64_positive b \<longleftrightarrow> \<not> f64_nan b \<and> b AND 0x8000000000000000 = 0 \<and> b \<noteq> 0"

text \<open>
  \<open>Duration::from_secs_f64\<close> as nanoseconds: rounded to the nearest, ties to even; \<open>None\<close> is its panic
  on a NaN, a negative number, an infinity and on \<open>2 ^ 64\<close> seconds and more. \<open>Duration::div_f64\<close>.
\<close>

definition duration_from_secs_f64 :: "f64 \<Rightarrow> int option" where
  "duration_from_secs_f64 secs =
     (case f64_decode secs of
        Finite negative m e \<Rightarrow>
          if negative \<and> m \<noteq> 0 then None
          else if 0 \<le> e then (if 2 ^ 64 \<le> m * 2 ^ nat e then None else Some (m * 10 ^ 9 * 2 ^ nat e))
          else
            let d = 2 ^ nat (- e); q = m * 10 ^ 9 div d; r = m * 10 ^ 9 mod d
            in if 2 ^ 64 * d \<le> m then None
               else Some (if d < 2 * r \<or> d = 2 * r \<and> odd q then q + 1 else q)
      | _ \<Rightarrow> None)"

definition duration_div_f64 :: "int \<Rightarrow> f64 \<Rightarrow> int option" where
  "duration_div_f64 ns factor = duration_from_secs_f64 (f64_div (as_secs_f64 ns) factor)"

text \<open>What a replay comes to if it returns.\<close>

datatype 'a outcome = Returned 'a | Panicked

text \<open>The sleep before an operation, if any; \<open>None\<close> if scaling the gap panics.\<close>

definition replay_gap :: "replay_speed \<Rightarrow> int option \<Rightarrow> int \<Rightarrow> int list option" where
  "replay_gap speed previous now =
     (case (speed, previous) of
        (Realtime factor, Some prev) \<Rightarrow>
          if f64_positive factor \<and> prev \<le> now
          then (case duration_div_f64 (now - prev) factor of
              None \<Rightarrow> None
            | Some scaled \<Rightarrow> if 0 < scaled then Some [scaled] else Some [])
          else Some []
      | _ \<Rightarrow> Some [])"

fun replay_loop ::
  "replay_speed \<Rightarrow> (tagged_operation \<Rightarrow> bool) \<Rightarrow> int option \<Rightarrow> tagged_operation list \<Rightarrow>
    int list \<times> timeline_crdt \<Rightarrow> (int list \<times> timeline_crdt) outcome option" where
  "replay_loop speed include previous [] acc = Some (Returned acc)"
| "replay_loop speed include previous (x # ops) (sleeps, c) =
     (if \<not> include x then replay_loop speed include previous ops (sleeps, c)
      else (case replay_gap speed previous (timestamp x) of
              None \<Rightarrow> Some Panicked
            | Some gap \<Rightarrow>
                (case apply_remote x c of
                   None \<Rightarrow> None
                 | Some (_, c) \<Rightarrow> replay_loop speed include (Some (timestamp x)) ops (sleeps @ gap, c))))"

definition replay_matching ::
  "session_recording \<Rightarrow> timeline_crdt \<Rightarrow> replay_speed \<Rightarrow> (tagged_operation \<Rightarrow> bool) \<Rightarrow>
    (int list \<times> timeline_crdt) outcome option" where
  "replay_matching r c speed include = replay_loop speed include None (rec_ops r) ([], c)"

definition replay_all ::
  "session_recording \<Rightarrow> timeline_crdt \<Rightarrow> replay_speed \<Rightarrow> (int list \<times> timeline_crdt) outcome option" where
  "replay_all r c speed = replay_matching r c speed (\<lambda>_. True)"

definition replay_until ::
  "session_recording \<Rightarrow> timeline_crdt \<Rightarrow> replay_speed \<Rightarrow> int \<Rightarrow> (int list \<times> timeline_crdt) outcome option" where
  "replay_until r c speed cutoff = replay_matching r c speed (\<lambda>x. timestamp x \<le> cutoff)"

section \<open>Replaying is delivering\<close>

text \<open>The sleeps of a sequence of capture times.\<close>

fun replay_sleeps :: "replay_speed \<Rightarrow> int option \<Rightarrow> int list \<Rightarrow> int list option" where
  "replay_sleeps speed previous [] = Some []"
| "replay_sleeps speed previous (t # ts) =
     Option.bind (replay_gap speed previous t) (\<lambda>gap.
       map_option ((@) gap) (replay_sleeps speed (Some t) ts))"

lemma replay_loop_eq:
  "apply_remote_all (filter include ops) c = Some d \<Longrightarrow>
    replay_loop speed include previous ops (sleeps, c) =
      Some (case replay_sleeps speed previous (map timestamp (filter include ops)) of
          None \<Rightarrow> Panicked
        | Some later \<Rightarrow> Returned (sleeps @ later, d))"
  by (induction ops arbitrary: previous sleeps c) (auto split: option.splits)

lemma replay_matching_eq:
  "apply_remote_all (filter include (sort_key timestamp ops)) c = Some d \<Longrightarrow>
    replay_matching (recording_new ops) c speed include =
      Some (case replay_sleeps speed None (map timestamp (filter include (sort_key timestamp ops))) of
          None \<Rightarrow> Panicked
        | Some sleeps \<Rightarrow> Returned (sleeps, d))"
  by (simp add: replay_matching_def recording_new_def replay_loop_eq split: option.split)

text \<open>The speed is so low that a gap between neighbouring capture times cannot be scaled.\<close>

definition speed_overflows :: "replay_speed \<Rightarrow> int list \<Rightarrow> bool" where
  "speed_overflows speed ts =
     (case speed of
        Instant \<Rightarrow> False
      | Realtime factor \<Rightarrow> f64_positive factor \<and>
          list_ex (\<lambda>(s, t). s \<le> t \<and> duration_div_f64 (t - s) factor = None) (zip ts (tl ts)))"

lemma replay_gap_panics:
  "replay_gap speed (Some s) t = None \<longleftrightarrow> speed_overflows speed [s, t]"
  by (auto simp: replay_gap_def speed_overflows_def split: replay_speed.split option.splits)

lemma replay_sleeps_panic:
  "replay_sleeps speed (Some s) ts = None \<longleftrightarrow> speed_overflows speed (s # ts)"
proof (induction ts arbitrary: s)
  case Nil
  then show ?case by (simp add: speed_overflows_def split: replay_speed.split)
next
  case (Cons t ts)
  have "speed_overflows speed (s # t # ts) \<longleftrightarrow> speed_overflows speed [s, t] \<or> speed_overflows speed (t # ts)"
    by (auto simp: speed_overflows_def split: replay_speed.split)
  then show ?case
    using Cons replay_gap_panics [of speed s t] by (cases "replay_gap speed (Some s) t") auto
qed

lemma replay_all_eq:
  assumes "apply_remote_all (sort_key timestamp ops) c = Some d"
  shows "\<exists>sleeps. replay_all (recording_new ops) c speed =
    Some (if speed_overflows speed (map timestamp (sort_key timestamp ops)) then Panicked else Returned (sleeps, d))"
proof -
  let ?ts = "map timestamp (sort_key timestamp ops)"
  have "replay_sleeps speed None ?ts = None \<longleftrightarrow> speed_overflows speed ?ts"
  proof (cases ?ts)
    case (Cons t ts)
    have "replay_gap speed None t = Some []" by (simp add: replay_gap_def split: replay_speed.split)
    then show ?thesis using replay_sleeps_panic [of speed t ts] by (simp add: Cons)
  qed (simp add: speed_overflows_def split: replay_speed.split)
  then show ?thesis
    using replay_matching_eq [of "\<lambda>_. True" ops c d speed] assms by (auto simp: replay_all_def split: option.splits)
qed

text \<open>Replaying a replica's log reproduces its session, whatever the wall clocks recorded
  (they may disagree with causality), at every speed at which all gaps can be scaled; at the
  others the replay panics.\<close>

theorem replay_reproduces_session:
  assumes "sys_reachable S" and "quiescent (sys_replica S p)"
  shows "\<exists>sleeps d. replay_all (recording_new (tl_log (sys_replica S p))) (timeline_new q) speed =
      Some (if speed_overflows speed (map timestamp (sort_key timestamp (tl_log (sys_replica S p))))
        then Panicked else Returned (sleeps, d)) \<and>
    tl_session d = tl_session (sys_replica S p)"
proof -
  let ?c = "sys_replica S p" and ?xs = "sort_key timestamp (tl_log (sys_replica S p))"
  obtain es where c: "replica_ok (sys_keys S) es ?c" and X: "valid_ops (sys_keys S)"
    by (rule sys_replica_ok [OF assms(1)])
  have sub: "op_key ` set (tl_log ?c) \<subseteq> sys_keys S" and wf: "\<forall>x \<in> set (tl_log ?c). well_formed_op x"
    using c by (simp_all add: replica_ok_def replica_core_def)
  from apply_remote_all_ok [OF X replica_ok_new quiescent_new, of ?xs q] sub wf
  obtain d fs where d: "apply_remote_all ?xs (timeline_new q) = Some d"
    "replica_ok (sys_keys S) fs d" "quiescent d"
    "op_key ` set (tl_log d) = op_key ` set (tl_log (timeline_new q)) \<union> op_key ` set (tl_log ?c)"
    by auto
  moreover have "tl_log (timeline_new q) = []" by (simp add: timeline_new_def)
  ultimately have "tl_session d = tl_session ?c"
    using quiescent_replicas_agree [OF d(2) c X d(3) assms(2)] by simp
  with replay_all_eq [OF d(1), of speed] show ?thesis by blast
qed

theorem replay_reproduces_session_witness:
  "\<exists>sleeps d. replay_all (recording_new (tl_log (snd example_issue))) (timeline_new (PeerId 7)) Instant =
      Some (Returned (sleeps, d)) \<and> tl_session d = tl_session (snd example_issue)"
proof -
  have "tl_pending (snd example_issue) = []" by code_simp
  then show ?thesis
    using replay_reproduces_session [OF example_system_reachable, of "PeerId 1" "PeerId 7" Instant]
    by (simp add: example_system_replicas quiescent_def speed_overflows_def)
qed

text \<open>An accepted speed that panics: at \<open>1e-300x\<close> a gap of one second cannot be scaled. At \<open>2x\<close> the
  replay sleeps for half a second.\<close>

definition timed_op :: "u64 \<Rightarrow> int \<Rightarrow> tagged_operation" where
  "timed_op l t = (example_op l 1 (InsertTrack (TrackId l) (track_data_new ''T'') 0))\<lparr>timestamp := t\<rparr>"

theorem tiny_speed_panics:
  "f64_positive 0x01A56E1FC2F8F359 \<and>
    replay_all (recording_new [timed_op 1 1000000000, timed_op 2 0]) (timeline_new (PeerId 7))
      (Realtime 0x01A56E1FC2F8F359) = Some Panicked \<and>
    map_option (\<lambda>outcome. case outcome of Panicked \<Rightarrow> [] | Returned (sleeps, c) \<Rightarrow> sleeps)
      (replay_all (recording_new [timed_op 1 1000000000, timed_op 2 0]) (timeline_new (PeerId 7))
        (Realtime 0x4000000000000000)) = Some [500000000]"
  by code_simp

end
