(* ===== verification/Presence.thy ===== *)
theory Presence
  imports Operation
begin

text \<open>
  Presence and awareness (\<open>tpt-av-sync-presence/src\<close>): colours and avatars
  (\<open>avatar.rs\<close>), cursors (\<open>cursor.rs\<close>), idle timeouts (\<open>activity.rs\<close>) and the presence
  manager (\<open>presence.rs\<close>). Time is an argument of every operation, as in the code. The
  iteration order of the \<open>HashMap\<close> of remote users is unspecified; the model lists them
  by id.
\<close>

section \<open>Colours and avatars\<close>

record color =
  col_r :: u8
  col_g :: u8
  col_b :: u8
  col_a :: u8

definition color_rgba :: "u8 \<Rightarrow> u8 \<Rightarrow> u8 \<Rightarrow> u8 \<Rightarrow> color" where
  "color_rgba r g b a = \<lparr>col_r = r, col_g = g, col_b = b, col_a = a\<rparr>"

definition color_rgb :: "u8 \<Rightarrow> u8 \<Rightarrow> u8 \<Rightarrow> color" where
  "color_rgb r g b = \<lparr>col_r = r, col_g = g, col_b = b, col_a = 255\<rparr>"

definition to_rgba_u32 :: "color \<Rightarrow> u32" where
  "to_rgba_u32 c =
     push_bit 24 (ucast (col_a c)) OR push_bit 16 (ucast (col_r c)) OR
     push_bit 8 (ucast (col_g c)) OR ucast (col_b c)"

definition from_rgba_u32 :: "u32 \<Rightarrow> color" where
  "from_rgba_u32 v =
     \<lparr>col_r = ucast (drop_bit 16 v), col_g = ucast (drop_bit 8 v), col_b = ucast v,
      col_a = ucast (drop_bit 24 v)\<rparr>"

datatype avatar_kind = Url string | Png "u8 list"

record avatar_data =
  av_kind :: avatar_kind
  av_color :: color

definition avatar_from_url :: "string \<Rightarrow> color \<Rightarrow> avatar_data" where
  "avatar_from_url url color = \<lparr>av_kind = Url url, av_color = color\<rparr>"

definition avatar_from_png :: "u8 list \<Rightarrow> color \<Rightarrow> avatar_data" where
  "avatar_from_png bytes color = \<lparr>av_kind = Png bytes, av_color = color\<rparr>"

lemma byte_bit_high: "8 \<le> n \<Longrightarrow> \<not> bit (b :: u8) n"
  using bit_imp_le_length [of b n] by auto

text \<open>Packing a colour into \<open>0xAARRGGBB\<close> and unpacking it are inverse to
  each other, in both directions.\<close>

theorem color_roundtrip:
  "from_rgba_u32 (to_rgba_u32 c) = c \<and> to_rgba_u32 (from_rgba_u32 v) = v"
proof
  show "from_rgba_u32 (to_rgba_u32 c) = c"
    by (rule color.equality)
      (auto simp: from_rgba_u32_def to_rgba_u32_def bit_simps byte_bit_high intro!: bit_word_eqI)
  show "to_rgba_u32 (from_rgba_u32 v) = v"
  proof (rule bit_word_eqI)
    fix n
    assume "n < LENGTH(32)"
    then have "n < 32" by simp
    then consider "n < 8" | "8 \<le> n" "n < 16" | "16 \<le> n" "n < 24" | "24 \<le> n" "n < 32"
      by linarith
    then show "bit (to_rgba_u32 (from_rgba_u32 v)) n \<longleftrightarrow> bit v n"
      by cases (auto simp: from_rgba_u32_def to_rgba_u32_def bit_simps dest: bit_imp_le_length)
  qed
qed

section \<open>Cursors\<close>

record cursor_state =
  cur_playhead :: "u64 option"
  cur_selection :: "(u64 \<times> u64) option"
  cur_focused_clip :: "clip_id option"
  cur_timestamp_ms :: u64

definition cursor_new :: "u64 \<Rightarrow> cursor_state" where
  "cursor_new timestamp_ms =
     \<lparr>cur_playhead = None, cur_selection = None, cur_focused_clip = None,
      cur_timestamp_ms = timestamp_ms\<rparr>"

definition with_playhead :: "u64 \<Rightarrow> cursor_state \<Rightarrow> cursor_state" where
  "with_playhead playhead c = c\<lparr>cur_playhead := Some playhead\<rparr>"

definition with_selection :: "u64 \<Rightarrow> u64 \<Rightarrow> cursor_state \<Rightarrow> cursor_state" where
  "with_selection start final c = c\<lparr>cur_selection := Some (start, final)\<rparr>"

definition with_focused_clip :: "clip_id \<Rightarrow> cursor_state \<Rightarrow> cursor_state" where
  "with_focused_clip clip c = c\<lparr>cur_focused_clip := Some clip\<rparr>"

section \<open>Activity\<close>

datatype presence_state = Online | Idle | Offline

record idle_config =
  idle_after_ms :: u64
  offline_after_ms :: u64

definition idle_config_default :: idle_config where
  "idle_config_default = \<lparr>idle_after_ms = 30000, offline_after_ms = 300000\<rparr>"

definition presence_at :: "idle_config \<Rightarrow> u64 \<Rightarrow> u64 \<Rightarrow> presence_state" where
  "presence_at config now_ms last_active =
     (let idle_for = sat_sub now_ms last_active
      in if offline_after_ms config \<le> idle_for then Offline
         else if idle_after_ms config \<le> idle_for then Idle else Online)"

record activity_tracker =
  at_config :: idle_config
  at_last_active_ms :: u64

definition tracker_new :: "idle_config \<Rightarrow> u64 \<Rightarrow> activity_tracker" where
  "tracker_new config now_ms = \<lparr>at_config = config, at_last_active_ms = now_ms\<rparr>"

definition note_activity :: "u64 \<Rightarrow> activity_tracker \<Rightarrow> activity_tracker" where
  "note_activity now_ms t = t\<lparr>at_last_active_ms := now_ms\<rparr>"

definition tracker_presence_at :: "activity_tracker \<Rightarrow> u64 \<Rightarrow> presence_state" where
  "tracker_presence_at t now_ms = presence_at (at_config t) now_ms (at_last_active_ms t)"

definition presence_rank :: "presence_state \<Rightarrow> nat" where
  "presence_rank p = (case p of Online \<Rightarrow> 0 | Idle \<Rightarrow> 1 | Offline \<Rightarrow> 2)"

text \<open>Presence only ages with time: without new activity a user goes from
  online through idle to offline and never back, for any pair of timeouts; a clock
  behind the last activity counts as no elapsed time.\<close>

theorem presence_ages:
  assumes "now \<le> later"
  shows "presence_rank (presence_at config now active) \<le> presence_rank (presence_at config later active)"
proof -
  have "sat_sub now active \<le> sat_sub later active"
    using assms by (simp add: word_le_nat_alt sat_simps diff_le_mono)
  then show ?thesis by (auto simp: presence_at_def presence_rank_def Let_def)
qed

theorem presence_ages_witness:
  "presence_rank (presence_at idle_config_default 20000 (5 :: u64)) \<le>
    presence_rank (presence_at idle_config_default 90000 5)"
  by (rule presence_ages) simp

section \<open>The presence manager\<close>

record user_info =
  ui_peer_id :: peer_id
  ui_name :: string
  ui_avatar :: "avatar_data option"
  ui_presence :: presence_state
  ui_last_active_ms :: u64

definition user_online :: "peer_id \<Rightarrow> string \<Rightarrow> u64 \<Rightarrow> user_info" where
  "user_online p name now_ms =
     \<lparr>ui_peer_id = p, ui_name = name, ui_avatar = None, ui_presence = Online,
      ui_last_active_ms = now_ms\<rparr>"

definition with_avatar :: "avatar_data \<Rightarrow> user_info \<Rightarrow> user_info" where
  "with_avatar avatar u = u\<lparr>ui_avatar := Some avatar\<rparr>"

record presence_update =
  pu_peer_id :: peer_id
  pu_user :: user_info
  pu_cursor :: "cursor_state option"
  pu_leaving :: bool

record remote_user =
  ru_info :: user_info
  ru_cursor :: "cursor_state option"

record presence_manager =
  pm_local_peer :: peer_id
  pm_local_user :: user_info
  pm_tracker :: activity_tracker
  pm_cursor :: "cursor_state option"
  pm_remotes :: "(peer_id, remote_user) fmap"

definition manager_new :: "user_info \<Rightarrow> idle_config \<Rightarrow> presence_manager" where
  "manager_new local_user config =
     \<lparr>pm_local_peer = ui_peer_id local_user, pm_local_user = local_user,
      pm_tracker = tracker_new config (ui_last_active_ms local_user), pm_cursor = None,
      pm_remotes = fmempty\<rparr>"

definition set_avatar :: "avatar_data \<Rightarrow> presence_manager \<Rightarrow> presence_manager" where
  "set_avatar avatar m = m\<lparr>pm_local_user := (pm_local_user m)\<lparr>ui_avatar := Some avatar\<rparr>\<rparr>"

definition set_name :: "string \<Rightarrow> presence_manager \<Rightarrow> presence_manager" where
  "set_name name m = m\<lparr>pm_local_user := (pm_local_user m)\<lparr>ui_name := name\<rparr>\<rparr>"

definition update_local_cursor :: "cursor_state \<Rightarrow> presence_manager \<Rightarrow> presence_manager" where
  "update_local_cursor c m =
     m\<lparr>pm_cursor := Some c, pm_tracker := note_activity (cur_timestamp_ms c) (pm_tracker m),
       pm_local_user := (pm_local_user m)\<lparr>ui_last_active_ms := cur_timestamp_ms c\<rparr>\<rparr>"

definition note_local_activity :: "u64 \<Rightarrow> presence_manager \<Rightarrow> presence_manager" where
  "note_local_activity now_ms m =
     m\<lparr>pm_tracker := note_activity now_ms (pm_tracker m),
       pm_local_user := (pm_local_user m)\<lparr>ui_last_active_ms := now_ms\<rparr>\<rparr>"

definition receive_presence :: "presence_update \<Rightarrow> presence_manager \<Rightarrow> presence_manager" where
  "receive_presence update m =
     (let info = (if pu_leaving update then (pu_user update)\<lparr>ui_presence := Offline\<rparr>
                  else pu_user update);
          entry = (case fmlookup (pm_remotes m) (pu_peer_id update) of
                     Some r \<Rightarrow> r | None \<Rightarrow> \<lparr>ru_info = info, ru_cursor = None\<rparr>);
          entry = entry\<lparr>ru_info := info\<rparr>;
          entry = (case pu_cursor update of
                     Some c \<Rightarrow> entry\<lparr>ru_cursor := Some c\<rparr> | None \<Rightarrow> entry)
      in m\<lparr>pm_remotes := fmupd (pu_peer_id update) entry (pm_remotes m)\<rparr>)"

definition presence_peer_leave :: "peer_id \<Rightarrow> presence_manager \<Rightarrow> presence_manager" where
  "presence_peer_leave p m =
     (case fmlookup (pm_remotes m) p of
        Some r \<Rightarrow> m\<lparr>pm_remotes := fmupd p
          (r\<lparr>ru_info := (ru_info r)\<lparr>ui_presence := Offline\<rparr>\<rparr>) (pm_remotes m)\<rparr>
      | None \<Rightarrow> m)"

definition remote_users :: "presence_manager \<Rightarrow> user_info list" where
  "remote_users m = map (\<lambda>(_, r). ru_info r) (btree_entries (pm_remotes m))"

definition remote_cursors :: "presence_manager \<Rightarrow> (peer_id \<times> cursor_state) list" where
  "remote_cursors m =
     concat (map (\<lambda>(p, r). case ru_cursor r of None \<Rightarrow> [] | Some c \<Rightarrow> [(p, c)])
       (filter (\<lambda>(_, r). ui_presence (ru_info r) \<noteq> Offline) (btree_entries (pm_remotes m))))"

definition presence_tick :: "u64 \<Rightarrow> presence_manager \<Rightarrow> presence_manager" where
  "presence_tick now_ms m =
     m\<lparr>pm_local_user := (pm_local_user m)\<lparr>
         ui_presence := tracker_presence_at (pm_tracker m) now_ms,
         ui_last_active_ms := at_last_active_ms (pm_tracker m)\<rparr>,
       pm_remotes := fmmap (\<lambda>r. r\<lparr>ru_info := (ru_info r)\<lparr>ui_presence :=
         presence_at (at_config (pm_tracker m)) now_ms (ui_last_active_ms (ru_info r))\<rparr>\<rparr>)
         (pm_remotes m)\<rparr>"

definition generate_presence :: "presence_manager \<Rightarrow> presence_update" where
  "generate_presence m =
     \<lparr>pu_peer_id = pm_local_peer m, pu_user = pm_local_user m, pu_cursor = pm_cursor m,
      pu_leaving = False\<rparr>"

definition generate_leave_update :: "presence_manager \<Rightarrow> presence_update \<times> presence_manager" where
  "generate_leave_update m =
     (let m = m\<lparr>pm_local_user := (pm_local_user m)\<lparr>ui_presence := Offline\<rparr>\<rparr>
      in (\<lparr>pu_peer_id = pm_local_peer m, pu_user = pm_local_user m, pu_cursor = None,
           pu_leaving = True\<rparr>, m))"

section \<open>Manager laws\<close>

lemma receive_presence_lookup:
  "fmlookup (pm_remotes (receive_presence u m)) p =
    (if p = pu_peer_id u
     then Some \<lparr>ru_info = (if pu_leaving u then (pu_user u)\<lparr>ui_presence := Offline\<rparr> else pu_user u),
       ru_cursor = (case pu_cursor u of Some c \<Rightarrow> Some c
         | None \<Rightarrow> (case fmlookup (pm_remotes m) p of Some r \<Rightarrow> ru_cursor r | None \<Rightarrow> None))\<rparr>
     else fmlookup (pm_remotes m) p)"
  by (auto simp: receive_presence_def Let_def split: option.split)

lemma remote_cursors_iff:
  "(p, c) \<in> set (remote_cursors m) \<longleftrightarrow>
    (\<exists>r. fmlookup (pm_remotes m) p = Some r \<and> ui_presence (ru_info r) \<noteq> Offline \<and> ru_cursor r = Some c)"
proof -
  have "(p, c) \<in> set (remote_cursors m) \<longleftrightarrow>
      (\<exists>q r. (q, r) \<in> set (btree_entries (pm_remotes m)) \<and> ui_presence (ru_info r) \<noteq> Offline \<and>
        q = p \<and> ru_cursor r = Some c)"
    unfolding remote_cursors_def set_concat set_map set_filter
    by (force split: option.splits prod.splits)
  then show ?thesis unfolding set_btree_entries by auto
qed

text \<open>A peer that announces it is leaving loses its cursor at once: after
  the update is received no cursor of that peer is shown, and the cursors of the other
  peers are unchanged.\<close>

theorem leaving_hides_cursor:
  assumes "pu_leaving u"
  shows "(p, c) \<in> set (remote_cursors (receive_presence u m)) \<longleftrightarrow>
    p \<noteq> pu_peer_id u \<and> (p, c) \<in> set (remote_cursors m)"
  using assms by (auto simp: remote_cursors_iff receive_presence_lookup)

definition example_user :: user_info where
  "example_user = user_online (PeerId 2) ''Ada'' 1000"

definition example_manager :: presence_manager where
  "example_manager = receive_presence
     \<lparr>pu_peer_id = PeerId 2, pu_user = example_user, pu_cursor = Some (cursor_new 1000), pu_leaving = False\<rparr>
     (manager_new (user_online (PeerId 1) ''Bob'' 1000) idle_config_default)"

definition example_leave :: presence_update where
  "example_leave =
     \<lparr>pu_peer_id = PeerId 2, pu_user = example_user, pu_cursor = None, pu_leaving = True\<rparr>"

theorem leaving_hides_cursor_witness:
  "(PeerId 2, cursor_new 1000) \<in> set (remote_cursors example_manager) \<and>
   (PeerId 2, cursor_new 1000) \<notin> set (remote_cursors (receive_presence example_leave example_manager))"
proof
  show "(PeerId 2, cursor_new 1000) \<in> set (remote_cursors example_manager)" by code_simp
  have "pu_leaving example_leave" by (simp add: example_leave_def)
  from leaving_hides_cursor [OF this, of "PeerId 2" "cursor_new 1000" example_manager]
  show "(PeerId 2, cursor_new 1000) \<notin> set (remote_cursors (receive_presence example_leave example_manager))"
    by (simp add: example_leave_def)
qed

text \<open>The leave does not last: the next \<open>tick\<close> derives the presence of
  every remote user from its last activity, so a peer that has left shows online again,
  with its cursor, until it times out.\<close>

theorem tick_revives_left_peer:
  "let left = receive_presence example_leave example_manager in
   remote_cursors left = [] \<and>
   remote_cursors (presence_tick 1001 left) = [(PeerId 2, cursor_new 1000)] \<and>
   map ui_presence (remote_users (presence_tick 1001 left)) = [Online]"
  unfolding Let_def by (intro conjI; code_simp)

end
