(* ===== verification/Peer_Registry.thy ===== *)
theory Peer_Registry
  imports Ids
begin

text \<open>
  The registry of connected peers (\<open>tpt-av-sync-net/src/peer.rs\<close>). The lemmas give every
  operation's effect on lookups and the invariant that each entry is filed under its own id
  with \<open>first_seen \<le> last_seen\<close> on a clock that does not go back.
\<close>

record peer_info =
  pi_peer_id :: peer_id
  pi_first_seen_ms :: u64
  pi_last_seen_ms :: u64

type_synonym peer_registry = "(peer_id, peer_info) fmap"

definition registry_new :: peer_registry where
  "registry_new = fmempty"

definition note_join :: "peer_id \<Rightarrow> u64 \<Rightarrow> peer_registry \<Rightarrow> peer_registry" where
  "note_join p now_ms reg =
     (case fmlookup reg p of
        Some _ \<Rightarrow> reg
      | None \<Rightarrow> fmupd p \<lparr>pi_peer_id = p, pi_first_seen_ms = now_ms, pi_last_seen_ms = now_ms\<rparr> reg)"

definition note_seen :: "peer_id \<Rightarrow> u64 \<Rightarrow> peer_registry \<Rightarrow> peer_registry" where
  "note_seen p now_ms reg =
     (let slot = (case fmlookup reg p of
            Some i \<Rightarrow> i
          | None \<Rightarrow> \<lparr>pi_peer_id = p, pi_first_seen_ms = now_ms, pi_last_seen_ms = now_ms\<rparr>)
      in fmupd p (slot\<lparr>pi_last_seen_ms := now_ms\<rparr>) reg)"

definition note_leave :: "peer_id \<Rightarrow> peer_registry \<Rightarrow> bool \<times> peer_registry" where
  "note_leave p reg = (contains_key reg p, fmdrop p reg)"

definition registry_get :: "peer_registry \<Rightarrow> peer_id \<Rightarrow> peer_info option" where
  "registry_get reg p = fmlookup reg p"

definition registry_peers :: "peer_registry \<Rightarrow> peer_info list" where
  "registry_peers reg = sort_key pi_peer_id (map snd (btree_entries reg))"

definition registry_len :: "peer_registry \<Rightarrow> nat" where
  "registry_len reg = length (btree_entries reg)"

definition registry_is_empty :: "peer_registry \<Rightarrow> bool" where
  "registry_is_empty reg \<longleftrightarrow> btree_entries reg = []"

definition registry_inv :: "u64 \<Rightarrow> peer_registry \<Rightarrow> bool" where
  "registry_inv now reg \<longleftrightarrow> (\<forall>p i. fmlookup reg p = Some i \<longrightarrow>
     pi_peer_id i = p \<and> pi_first_seen_ms i \<le> pi_last_seen_ms i \<and> pi_last_seen_ms i \<le> now)"

lemma registry_inv_new [simp]: "registry_inv now registry_new"
  by (simp add: registry_inv_def registry_new_def)

lemma registry_inv_join:
  "registry_inv now reg \<Longrightarrow> now \<le> later \<Longrightarrow> registry_inv later (note_join p later reg)"
  by (auto simp: registry_inv_def note_join_def split: option.splits) (metis order_trans)+

lemma registry_inv_seen:
  "registry_inv now reg \<Longrightarrow> now \<le> later \<Longrightarrow> registry_inv later (note_seen p later reg)"
  by (auto simp: registry_inv_def note_seen_def Let_def split: option.splits)
    (metis order_trans)+

lemma registry_inv_leave: "registry_inv now reg \<Longrightarrow> registry_inv now (snd (note_leave p reg))"
  by (simp add: registry_inv_def note_leave_def)

lemma registry_peers_map:
  assumes "registry_inv now reg"
  shows "registry_peers reg = map snd (btree_entries reg)"
proof -
  have ids: "pi_peer_id i = p" if "(p, i) \<in> set (btree_entries reg)" for p i
    using that assms unfolding set_btree_entries by (simp add: registry_inv_def)
  have "map (\<lambda>x. pi_peer_id (snd x)) (btree_entries reg) = map fst (btree_entries reg)"
    by (rule map_cong [OF refl]) (metis ids prod.collapse)
  then have "map pi_peer_id (map snd (btree_entries reg)) = map fst (btree_entries reg)"
    by (simp only: map_map comp_def)
  then have "sorted (map pi_peer_id (map snd (btree_entries reg)))" by simp
  then show ?thesis by (simp add: registry_peers_def sorted_sort_id sort_key_id_if_sorted)
qed

text \<open>The registry keeps the join time: any sequence of joins and sightings
  after the first, at any times, leaves a peer's \<open>first_seen\<close> as it was and its
  \<open>last_seen\<close> at the last sighting; only leaving forgets it.\<close>

theorem first_seen_kept:
  assumes "fmlookup reg p = Some i"
  shows "\<exists>j. fmlookup (fold (\<lambda>(seen, q, t). if seen then note_seen q t else note_join q t) events reg) p = Some j \<and>
    pi_first_seen_ms j = pi_first_seen_ms i"
  using assms
proof (induction events arbitrary: reg i)
  case (Cons e events)
  obtain seen q t where e: "e = (seen, q, t)" by (cases e)
  have "\<exists>j. fmlookup (if seen then note_seen q t reg else note_join q t reg) p = Some j \<and>
      pi_first_seen_ms j = pi_first_seen_ms i"
    using Cons.prems by (auto simp: note_seen_def note_join_def Let_def split: option.split)
  then obtain j where j: "fmlookup (if seen then note_seen q t reg else note_join q t reg) p = Some j"
    "pi_first_seen_ms j = pi_first_seen_ms i" by blast
  from Cons.IH [OF j(1)] j(2) show ?case by (auto simp: e)
qed simp

theorem first_seen_kept_witness:
  "map_option pi_first_seen_ms (fmlookup (fold (\<lambda>(seen, q, t). if seen then note_seen q t else note_join q t)
     [(False, PeerId 2, 150), (True, PeerId 2, 200)] (note_join (PeerId 2) 100 registry_new)) (PeerId 2)) =
   Some 100"
  using first_seen_kept [of "note_join (PeerId 2) 100 registry_new" "PeerId 2"
      "\<lparr>pi_peer_id = PeerId 2, pi_first_seen_ms = 100, pi_last_seen_ms = 100\<rparr>"
      "[(False, PeerId 2, 150), (True, PeerId 2, 200)]"]
  by (auto simp: note_join_def registry_new_def)

end
