(* ===== verification/Message.thy ===== *)
theory Message
  imports Presence Transport_Control Timeline
begin

text \<open>
  Messages between peers (\<open>tpt-av-sync-net/src/message.rs\<close>) with the playhead and
  clock payloads they carry (\<open>tpt-av-sync-playhead/src/clock.rs\<close>, \<open>sync.rs\<close>: the message
  types and their constructors). Identity proofs are opaque bytes.
\<close>

datatype clock_sync_type = Request | Response

record clock_sync_message =
  cs_peer_id :: peer_id
  cs_message_type :: clock_sync_type
  cs_t1 :: u64
  cs_t2 :: "u64 option"
  cs_t3 :: "u64 option"
  cs_t4 :: "u64 option"

definition clock_sync_request :: "peer_id \<Rightarrow> u64 \<Rightarrow> clock_sync_message" where
  "clock_sync_request p now_ms =
     \<lparr>cs_peer_id = p, cs_message_type = Request, cs_t1 = now_ms, cs_t2 = None, cs_t3 = None,
      cs_t4 = None\<rparr>"

definition clock_sync_respond :: "clock_sync_message \<Rightarrow> u64 \<Rightarrow> clock_sync_message" where
  "clock_sync_respond m now_ms =
     \<lparr>cs_peer_id = cs_peer_id m, cs_message_type = Response, cs_t1 = cs_t1 m,
      cs_t2 = Some now_ms, cs_t3 = Some now_ms, cs_t4 = None\<rparr>"

definition clock_sync_with_t4 :: "u64 \<Rightarrow> clock_sync_message \<Rightarrow> clock_sync_message" where
  "clock_sync_with_t4 now_ms m = m\<lparr>cs_t4 := Some now_ms\<rparr>"

record playhead_update =
  ph_peer_id :: peer_id
  ph_position :: u64
  ph_timestamp_ms :: u64
  ph_playing :: bool

definition PROTOCOL_VERSION :: u16 where
  "PROTOCOL_VERSION = 2"

datatype sync_message =
    MsgOperation tagged_operation
  | MsgBatch "tagged_operation list"
  | MsgRequestSnapshot
  | MsgSnapshot timeline_snapshot
  | MsgPlayheadUpdate playhead_update
  | MsgTransportControl transport_control
  | MsgPresenceUpdate presence_update
  | MsgClockSync clock_sync_message
  | MsgAck operation_id

end
