(* ===== verification/Net_Transport.thy ===== *)
theory Net_Transport
  imports Message
begin

text \<open>
  The transport interface and its in-memory implementation
  (\<open>tpt-av-sync-net/src/transport.rs\<close>). \<open>transport_ops\<close> is the \<open>dyn Transport\<close> the
  engine holds: the trait's methods as functions on a transport state. The loopback
  transport keeps its inbox, the messages handed to its channels, in order, and which of its
  channels have lost their receiver; the fabric's channels move the messages (a full channel,
  which blocks the sender, is not modelled).

  The locale \<open>inbox_transport\<close> is what every implementation of the trait keeps: sending leaves
  the inbox alone and receiving takes its messages in order. \<open>transport\<close> adds, for
  transports that record whole messages (the loopback and the relay client), that an accepted
  broadcast has sent the message; a failed one may have reached some of the ends.
\<close>

record 't transport_ops =
  tp_send_to :: "peer_id \<Rightarrow> sync_message \<Rightarrow> 't \<Rightarrow> unit result \<times> 't"
  tp_broadcast :: "sync_message \<Rightarrow> 't \<Rightarrow> unit result \<times> 't"
  tp_try_recv :: "'t \<Rightarrow> (peer_id \<times> sync_message) option result \<times> 't"
  tp_peers :: "'t \<Rightarrow> peer_id list"

section \<open>The loopback transport\<close>

text \<open>
  The ends of the channels: \<open>lb_outbox\<close> has one entry per sender, \<open>False\<close> once its receiver
  has been dropped; \<open>lb_hung_up\<close> says that every sender to this end's inbox has been dropped.
\<close>

record loopback =
  lb_local :: peer_id
  lb_inbox :: "(peer_id \<times> sync_message) list"
  lb_sent :: "(nat \<times> peer_id \<times> sync_message) list"
  lb_outbox :: "bool list"
  lb_others :: "peer_id list"
  lb_fail_sends :: bool
  lb_hung_up :: bool

text \<open>\<open>for tx in &self.outbox { tx.send(..)? }\<close>: the first dropped receiver ends the loop, and
  the ends before it have the message.\<close>

fun loopback_put :: "nat \<Rightarrow> bool list \<Rightarrow> sync_message \<Rightarrow> loopback \<Rightarrow> unit result \<times> loopback" where
  "loopback_put i [] m t = (Inr (), t)"
| "loopback_put i (receiving # rest) m t =
     (if receiving
      then loopback_put (Suc i) rest m (t\<lparr>lb_sent := lb_sent t @ [(i, lb_local t, m)]\<rparr>)
      else (Inl Disconnected, t))"

definition loopback_send_to :: "peer_id \<Rightarrow> sync_message \<Rightarrow> loopback \<Rightarrow> unit result \<times> loopback" where
  "loopback_send_to p m t =
     (if lb_fail_sends t then (Inl (sync_error_transport ''loopback send failure''), t)
      else loopback_put 0 (lb_outbox t) m t)"

definition loopback_broadcast :: "sync_message \<Rightarrow> loopback \<Rightarrow> unit result \<times> loopback" where
  "loopback_broadcast m t =
     (if lb_fail_sends t \<or> lb_outbox t = []
      then (Inl (sync_error_transport ''no connected peers''), t)
      else loopback_put 0 (lb_outbox t) m t)"

definition loopback_try_recv ::
  "loopback \<Rightarrow> (peer_id \<times> sync_message) option result \<times> loopback" where
  "loopback_try_recv t =
     (case lb_inbox t of
        item # rest \<Rightarrow> (Inr (Some item), t\<lparr>lb_inbox := rest\<rparr>)
      | [] \<Rightarrow> if lb_hung_up t then (Inl Disconnected, t) else (Inr None, t))"

definition loopback_peers :: "loopback \<Rightarrow> peer_id list" where
  "loopback_peers t = (if lb_fail_sends t then [] else lb_others t)"

definition set_fail_sends :: "bool \<Rightarrow> loopback \<Rightarrow> loopback" where
  "set_fail_sends fail t = t\<lparr>lb_fail_sends := fail\<rparr>"

definition loopback_new :: "peer_id \<Rightarrow> nat \<Rightarrow> peer_id list \<Rightarrow> loopback" where
  "loopback_new me outbox others =
     \<lparr>lb_local = me, lb_inbox = [], lb_sent = [], lb_outbox = replicate outbox True,
      lb_others = others, lb_fail_sends = False, lb_hung_up = False\<rparr>"

definition loopback_pair :: "peer_id \<Rightarrow> peer_id \<Rightarrow> loopback \<times> loopback" where
  "loopback_pair a b = (loopback_new a 1 [b], loopback_new b 1 [a])"

definition loopback_fabric :: "peer_id list \<Rightarrow> loopback list" where
  "loopback_fabric ids =
     map (\<lambda>p. loopback_new p (length ids - 1) (filter (\<lambda>other. other \<noteq> p) ids)) ids"

definition loopback_ops :: "loopback transport_ops" where
  "loopback_ops =
     \<lparr>tp_send_to = loopback_send_to, tp_broadcast = loopback_broadcast,
      tp_try_recv = loopback_try_recv, tp_peers = loopback_peers\<rparr>"

section \<open>The contract\<close>

locale inbox_transport =
  fixes ops :: "'t transport_ops"
    and inbox :: "'t \<Rightarrow> (peer_id \<times> sync_message) list"
  assumes broadcast_inbox: "tp_broadcast ops m t = (r, t') \<Longrightarrow> inbox t' = inbox t"
    and send_to_inbox: "tp_send_to ops p m t = (r, t') \<Longrightarrow> inbox t' = inbox t"
    and recv_inbox: "tp_try_recv ops t = (Inr (Some x), t') \<Longrightarrow> inbox t = x # inbox t'"
    and recv_empty: "tp_try_recv ops t = (Inr None, t') \<Longrightarrow> t' = t"
    and recv_failed: "tp_try_recv ops t = (Inl e, t') \<Longrightarrow> t' = t"
begin

lemma recv_shortens:
  "tp_try_recv ops t = (Inr (Some x), t') \<Longrightarrow> length (inbox t') < length (inbox t)"
  by (drule recv_inbox) simp

end

locale transport = inbox_transport ops inbox
  for ops :: "'t transport_ops" and inbox +
  fixes sent :: "'t \<Rightarrow> sync_message list"
  assumes broadcast_sent: "tp_broadcast ops m t = (Inr u, t') \<Longrightarrow> m \<in> set (sent t')"
    and broadcast_keeps: "tp_broadcast ops m t = (r, t') \<Longrightarrow> set (sent t) \<subseteq> set (sent t')"
    and send_to_sent: "tp_send_to ops p m t = (r, t') \<Longrightarrow> set (sent t) \<subseteq> set (sent t')"
    and recv_sent: "tp_try_recv ops t = (Inr (Some x), t') \<Longrightarrow> sent t' = sent t"

definition loopback_sent :: "loopback \<Rightarrow> sync_message list" where
  "loopback_sent t = map (snd \<circ> snd) (lb_sent t)"

lemma loopback_sent_frame [simp]: "loopback_sent (t\<lparr>lb_inbox := i\<rparr>) = loopback_sent t"
  by (simp add: loopback_sent_def)

text \<open>How many ends a send reaches: those before the first whose receiver is gone.\<close>

definition reached :: "bool list \<Rightarrow> nat" where
  "reached outbox = length (takeWhile id outbox)"

lemma reached_simps [simp]:
  "reached [] = 0" "reached (True # outbox) = Suc (reached outbox)" "reached (False # outbox) = 0"
  by (simp_all add: reached_def)

lemma reached_all: "reached outbox = length outbox \<longleftrightarrow> list_all id outbox"
  by (induction outbox rule: list.induct) (auto simp: reached_def)

lemma loopback_put_result: "fst (loopback_put i outbox m t) = (if list_all id outbox then Inr () else Inl Disconnected)"
  by (induction i outbox m t rule: loopback_put.induct) simp_all

lemma loopback_put_sent: "loopback_sent (snd (loopback_put i outbox m t)) = loopback_sent t @ replicate (reached outbox) m"
  by (induction i outbox m t rule: loopback_put.induct)
    (simp_all add: loopback_sent_def replicate_append_same [symmetric])

lemma loopback_put_frame:
  "lb_inbox (snd (loopback_put i outbox m t)) = lb_inbox t"
  "lb_outbox (snd (loopback_put i outbox m t)) = lb_outbox t"
  "lb_fail_sends (snd (loopback_put i outbox m t)) = lb_fail_sends t"
  by (induction i outbox m t rule: loopback_put.induct) simp_all

lemmas loopback_puts = loopback_put_result loopback_put_sent loopback_put_frame

lemma loopback_broadcast_sent:
  "loopback_sent (snd (loopback_broadcast m t)) =
    loopback_sent t @ replicate (if lb_fail_sends t then 0 else reached (lb_outbox t)) m"
  by (simp add: loopback_broadcast_def loopback_puts)

interpretation loopback: transport loopback_ops lb_inbox loopback_sent
proof unfold_locales
  fix m t u r t' p
  note defs = loopback_ops_def loopback_broadcast_def loopback_send_to_def
  have put: "snd (loopback_put 0 (lb_outbox t) m t) = t'" "fst (loopback_put 0 (lb_outbox t) m t) = r"
    if "loopback_put 0 (lb_outbox t) m t = (r, t')" for r t'
    using that by simp_all
  show "tp_broadcast loopback_ops m t = (r, t') \<Longrightarrow> lb_inbox t' = lb_inbox t"
    "tp_send_to loopback_ops p m t = (r, t') \<Longrightarrow> lb_inbox t' = lb_inbox t"
    "tp_broadcast loopback_ops m t = (r, t') \<Longrightarrow> set (loopback_sent t) \<subseteq> set (loopback_sent t')"
    "tp_send_to loopback_ops p m t = (r, t') \<Longrightarrow> set (loopback_sent t) \<subseteq> set (loopback_sent t')"
    by (auto simp: defs loopback_puts dest!: put(1) [symmetric] split: if_splits)
  assume "tp_broadcast loopback_ops m t = (Inr u, t')"
  then have "loopback_put 0 (lb_outbox t) m t = (Inr u, t')" "lb_outbox t \<noteq> []"
    by (auto simp: defs split: if_splits)
  moreover from this have "list_all id (lb_outbox t)"
    using put(2) loopback_put_result [of 0 "lb_outbox t" m t] by (auto split: if_splits)
  ultimately have "loopback_sent t' = loopback_sent t @ replicate (length (lb_outbox t)) m"
    using loopback_put_sent [of 0 "lb_outbox t" m t] by (simp add: reached_all [THEN iffD2])
  with \<open>lb_outbox t \<noteq> []\<close> show "m \<in> set (loopback_sent t')" by simp
qed (auto simp: loopback_ops_def loopback_try_recv_def split: if_splits list.splits)

end
