(* ===== verification/Reliability.thy ===== *)
theory Reliability
  imports Message
begin

text \<open>
  Acknowledgments and resends (\<open>tpt-av-sync-net/src/reliability.rs\<close>) and the batcher
  (\<open>batcher.rs\<close>), whose transport is an argument. The iteration order of the \<open>HashMap\<close> of
  pending entries is unspecified; the model takes id order. The lemmas bound the resends of
  an operation by the configured budget over any interleaving of acks and polls, and show
  that the first ack ends them.
\<close>

section \<open>The manager\<close>

record pending_entry =
  pe_op :: tagged_operation
  pe_last_sent_ms :: u64
  pe_attempts :: u32

record reliability =
  rl_pending :: "(operation_id, pending_entry) fmap"
  rl_ack_timeout_ms :: u64
  rl_max_resends :: u32
  rl_acked_peers :: "(operation_id, peer_id list) fmap"

definition reliability_new :: "u64 \<Rightarrow> u32 \<Rightarrow> reliability" where
  "reliability_new ack_timeout_ms max_resends =
     \<lparr>rl_pending = fmempty, rl_ack_timeout_ms = ack_timeout_ms, rl_max_resends = max_resends,
      rl_acked_peers = fmempty\<rparr>"

definition rel_track :: "tagged_operation \<Rightarrow> u64 \<Rightarrow> reliability \<Rightarrow> reliability" where
  "rel_track x now_ms m =
     m\<lparr>rl_pending := fmupd (op_id x)
        \<lparr>pe_op = x, pe_last_sent_ms = now_ms, pe_attempts = 1\<rparr> (rl_pending m)\<rparr>"

definition rel_on_ack :: "operation_id \<Rightarrow> peer_id \<Rightarrow> reliability \<Rightarrow> bool \<times> reliability" where
  "rel_on_ack i from m =
     (case fmlookup (rl_acked_peers m) i of
        Some peers \<Rightarrow>
          (False, if from \<in> set peers then m
                  else m\<lparr>rl_acked_peers := fmupd i (peers @ [from]) (rl_acked_peers m)\<rparr>)
      | None \<Rightarrow>
          (contains_key (rl_pending m) i,
           m\<lparr>rl_acked_peers := fmupd i [from] (rl_acked_peers m),
             rl_pending := fmdrop i (rl_pending m)\<rparr>))"

text \<open>The three outcomes of the \<open>retain\<close> closure on one entry.\<close>

datatype due_outcome = Waiting | Dropped | Resent

definition due_outcome :: "reliability \<Rightarrow> u64 \<Rightarrow> pending_entry \<Rightarrow> due_outcome" where
  "due_outcome m now_ms e =
     (if sat_sub now_ms (pe_last_sent_ms e) < rl_ack_timeout_ms m then Waiting
      else if rl_max_resends m < pe_attempts e then Dropped else Resent)"

definition due_entry :: "reliability \<Rightarrow> u64 \<Rightarrow> pending_entry \<Rightarrow> pending_entry" where
  "due_entry m now_ms e =
     (if due_outcome m now_ms e = Resent
      then e\<lparr>pe_attempts := pe_attempts e + 1, pe_last_sent_ms := now_ms\<rparr> else e)"

definition due_for_resend :: "u64 \<Rightarrow> reliability \<Rightarrow> tagged_operation list \<times> reliability" where
  "due_for_resend now_ms m =
     (map (\<lambda>(_, e). pe_op e)
        (filter (\<lambda>(_, e). due_outcome m now_ms e = Resent) (btree_entries (rl_pending m))),
      m\<lparr>rl_pending := fmmap (due_entry m now_ms)
         (fmfilter (\<lambda>i. case fmlookup (rl_pending m) i of
            Some e \<Rightarrow> due_outcome m now_ms e \<noteq> Dropped | None \<Rightarrow> False) (rl_pending m))\<rparr>)"

definition rel_forget :: "operation_id \<Rightarrow> reliability \<Rightarrow> reliability" where
  "rel_forget i m =
     m\<lparr>rl_pending := fmdrop i (rl_pending m), rl_acked_peers := fmdrop i (rl_acked_peers m)\<rparr>"

definition rel_pending_len :: "reliability \<Rightarrow> nat" where
  "rel_pending_len m = length (btree_entries (rl_pending m))"

definition rel_is_empty :: "reliability \<Rightarrow> bool" where
  "rel_is_empty m \<longleftrightarrow> btree_entries (rl_pending m) = []"

section \<open>Budget\<close>

text \<open>A history of the manager after an operation was broadcast: polls and acks.\<close>

datatype rel_event = Poll u64 | AckFrom operation_id peer_id

fun rel_run :: "rel_event list \<Rightarrow> reliability \<Rightarrow> tagged_operation list \<times> reliability" where
  "rel_run [] m = ([], m)"
| "rel_run (Poll now_ms # es) m =
     (fst (due_for_resend now_ms m) @ fst (rel_run es (snd (due_for_resend now_ms m))),
      snd (rel_run es (snd (due_for_resend now_ms m))))"
| "rel_run (AckFrom i from # es) m = rel_run es (snd (rel_on_ack i from m))"

definition resend_count :: "operation_id \<Rightarrow> tagged_operation list \<Rightarrow> nat" where
  "resend_count i xs = length (filter (\<lambda>x. op_id x = i) xs)"

definition rel_ok :: "reliability \<Rightarrow> bool" where
  "rel_ok m \<longleftrightarrow> (\<forall>i e. fmlookup (rl_pending m) i = Some e \<longrightarrow> op_id (pe_op e) = i)"

text \<open>How often an operation may still be resent.\<close>

definition budget_left :: "operation_id \<Rightarrow> reliability \<Rightarrow> nat" where
  "budget_left i m = (case fmlookup (rl_pending m) i of
     None \<Rightarrow> 0 | Some e \<Rightarrow> Suc (unat (rl_max_resends m)) - unat (pe_attempts e))"

lemma due_lookup:
  "fmlookup (rl_pending (snd (due_for_resend now m))) i =
    (case fmlookup (rl_pending m) i of
       None \<Rightarrow> None
     | Some e \<Rightarrow> if due_outcome m now e = Dropped then None else Some (due_entry m now e))"
  by (simp add: due_for_resend_def split: option.split)

lemma due_frame [simp]:
  "rl_max_resends (snd (due_for_resend now m)) = rl_max_resends m"
  "rl_ack_timeout_ms (snd (due_for_resend now m)) = rl_ack_timeout_ms m"
  by (simp_all add: due_for_resend_def)

lemma due_entry_op [simp]: "pe_op (due_entry m now e) = pe_op e"
  by (simp add: due_entry_def)

lemma rel_ok_due: "rel_ok m \<Longrightarrow> rel_ok (snd (due_for_resend now m))"
  by (auto simp: rel_ok_def due_lookup split: option.splits if_splits)

lemma rel_ok_ack: "rel_ok m \<Longrightarrow> rel_ok (snd (rel_on_ack i from m))"
  by (auto simp: rel_ok_def rel_on_ack_def split: option.splits if_splits)

lemma filter_distinct_key:
  "distinct (map fst es) \<Longrightarrow> (i, e) \<in> set es \<Longrightarrow> filter (\<lambda>p. fst p = i) es = [(i, e)]"
  by (induction es) (auto simp: filter_empty_conv rev_image_eqI)

lemma count_due:
  assumes "rel_ok m"
  shows "resend_count i (fst (due_for_resend now m)) =
    (case fmlookup (rl_pending m) i of
       None \<Rightarrow> 0 | Some e \<Rightarrow> if due_outcome m now e = Resent then 1 else 0)"
proof -
  let ?es = "btree_entries (rl_pending m)"
  let ?resent = "\<lambda>p. due_outcome m now (snd p) = Resent"
  have ids: "op_id (pe_op (snd p)) = fst p" if "p \<in> set ?es" for p
    using that assms set_btree_entries [of "fst p" "snd p" "rl_pending m"] by (simp add: rel_ok_def)
  have "resend_count i (fst (due_for_resend now m)) =
      length (filter (\<lambda>p. op_id (pe_op (snd p)) = i) (filter ?resent ?es))"
    by (simp add: resend_count_def due_for_resend_def filter_map comp_def case_prod_unfold)
  also have "filter (\<lambda>p. op_id (pe_op (snd p)) = i) (filter ?resent ?es) =
      filter ?resent (filter (\<lambda>p. fst p = i) ?es)"
    unfolding filter_filter by (rule filter_cong) (auto simp: ids)
  also have "length \<dots> = (case fmlookup (rl_pending m) i of
       None \<Rightarrow> 0 | Some e \<Rightarrow> if due_outcome m now e = Resent then 1 else 0)"
  proof (cases "fmlookup (rl_pending m) i")
    case None
    then have "filter (\<lambda>p. fst p = i) ?es = []"
      using set_btree_entries [of i _ "rl_pending m"] by (auto simp: filter_empty_conv)
    with None show ?thesis by simp
  next
    case (Some e)
    then have "(i, e) \<in> set ?es" by (simp only: set_btree_entries)
    then have "filter (\<lambda>p. fst p = i) ?es = [(i, e)]" by (intro filter_distinct_key) simp_all
    with Some show ?thesis by simp
  qed
  finally show ?thesis .
qed

lemma budget_due:
  assumes "rel_ok m" and "rl_max_resends m \<noteq> - 1"
  shows "resend_count i (fst (due_for_resend now m)) + budget_left i (snd (due_for_resend now m))
    \<le> budget_left i m"
proof (cases "fmlookup (rl_pending m) i")
  case (Some e)
  show ?thesis
  proof (cases "due_outcome m now e = Resent")
    case True
    then have le: "unat (pe_attempts e) \<le> unat (rl_max_resends m)"
      by (auto simp: due_outcome_def word_le_nat_alt word_less_nat_alt split: if_splits)
    have "unat (rl_max_resends m) \<noteq> unat (- 1 :: u32)"
      using assms(2) by (simp only: word_unat_eq_iff [symmetric] not_False_eq_True)
    then have "unat (rl_max_resends m) < 2 ^ 32 - 1"
      using unat_le_max [of "rl_max_resends m"] by (simp add: unat_minus_one_word)
    then have "unat (pe_attempts e + 1) = Suc (unat (pe_attempts e))"
      using le by (simp add: unat_word_ariths)
    then show ?thesis using True Some le
      by (simp add: count_due [OF assms(1)] budget_left_def due_lookup due_entry_def)
  next
    case False
    then show ?thesis using Some
      by (simp add: count_due [OF assms(1)] budget_left_def due_lookup due_entry_def)
  qed
qed (simp add: count_due [OF assms(1)] budget_left_def due_lookup)

lemma budget_ack: "budget_left i (snd (rel_on_ack j from m)) \<le> budget_left i m"
  by (auto simp: budget_left_def rel_on_ack_def split: option.split)

lemma ack_frame [simp]: "rl_max_resends (snd (rel_on_ack j from m)) = rl_max_resends m"
  by (simp add: rel_on_ack_def split: option.split)

lemma rel_run_budget:
  "rel_ok m \<Longrightarrow> rl_max_resends m \<noteq> - 1 \<Longrightarrow> resend_count i (fst (rel_run es m)) \<le> budget_left i m"
proof (induction es m rule: rel_run.induct)
  case (2 now_ms es m)
  let ?m = "snd (due_for_resend now_ms m)"
  have "resend_count i (fst (rel_run es ?m)) \<le> budget_left i ?m"
    using 2 by (simp add: rel_ok_due)
  moreover have "fst (rel_run (Poll now_ms # es) m) =
      fst (due_for_resend now_ms m) @ fst (rel_run es ?m)"
    by simp
  ultimately show ?case
    using budget_due [of m i now_ms] "2.prems" by (simp add: resend_count_def)
next
  case (3 j sender es m)
  then show ?case using budget_ack [of i j sender m] by (fastforce simp: rel_ok_ack)
qed (simp add: resend_count_def)

text \<open>Claim C17. Resends are bounded: an operation tracked on a fresh or any
  well-formed manager is resent at most \<open>max_resends\<close> times over any later sequence of
  polls (at any times, a clock that jumps included) and acks.\<close>

theorem resends_bounded:
  assumes "rel_ok m" and "rl_max_resends m \<noteq> - 1"
  shows "resend_count (op_id x) (fst (rel_run es (rel_track x now m))) \<le> unat (rl_max_resends m)"
proof -
  have "rel_ok (rel_track x now m)" using assms(1) by (auto simp: rel_ok_def rel_track_def)
  then have "resend_count (op_id x) (fst (rel_run es (rel_track x now m))) \<le>
      budget_left (op_id x) (rel_track x now m)"
    using assms(2) by (intro rel_run_budget) (simp_all add: rel_track_def)
  also have "\<dots> = unat (rl_max_resends m)" by (simp add: budget_left_def rel_track_def)
  finally show ?thesis .
qed

definition ack_op :: "tagged_operation" where
  "ack_op = \<lparr>op_id = OperationId 1 (PeerId 1), operation = DeleteTrack (TrackId 1), lamport_ts = 1,
     op_clock = vc_new, op_peer = PeerId 1, timestamp = 0\<rparr>"

theorem resends_bounded_witness:
  "resend_count (op_id ack_op) (fst (rel_run [Poll 10, Poll 20, Poll 30, Poll 40]
     (rel_track ack_op 0 (reliability_new 5 2)))) \<le> 2"
  using resends_bounded [of "reliability_new 5 2" ack_op "[Poll 10, Poll 20, Poll 30, Poll 40]" 0]
  by (simp add: reliability_new_def rel_ok_def del: rel_run.simps)

text \<open>The first acknowledgment from any peer ends the resends: after it no
  later poll sends the operation again, unless it is tracked anew.\<close>

theorem first_ack_ends_resends:
  assumes "rel_ok m" and "rl_max_resends m \<noteq> - 1" and "fmlookup (rl_acked_peers m) i = None"
  shows "resend_count i (fst (rel_run es (snd (rel_on_ack i p m)))) = 0"
proof -
  have "budget_left i (snd (rel_on_ack i p m)) = 0"
    using assms(3) by (simp add: budget_left_def rel_on_ack_def)
  then show ?thesis
    using rel_run_budget [OF rel_ok_ack [OF assms(1)], of i p i es] assms(2) by simp
qed

theorem first_ack_ends_resends_witness:
  "resend_count (op_id ack_op) (fst (rel_run [Poll 10, Poll 20]
     (snd (rel_on_ack (op_id ack_op) (PeerId 2) (rel_track ack_op 0 (reliability_new 5 2)))))) = 0"
  by (rule first_ack_ends_resends) (simp_all add: reliability_new_def rel_track_def rel_ok_def)

text \<open>Acknowledged peers are never cleared: an operation tracked again after an ack can no
  longer be acknowledged.\<close>

lemma retracked_never_acked:
  assumes "fmlookup (rl_acked_peers m) (op_id x) = Some peers"
  shows "contains_key (rl_pending (snd (rel_on_ack (op_id x) p (rel_track x now m)))) (op_id x)"
  using assms by (simp add: rel_on_ack_def rel_track_def)

section \<open>The batcher\<close>

text \<open>Instants are milliseconds of the monotonic clock.\<close>

record batcher =
  bt_pending :: "tagged_operation list"
  bt_interval :: u64
  bt_last_flush :: u64

definition batcher_new :: "u64 \<Rightarrow> u64 \<Rightarrow> batcher" where
  "batcher_new interval now_ms = \<lparr>bt_pending = [], bt_interval = interval, bt_last_flush = now_ms\<rparr>"

definition batcher_add :: "tagged_operation \<Rightarrow> batcher \<Rightarrow> batcher" where
  "batcher_add x b = b\<lparr>bt_pending := bt_pending b @ [x]\<rparr>"

definition batcher_pending_len :: "batcher \<Rightarrow> nat" where
  "batcher_pending_len b = length (bt_pending b)"

definition batcher_is_empty :: "batcher \<Rightarrow> bool" where
  "batcher_is_empty b \<longleftrightarrow> bt_pending b = []"

definition flush_if_ready ::
  "(sync_message \<Rightarrow> 't \<Rightarrow> unit result \<times> 't) \<Rightarrow> u64 \<Rightarrow> batcher \<Rightarrow> 't \<Rightarrow> nat result \<times> batcher \<times> 't" where
  "flush_if_ready broadcast now_ms b t =
     (if bt_pending b = [] \<or> sat_sub now_ms (bt_last_flush b) < bt_interval b then (Inr 0, b, t)
      else
        let batch = bt_pending b in
        (case broadcast (MsgBatch batch) t of
           (Inr _, t) \<Rightarrow> (Inr (length batch), b\<lparr>bt_pending := [], bt_last_flush := now_ms\<rparr>, t)
         | (Inl e, t) \<Rightarrow> (Inl e, b\<lparr>bt_pending := batch\<rparr>, t)))"

text \<open>The batcher loses nothing: a flush either broadcasts the whole batch in
  order and reports its size, or leaves the batch as it was, whether the interval had not
  elapsed or the transport failed.\<close>

theorem flush_all_or_nothing:
  "case flush_if_ready broadcast now b t of (res, b', t') \<Rightarrow>
     bt_pending b' = bt_pending b \<and> (res = Inr 0 \<or> (\<exists>e. res = Inl e)) \<or>
     bt_pending b' = [] \<and> res = Inr (length (bt_pending b)) \<and>
       broadcast (MsgBatch (bt_pending b)) t = (Inr (), t')"
  by (simp add: flush_if_ready_def Let_def split: prod.split sum.split)

end
