(* ===== verification/Offline_Queue.thy ===== *)
theory Offline_Queue
  imports Message Bounded_Queue
begin

text \<open>
  The offline queue (\<open>tpt-av-sync-net/src/offline.rs\<close>), the second implementation of
  \<open>bounded_fifo\<close>: the messages queued while disconnected are the most recent
  \<open>capacity\<close> ones, in order, and draining hands them over exactly once.
\<close>

record offline_queue =
  oq_queue :: "sync_message list"
  oq_capacity :: nat

definition offline_new :: "nat \<Rightarrow> offline_queue" where
  "offline_new capacity = \<lparr>oq_queue = [], oq_capacity = max capacity 1\<rparr>"

definition offline_enqueue :: "sync_message \<Rightarrow> offline_queue \<Rightarrow> offline_queue" where
  "offline_enqueue m q =
     (let q = (if oq_capacity q \<le> length (oq_queue q) then q\<lparr>oq_queue := tl (oq_queue q)\<rparr> else q)
      in q\<lparr>oq_queue := oq_queue q @ [m]\<rparr>)"

definition offline_drain :: "offline_queue \<Rightarrow> sync_message list \<times> offline_queue" where
  "offline_drain q = (oq_queue q, q\<lparr>oq_queue := []\<rparr>)"

definition offline_len :: "offline_queue \<Rightarrow> nat" where
  "offline_len q = length (oq_queue q)"

definition offline_is_empty :: "offline_queue \<Rightarrow> bool" where
  "offline_is_empty q \<longleftrightarrow> oq_queue q = []"

interpretation offline: bounded_fifo offline_enqueue oq_queue oq_capacity
  by unfold_locales (auto simp: offline_enqueue_def push_bounded_def Let_def)

definition offline_inv :: "offline_queue \<Rightarrow> bool" where
  "offline_inv q \<longleftrightarrow> 0 < oq_capacity q \<and> offline_len q \<le> oq_capacity q"

lemma offline_inv_new [simp]: "offline_inv (offline_new n)"
  by (simp add: offline_inv_def offline_new_def offline_len_def)

lemma offline_inv_enqueue: "offline_inv q \<Longrightarrow> offline_inv (offline_enqueue m q)"
  using offline.length_fold [of q "[m]"] offline.capacity_fold [of "[m]" q]
  by (simp add: offline_inv_def offline_len_def)

lemma offline_inv_drain: "offline_inv q \<Longrightarrow> offline_inv (snd (offline_drain q))"
  by (simp add: offline_inv_def offline_drain_def offline_len_def)

text \<open>What a reconnecting peer sends: after any messages were queued while
  offline, draining yields exactly the most recent \<open>capacity\<close> of them in the order they
  were queued, and leaves the queue empty.\<close>

theorem offline_drain_after_enqueues:
  "offline_drain (fold offline_enqueue ms (offline_new n)) =
     (last_n (max n 1) ms, offline_new n)"
proof -
  let ?q = "fold offline_enqueue ms (offline_new n)"
  have items: "oq_queue ?q = last_n (max n 1) ms"
    using offline.items_fold [of "offline_new n" ms] by (simp add: offline_new_def)
  have "oq_capacity ?q = max n 1" by (simp add: offline_new_def)
  then have "?q\<lparr>oq_queue := []\<rparr> = offline_new n"
    by (intro offline_queue.equality) (simp_all add: offline_new_def)
  with items show ?thesis by (simp add: offline_drain_def)
qed

end
