(* ===== verification/Engine.thy ===== *)
theory Engine
  imports Net_Transport Reliability Offline_Queue Replica
begin

text \<open>
  The sync engine (\<open>tpt-av-sync-net/src/engine.rs\<close>) over an arbitrary transport: local
  edits, dispatch with offline queueing, the poll loop, peer membership, message handling
  and resends. \<open>'t transport_ops\<close> is the boxed transport's methods, \<open>now\<close> the wall clock in
  milliseconds (read once per call) and \<open>stamp\<close> the \<open>SystemTime\<close> a local edit records. A
  result of \<open>None\<close> is a call into the CRDT that does not return.
\<close>

record engine_config =
  ec_offline_queue :: bool
  ec_ack_timeout_ms :: u64
  ec_max_resends :: u32
  ec_max_messages_per_tick :: nat
  ec_offline_capacity :: nat

definition engine_config_default :: engine_config where
  "engine_config_default =
     \<lparr>ec_offline_queue = True, ec_ack_timeout_ms = 1000, ec_max_resends = 4,
      ec_max_messages_per_tick = 4096, ec_offline_capacity = 10000\<rparr>"

datatype sync_event =
    PeerJoined peer_id
  | PeerLeft peer_id
  | RemoteOperation tagged_operation
  | SnapshotMerged nat nat
  | EvPlayhead playhead_update
  | EvTransportControl transport_control
  | EvPresence presence_update
  | EvClockSync clock_sync_message

record 't engine =
  en_crdt :: timeline_crdt
  en_transport :: 't
  en_config :: engine_config
  en_reliability :: reliability
  en_offline :: offline_queue
  en_events :: "sync_event list"
  en_known_peers :: "peer_id list"

definition engine_with_config :: "timeline_crdt \<Rightarrow> 't \<Rightarrow> engine_config \<Rightarrow> 't engine" where
  "engine_with_config crdt t config =
     \<lparr>en_crdt = crdt, en_transport = t, en_config = config,
      en_reliability = reliability_new (ec_ack_timeout_ms config) (ec_max_resends config),
      en_offline = offline_new (ec_offline_capacity config), en_events = [], en_known_peers = []\<rparr>"

definition engine_new :: "timeline_crdt \<Rightarrow> 't \<Rightarrow> 't engine" where
  "engine_new crdt t = engine_with_config crdt t engine_config_default"

section \<open>Sending\<close>

text \<open>\<open>if let SyncMessage::Operation(op) = msg { self.reliability.track(op, now_ms()) }\<close>.\<close>

definition track_if_operation :: "sync_message \<Rightarrow> u64 \<Rightarrow> 't engine \<Rightarrow> 't engine" where
  "track_if_operation m now e = (case m of
     MsgOperation x \<Rightarrow> e\<lparr>en_reliability := rel_track x now (en_reliability e)\<rparr> | _ \<Rightarrow> e)"

definition engine_dispatch :: "'t transport_ops \<Rightarrow> u64 \<Rightarrow> sync_message \<Rightarrow> 't engine \<Rightarrow> 't engine" where
  "engine_dispatch ops now m e =
     (case tp_broadcast ops m (en_transport e) of
        (Inr _, t) \<Rightarrow> track_if_operation m now (e\<lparr>en_transport := t\<rparr>)
      | (Inl _, t) \<Rightarrow>
          let e = e\<lparr>en_transport := t\<rparr>
          in if ec_offline_queue (en_config e)
             then e\<lparr>en_offline := offline_enqueue m (en_offline e)\<rparr> else e)"

definition engine_apply_local ::
  "'t transport_ops \<Rightarrow> u64 \<Rightarrow> int \<Rightarrow> timeline_operation \<Rightarrow> 't engine \<Rightarrow>
    (tagged_operation \<times> 't engine) option" where
  "engine_apply_local ops now stamp oper e =
     Option.bind (apply_local oper stamp (en_crdt e)) (\<lambda>(tagged, c).
       Some (tagged, engine_dispatch ops now (MsgOperation tagged) (e\<lparr>en_crdt := c\<rparr>)))"

definition engine_request_snapshot :: "'t transport_ops \<Rightarrow> u64 \<Rightarrow> 't engine \<Rightarrow> 't engine" where
  "engine_request_snapshot ops now e = engine_dispatch ops now MsgRequestSnapshot e"

fun flush_messages :: "'t transport_ops \<Rightarrow> u64 \<Rightarrow> sync_message list \<Rightarrow> 't engine \<Rightarrow> 't engine" where
  "flush_messages ops now [] e = e"
| "flush_messages ops now (m # ms) e =
     (case tp_broadcast ops m (en_transport e) of
        (Inr _, t) \<Rightarrow> flush_messages ops now ms (track_if_operation m now (e\<lparr>en_transport := t\<rparr>))
      | (Inl _, t) \<Rightarrow> flush_messages ops now ms (e\<lparr>en_transport := t\<rparr>))"

definition flush_offline_queue :: "'t transport_ops \<Rightarrow> u64 \<Rightarrow> 't engine \<Rightarrow> 't engine" where
  "flush_offline_queue ops now e =
     (let (ms, q) = offline_drain (en_offline e)
      in flush_messages ops now ms (e\<lparr>en_offline := q\<rparr>))"

section \<open>Peer membership\<close>

definition engine_peer_join ::
  "'t transport_ops \<Rightarrow> u64 \<Rightarrow> peer_id \<Rightarrow> 't engine \<Rightarrow> unit result \<times> 't engine" where
  "engine_peer_join ops now p e =
     (case tp_send_to ops p (MsgSnapshot (timeline_snapshot_of (en_crdt e))) (en_transport e) of
        (Inl err, t) \<Rightarrow> (Inl err, e\<lparr>en_transport := t\<rparr>)
      | (Inr _, t) \<Rightarrow> (Inr (), flush_offline_queue ops now (e\<lparr>en_transport := t\<rparr>)))"

definition engine_peer_leave :: "peer_id \<Rightarrow> 't engine \<Rightarrow> 't engine" where
  "engine_peer_leave p e = e"

fun note_joined :: "'t transport_ops \<Rightarrow> u64 \<Rightarrow> peer_id list \<Rightarrow> 't engine \<Rightarrow> 't engine" where
  "note_joined ops now [] e = e"
| "note_joined ops now (p # ps) e =
     note_joined ops now ps
       (if p \<in> set (en_known_peers e) then e
        else snd (engine_peer_join ops now p (e\<lparr>en_events := en_events e @ [PeerJoined p]\<rparr>)))"

fun note_departed :: "peer_id list \<Rightarrow> 't engine \<Rightarrow> 't engine" where
  "note_departed [] e = e"
| "note_departed (p # ps) e =
     note_departed ps (engine_peer_leave p (e\<lparr>en_events := en_events e @ [PeerLeft p]\<rparr>))"

definition detect_peer_changes :: "'t transport_ops \<Rightarrow> u64 \<Rightarrow> 't engine \<Rightarrow> 't engine" where
  "detect_peer_changes ops now e =
     (let current = tp_peers ops (en_transport e);
          e = note_joined ops now current e;
          departed = filter (\<lambda>p. p \<notin> set current) (en_known_peers e);
          e = note_departed departed e
      in e\<lparr>en_known_peers := current\<rparr>)"

section \<open>Handling messages\<close>

definition handle_operation ::
  "'t transport_ops \<Rightarrow> peer_id \<Rightarrow> tagged_operation \<Rightarrow> 't engine \<Rightarrow> 't engine option" where
  "handle_operation ops p x e =
     (case validate_operation (operation x) of
        Inl _ \<Rightarrow> Some e
      | Inr _ \<Rightarrow>
          Option.bind (apply_remote x (en_crdt e)) (\<lambda>(res, c).
            let e = e\<lparr>en_crdt := c\<rparr>
            in (case res of
                  Inl _ \<Rightarrow> Some e
                | Inr _ \<Rightarrow>
                    let (_, t) = tp_send_to ops p (MsgAck (op_id x)) (en_transport e)
                    in Some (e\<lparr>en_transport := t, en_events := en_events e @ [RemoteOperation x]\<rparr>))))"

fun handle_batch ::
  "'t transport_ops \<Rightarrow> peer_id \<Rightarrow> tagged_operation list \<Rightarrow> 't engine \<Rightarrow> 't engine option" where
  "handle_batch ops p [] e = Some e"
| "handle_batch ops p (x # xs) e = Option.bind (handle_operation ops p x e) (handle_batch ops p xs)"

definition push_event :: "sync_event \<Rightarrow> 't engine \<Rightarrow> 't engine" where
  "push_event ev e = e\<lparr>en_events := en_events e @ [ev]\<rparr>"

fun handle_message ::
  "'t transport_ops \<Rightarrow> peer_id \<Rightarrow> sync_message \<Rightarrow> 't engine \<Rightarrow> 't engine option" where
  "handle_message ops p (MsgOperation x) e = handle_operation ops p x e"
| "handle_message ops p (MsgBatch xs) e = handle_batch ops p xs e"
| "handle_message ops p (MsgAck i) e =
     Some (e\<lparr>en_reliability := snd (rel_on_ack i p (en_reliability e))\<rparr>)"
| "handle_message ops p MsgRequestSnapshot e =
     Some (e\<lparr>en_transport := snd (tp_send_to ops p
       (MsgSnapshot (timeline_snapshot_of (en_crdt e))) (en_transport e))\<rparr>)"
| "handle_message ops p (MsgSnapshot snap) e =
     Option.bind (merge_snapshot snap (en_crdt e)) (\<lambda>c.
       let applied = length (tl_log c) - length (tl_log (en_crdt e))
       in Some (push_event (SnapshotMerged applied (length (snap_ops snap))) (e\<lparr>en_crdt := c\<rparr>)))"
| "handle_message ops p (MsgPlayheadUpdate u) e = Some (push_event (EvPlayhead u) e)"
| "handle_message ops p (MsgTransportControl u) e = Some (push_event (EvTransportControl u) e)"
| "handle_message ops p (MsgPresenceUpdate u) e = Some (push_event (EvPresence u) e)"
| "handle_message ops p (MsgClockSync u) e = Some (push_event (EvClockSync u) e)"

text \<open>
  The poll loop, recursive in the number of messages the tick may still handle
  (\<open>max_messages_per_tick - handled\<close>); it returns the number handled.
\<close>

fun poll_messages :: "'t transport_ops \<Rightarrow> nat \<Rightarrow> nat \<Rightarrow> 't engine \<Rightarrow> (nat \<times> 't engine) option" where
  "poll_messages ops 0 handled e = Some (handled, e)"
| "poll_messages ops (Suc n) handled e =
     (case tp_try_recv ops (en_transport e) of
        (Inr (Some (p, m)), t) \<Rightarrow>
          Option.bind (handle_message ops p m (e\<lparr>en_transport := t\<rparr>))
            (poll_messages ops n (Suc handled))
      | (Inr None, t) \<Rightarrow> Some (handled, e\<lparr>en_transport := t\<rparr>)
      | (Inl _, t) \<Rightarrow> Some (handled, e\<lparr>en_transport := t\<rparr>))"

fun broadcast_all :: "'t transport_ops \<Rightarrow> tagged_operation list \<Rightarrow> 't engine \<Rightarrow> 't engine" where
  "broadcast_all ops [] e = e"
| "broadcast_all ops (x # xs) e =
     broadcast_all ops xs (e\<lparr>en_transport := snd (tp_broadcast ops (MsgOperation x) (en_transport e))\<rparr>)"

definition resend_due :: "'t transport_ops \<Rightarrow> u64 \<Rightarrow> 't engine \<Rightarrow> 't engine" where
  "resend_due ops now e =
     (let (due, m) = due_for_resend now (en_reliability e)
      in broadcast_all ops due (e\<lparr>en_reliability := m\<rparr>))"

definition process_messages :: "'t transport_ops \<Rightarrow> u64 \<Rightarrow> 't engine \<Rightarrow> (nat \<times> 't engine) option" where
  "process_messages ops now e =
     (let e = detect_peer_changes ops now e
      in Option.bind (poll_messages ops (ec_max_messages_per_tick (en_config e)) 0 e) (\<lambda>(handled, e).
           Some (handled, resend_due ops now e)))"

definition take_events :: "'t engine \<Rightarrow> sync_event list \<times> 't engine" where
  "take_events e = (en_events e, e\<lparr>en_events := []\<rparr>)"

definition pending_acks :: "'t engine \<Rightarrow> nat" where
  "pending_acks e = rel_pending_len (en_reliability e)"

definition offline_queue_len :: "'t engine \<Rightarrow> nat" where
  "offline_queue_len e = offline_len (en_offline e)"

section \<open>What the engine sends\<close>

lemma track_if_operation_frame [simp]:
  "en_transport (track_if_operation m now e) = en_transport e"
  "en_crdt (track_if_operation m now e) = en_crdt e"
  "en_offline (track_if_operation m now e) = en_offline e"
  "en_config (track_if_operation m now e) = en_config e"
  by (simp_all add: track_if_operation_def split: sync_message.split)

context transport
begin

text \<open>A dispatched message is with the transport or, when queueing is on, last in the queue.\<close>

lemma dispatch_delivers:
  "m \<in> set (sent (en_transport (engine_dispatch ops now m e))) \<or>
   \<not> ec_offline_queue (en_config e) \<or>
   last (oq_queue (en_offline (engine_dispatch ops now m e))) = m"
  by (auto simp: engine_dispatch_def offline_enqueue_def Let_def split: prod.split sum.split
      dest: broadcast_sent)

end

context inbox_transport
begin

lemma flush_messages_keeps:
  "inbox (en_transport (flush_messages ops now ms e)) = inbox (en_transport e) \<and>
   en_crdt (flush_messages ops now ms e) = en_crdt e \<and>
   en_config (flush_messages ops now ms e) = en_config e"
  by (induction ms arbitrary: e) (auto split: prod.split sum.split dest: broadcast_inbox)

lemma peer_join_keeps:
  "inbox (en_transport (snd (engine_peer_join ops now p e))) = inbox (en_transport e) \<and>
   en_crdt (snd (engine_peer_join ops now p e)) = en_crdt e \<and>
   en_config (snd (engine_peer_join ops now p e)) = en_config e"
  by (auto simp: engine_peer_join_def flush_offline_queue_def offline_drain_def flush_messages_keeps
      split: prod.split sum.split dest: send_to_inbox)

lemma detect_keeps:
  "inbox (en_transport (detect_peer_changes ops now e)) = inbox (en_transport e) \<and>
   en_crdt (detect_peer_changes ops now e) = en_crdt e \<and>
   en_config (detect_peer_changes ops now e) = en_config e"
proof -
  have joined: "inbox (en_transport (note_joined ops now ps e)) = inbox (en_transport e) \<and>
      en_crdt (note_joined ops now ps e) = en_crdt e \<and> en_config (note_joined ops now ps e) = en_config e"
    for ps and e :: "'t engine"
    by (induction ps arbitrary: e) (simp_all add: peer_join_keeps)
  have departed: "en_transport (note_departed ps e) = en_transport e \<and>
      en_crdt (note_departed ps e) = en_crdt e \<and> en_config (note_departed ps e) = en_config e"
    for ps and e :: "'t engine"
    by (induction ps arbitrary: e) (simp_all add: engine_peer_leave_def)
  show ?thesis by (simp add: detect_peer_changes_def Let_def joined departed)
qed

end

section \<open>The poll loop returns\<close>

fun message_ops :: "sync_message \<Rightarrow> tagged_operation set" where
  "message_ops (MsgOperation x) = {x}"
| "message_ops (MsgBatch xs) = set xs"
| "message_ops (MsgSnapshot snap) = set (snap_ops snap)"
| "message_ops _ = {}"

text \<open>Operations of the discipline \<open>X\<close>, in well-formed envelopes.\<close>

definition ops_in :: "(timeline_operation \<times> op_tag) set \<Rightarrow> tagged_operation set \<Rightarrow> bool" where
  "ops_in X Y \<longleftrightarrow> (\<forall>x \<in> Y. op_key x \<in> X \<and> well_formed_op x)"

context inbox_transport
begin

lemma handle_operation_ok:
  assumes "valid_ops X" "replica_ok X es (en_crdt e)" "ops_in X {x}"
  shows "\<exists>e' es'. handle_operation ops p x e = Some e' \<and> replica_ok X es' (en_crdt e') \<and>
    inbox (en_transport e') = inbox (en_transport e)"
proof (cases "validate_operation (operation x)")
  case (Inl err)
  with assms(2) show ?thesis by (auto simp: handle_operation_def)
next
  case (Inr u)
  obtain c' es' where c: "apply_remote x (en_crdt e) = Some (Inr (), c')" "replica_ok X es' c'"
    using apply_remote_replica [OF assms(1,2), of x] assms(3) by (auto simp: ops_in_def)
  obtain r t where t: "tp_send_to ops p (MsgAck (op_id x)) (en_transport e) = (r, t)"
    by (cases "tp_send_to ops p (MsgAck (op_id x)) (en_transport e)")
  with c Inr send_to_inbox [OF t] show ?thesis by (auto simp: handle_operation_def Let_def)
qed

lemma handle_batch_ok:
  "valid_ops X \<Longrightarrow> replica_ok X es (en_crdt e) \<Longrightarrow> ops_in X (set xs) \<Longrightarrow>
    \<exists>e' es'. handle_batch ops p xs e = Some e' \<and> replica_ok X es' (en_crdt e') \<and>
      inbox (en_transport e') = inbox (en_transport e)"
proof (induction xs arbitrary: e es)
  case (Cons x xs)
  from handle_operation_ok [OF Cons.prems(1,2), of x p] Cons.prems(3) obtain d fs where
    d: "handle_operation ops p x e = Some d" "replica_ok X fs (en_crdt d)"
      "inbox (en_transport d) = inbox (en_transport e)" by (auto simp: ops_in_def)
  from Cons.IH [OF Cons.prems(1) d(2)] Cons.prems(3) d show ?case by (auto simp: ops_in_def)
qed auto

lemma handle_message_ok:
  assumes "valid_ops X" "replica_ok X es (en_crdt e)" "ops_in X (message_ops m)"
  shows "\<exists>e' es'. handle_message ops p m e = Some e' \<and> replica_ok X es' (en_crdt e') \<and>
    inbox (en_transport e') = inbox (en_transport e)"
proof (cases m)
  case (MsgOperation x)
  with handle_operation_ok [OF assms(1,2), of x p] assms(3) show ?thesis by simp
next
  case (MsgBatch xs)
  with handle_batch_ok [OF assms(1,2), of xs p] assms(3) show ?thesis by simp
next
  case (MsgSnapshot snap)
  let ?xs = "sort_key op_rank (snap_ops snap)"
  have "op_key ` set ?xs \<subseteq> X" "\<forall>x \<in> set ?xs. well_formed_op x"
    using assms(3) MsgSnapshot by (auto simp: ops_in_def)
  from apply_remote_all_replica [OF assms(1,2) this] obtain c' es' where
    "apply_remote_all ?xs (en_crdt e) = Some c'" "replica_ok X es' c'" by blast
  then show ?thesis by (auto simp: MsgSnapshot merge_snapshot_def push_event_def Let_def)
next
  case MsgRequestSnapshot
  then show ?thesis using assms(2) send_to_inbox
    by (auto simp: prod_eq_iff)
qed (use assms(2) in \<open>auto simp: push_event_def\<close>)

lemma poll_messages_ok:
  "valid_ops X \<Longrightarrow> replica_ok X es (en_crdt e) \<Longrightarrow>
    \<forall>(p, m) \<in> set (inbox (en_transport e)). ops_in X (message_ops m) \<Longrightarrow>
    \<exists>n e' es'. poll_messages ops fuel handled e = Some (n, e') \<and> replica_ok X es' (en_crdt e') \<and>
      n \<le> handled + fuel"
proof (induction fuel arbitrary: handled e es)
  case 0
  then show ?case by auto
next
  case (Suc fuel)
  obtain r t where t: "tp_try_recv ops (en_transport e) = (r, t)"
    by (cases "tp_try_recv ops (en_transport e)")
  show ?case
  proof (cases r)
    case (Inl err)
    with t Suc.prems(2) show ?thesis by auto
  next
    case (Inr item)
    show ?thesis
    proof (cases item)
      case None
      with t Inr Suc.prems(2) show ?thesis by auto
    next
      case (Some pm)
      obtain p m where pm: "pm = (p, m)" by (cases pm)
      have head: "inbox (en_transport e) = (p, m) # inbox t"
        using recv_inbox t Inr Some pm by simp
      let ?e = "e\<lparr>en_transport := t\<rparr>"
      have "replica_ok X es (en_crdt ?e)" "ops_in X (message_ops m)"
        using Suc.prems(2,3) head by auto
      from handle_message_ok [OF Suc.prems(1) this, of p] obtain d fs where
        d: "handle_message ops p m ?e = Some d" "replica_ok X fs (en_crdt d)"
          "inbox (en_transport d) = inbox t" by auto
      have "\<forall>(p, m) \<in> set (inbox (en_transport d)). ops_in X (message_ops m)"
        using Suc.prems(3) head d(3) by auto
      from Suc.IH [OF Suc.prems(1) d(2) this, of "Suc handled"] t Inr Some pm d(1)
      show ?thesis by auto
    qed
  qed
qed

end

lemma broadcast_all_crdt [simp]: "en_crdt (broadcast_all ops xs e) = en_crdt e"
  by (induction xs arbitrary: e) simp_all

context inbox_transport
begin

lemma process_messages_ok:
  assumes "valid_ops X" "replica_ok X es (en_crdt e)"
    and "\<forall>(p, m) \<in> set (inbox (en_transport e)). ops_in X (message_ops m)"
  shows "\<exists>n e' es'. process_messages ops now e = Some (n, e') \<and> replica_ok X es' (en_crdt e') \<and>
    n \<le> ec_max_messages_per_tick (en_config e)"
proof -
  let ?e = "detect_peer_changes ops now e"
  from detect_keeps [of now e] assms have "replica_ok X es (en_crdt ?e)"
    "\<forall>(p, m) \<in> set (inbox (en_transport ?e)). ops_in X (message_ops m)" by simp_all
  from poll_messages_ok [OF assms(1) this, of "ec_max_messages_per_tick (en_config ?e)" 0]
    detect_keeps [of now e]
  show ?thesis
    by (auto simp: process_messages_def Let_def resend_due_def case_prod_unfold)
qed

end

end
