(* ===== verification/Engine_Sessions.thy ===== *)
theory Engine_Sessions
  imports Engine Convergence
begin

text \<open>
  Engines over the loopback transport (the flows of \<open>engine.rs\<close> and its tests): a poll
  handles what the inbox holds, two engines that receive the same operations converge, a
  local edit is sent and tracked or queued, queued edits go out in order on reconnect, and
  where the engine loses messages or skips validation. \<open>delivering_inbox\<close> extends the
  contract of the inbox: a waiting message is received.
\<close>

section \<open>Polling operations\<close>

text \<open>An inbox of operations, each with the peer it came from.\<close>

definition inbox_of :: "(peer_id \<times> tagged_operation) list \<Rightarrow> (peer_id \<times> sync_message) list" where
  "inbox_of pxs = map (\<lambda>(p, x). (p, MsgOperation x)) pxs"

definition all_validated :: "tagged_operation list \<Rightarrow> bool" where
  "all_validated xs \<longleftrightarrow> (\<forall>x \<in> set xs. validate_operation (operation x) = Inr ())"

text \<open>The host application calls \<open>process_messages\<close> again and again; the number handled in all.\<close>

fun process_ticks :: "'t transport_ops \<Rightarrow> u64 list \<Rightarrow> 't engine \<Rightarrow> (nat \<times> 't engine) option" where
  "process_ticks ops [] e = Some (0, e)"
| "process_ticks ops (now # nows) e =
     Option.bind (process_messages ops now e) (\<lambda>(n, e).
       map_option (\<lambda>(k, e). (n + k, e)) (process_ticks ops nows e))"

lemma apply_remote_all_append:
  "apply_remote_all (xs @ ys) c = Option.bind (apply_remote_all xs c) (apply_remote_all ys)"
  by (induction xs arbitrary: c) (auto split: option.split)

locale delivering_inbox = inbox_transport ops inbox
  for ops :: "'t transport_ops" and inbox +
  assumes recv_delivers: "inbox t = x # rest \<Longrightarrow> \<exists>t'. tp_try_recv ops t = (Inr (Some x), t')"
begin

lemma poll_operations:
  assumes X: "valid_ops X"
  shows "replica_ok X es (en_crdt e) \<Longrightarrow> inbox (en_transport e) = inbox_of pxs \<Longrightarrow>
    ops_in X (set (map snd pxs)) \<Longrightarrow> all_validated (map snd pxs) \<Longrightarrow>
    \<exists>e'. poll_messages ops n h e = Some (h + min n (length pxs), e') \<and>
      apply_remote_all (map snd (take n pxs)) (en_crdt e) = Some (en_crdt e') \<and>
      inbox (en_transport e') = inbox_of (drop n pxs) \<and> en_config e' = en_config e \<and>
      en_events e' = en_events e @ map (\<lambda>(p, x). RemoteOperation x) (take n pxs)"
proof (induction pxs arbitrary: n h e es)
  case Nil
  show ?case
  proof (cases n)
    case (Suc m)
    obtain r t where rt: "tp_try_recv ops (en_transport e) = (r, t)" by force
    then have "\<nexists>x. r = Inr (Some x)" using recv_inbox Nil.prems(2) by (fastforce simp: inbox_of_def)
    then obtain "(\<exists>err. r = Inl err) \<or> r = Inr None" by (metis not_None_eq old.sum.exhaust)
    moreover from this have "t = en_transport e" using rt recv_empty recv_failed by blast
    ultimately show ?thesis using rt Suc Nil.prems(2) by auto
  qed (use Nil in \<open>simp add: inbox_of_def\<close>)
next
  case (Cons px pxs)
  obtain p x where px: "px = (p, x)" by (cases px)
  show ?case
  proof (cases n)
    case (Suc m)
    obtain t where t: "tp_try_recv ops (en_transport e) = (Inr (Some (p, MsgOperation x)), t)"
      using recv_delivers Cons.prems(2) px by (fastforce simp: inbox_of_def)
    with recv_inbox [OF t] Cons.prems(2) px have inb: "inbox t = inbox_of pxs" by (simp add: inbox_of_def)
    have x: "op_key x \<in> X" "well_formed_op x" "validate_operation (operation x) = Inr ()"
      using Cons.prems(3,4) px by (auto simp: ops_in_def all_validated_def)
    obtain c' es' where c: "apply_remote x (en_crdt e) = Some (Inr (), c')" "replica_ok X es' c'"
      using apply_remote_replica [OF X Cons.prems(1) x(1,2)] by blast
    obtain r t' where ack: "tp_send_to ops p (MsgAck (op_id x)) t = (r, t')" by force
    let ?d = "e\<lparr>en_crdt := c', en_transport := t', en_events := en_events e @ [RemoteOperation x]\<rparr>"
    have "inbox (en_transport ?d) = inbox_of pxs" using send_to_inbox [OF ack] inb by simp
    then obtain e' where "poll_messages ops m (Suc h) ?d = Some (Suc h + min m (length pxs), e')"
        "apply_remote_all (map snd (take m pxs)) c' = Some (en_crdt e')"
        "inbox (en_transport e') = inbox_of (drop m pxs)" "en_config e' = en_config e"
        "en_events e' = en_events ?d @ map (\<lambda>(p, x). RemoteOperation x) (take m pxs)"
      using Cons.IH [of es' ?d m "Suc h"] c(2) Cons.prems(3,4) by (auto simp: ops_in_def all_validated_def)
    with px Suc t c(1) ack x(3) show ?thesis by (auto simp: handle_operation_def Let_def)
  qed (use Cons.prems in simp)
qed

lemma resend_due_keeps:
  "inbox (en_transport (resend_due ops now e)) = inbox (en_transport e) \<and>
   en_config (resend_due ops now e) = en_config e \<and> en_crdt (resend_due ops now e) = en_crdt e"
proof -
  have "inbox (en_transport (broadcast_all ops xs e)) = inbox (en_transport e) \<and>
      en_config (broadcast_all ops xs e) = en_config e" for xs and e :: "'t engine"
  proof (induction xs arbitrary: e)
    case (Cons x xs)
    then show ?case
      using broadcast_inbox [of "MsgOperation x" "en_transport e"]
      by (cases "tp_broadcast ops (MsgOperation x) (en_transport e)") simp
  qed simp
  then show ?thesis by (simp add: resend_due_def case_prod_unfold Let_def)
qed

lemma process_operations:
  assumes "valid_ops X" "replica_ok X es (en_crdt e)" and "inbox (en_transport e) = inbox_of pxs"
    and "ops_in X (set (map snd pxs))" and "all_validated (map snd pxs)"
    and "n = ec_max_messages_per_tick (en_config e)"
  shows "\<exists>e'. process_messages ops now e = Some (min n (length pxs), e') \<and>
    apply_remote_all (map snd (take n pxs)) (en_crdt e) = Some (en_crdt e') \<and>
    inbox (en_transport e') = inbox_of (drop n pxs) \<and> en_config e' = en_config e"
proof -
  let ?e = "detect_peer_changes ops now e"
  have keeps: "inbox (en_transport ?e) = inbox (en_transport e)" "en_crdt ?e = en_crdt e"
    "en_config ?e = en_config e" using detect_keeps by simp_all
  obtain e' where "poll_messages ops n 0 ?e = Some (min n (length pxs), e')"
    "apply_remote_all (map snd (take n pxs)) (en_crdt e) = Some (en_crdt e')"
    "inbox (en_transport e') = inbox_of (drop n pxs)" "en_config e' = en_config e"
    using poll_operations [OF assms(1), of es ?e pxs n 0] assms(2-5) keeps by auto
  then show ?thesis
    using assms(6) resend_due_keeps [of now e'] by (auto simp: process_messages_def Let_def keeps)
qed

text \<open>Enough ticks handle the whole inbox.\<close>

lemma ticks_operations:
  assumes X: "valid_ops X"
  shows "replica_ok X es (en_crdt e) \<Longrightarrow> inbox (en_transport e) = inbox_of pxs \<Longrightarrow>
    ops_in X (set (map snd pxs)) \<Longrightarrow> all_validated (map snd pxs) \<Longrightarrow>
    length pxs \<le> length nows * ec_max_messages_per_tick (en_config e) \<Longrightarrow>
    \<exists>e'. process_ticks ops nows e = Some (length pxs, e') \<and>
      apply_remote_all (map snd pxs) (en_crdt e) = Some (en_crdt e')"
proof (induction nows arbitrary: e es pxs)
  case (Cons now nows)
  let ?n = "ec_max_messages_per_tick (en_config e)"
  let ?xs = "map snd (take ?n pxs)" and ?ys = "map snd (drop ?n pxs)"
  have parts: "set ?xs \<subseteq> set (map snd pxs)" "set ?ys \<subseteq> set (map snd pxs)"
    using set_take_subset [of ?n pxs] set_drop_subset [of ?n pxs] by auto
  then have ops: "ops_in X (set ?xs)" "ops_in X (set ?ys)" "all_validated ?ys"
    using Cons.prems(3,4) unfolding ops_in_def all_validated_def by blast+
  from process_operations [OF X Cons.prems(1-4) refl] obtain e' where
    e': "process_messages ops now e = Some (min ?n (length pxs), e')"
      "apply_remote_all ?xs (en_crdt e) = Some (en_crdt e')"
      "inbox (en_transport e') = inbox_of (drop ?n pxs)" "en_config e' = en_config e" by blast
  have "op_key ` set ?xs \<subseteq> X" "\<forall>x \<in> set ?xs. well_formed_op x"
    using ops(1) unfolding ops_in_def by blast+
  from apply_remote_all_replica [OF X Cons.prems(1) this] e'(2) obtain es' where "replica_ok X es' (en_crdt e')"
    by auto
  moreover have "length (drop ?n pxs) \<le> length nows * ec_max_messages_per_tick (en_config e')"
    using Cons.prems(5) e'(4) by simp
  ultimately obtain e'' where "process_ticks ops nows e' = Some (length (drop ?n pxs), e'')"
    "apply_remote_all ?ys (en_crdt e') = Some (en_crdt e'')"
    using Cons.IH [OF _ e'(3) ops(2,3)] by blast
  moreover have "map snd pxs = ?xs @ ?ys" by (simp flip: map_append)
  ultimately show ?case using e'(1,2) by (auto simp: apply_remote_all_append)
qed simp

text \<open>
  What the ticks leave behind: a replica that refines a run of the discipline, has a stuck buffer
  if it had one before, and has logged what it had and what it received.
\<close>

lemma engine_receives:
  assumes X: "valid_ops X" "replica_ok X es (en_crdt e)" "quiescent (en_crdt e)"
    and t: "inbox (en_transport e) = inbox_of pxs" and xs: "ops_in X (set (map snd pxs))" "all_validated (map snd pxs)"
    and n: "length pxs \<le> length nows * ec_max_messages_per_tick (en_config e)"
  shows "\<exists>e' fs. process_ticks ops nows e = Some (length pxs, e') \<and>
    replica_ok X fs (en_crdt e') \<and> quiescent (en_crdt e') \<and>
    op_key ` set (tl_log (en_crdt e')) = op_key ` set (tl_log (en_crdt e)) \<union> op_key ` set (map snd pxs)"
proof -
  from ticks_operations [OF X(1,2) t xs n] obtain e' where
    e': "process_ticks ops nows e = Some (length pxs, e')"
      "apply_remote_all (map snd pxs) (en_crdt e) = Some (en_crdt e')" by blast
  have "op_key ` set (map snd pxs) \<subseteq> X" "\<forall>x \<in> set (map snd pxs). well_formed_op x"
    using xs(1) unfolding ops_in_def by blast+
  from apply_remote_all_ok [OF X this] e' show ?thesis by auto
qed

end

text \<open>Two engines that hold or have been sent the same operations.\<close>

definition engine_ready ::
  "(timeline_operation \<times> op_tag) set \<Rightarrow> tagged_operation list \<Rightarrow> 't engine \<Rightarrow> bool" where
  "engine_ready X xs e \<longleftrightarrow> (\<exists>es. replica_ok X es (en_crdt e)) \<and> quiescent (en_crdt e) \<and>
     ops_in X (set xs) \<and> all_validated xs"

definition operations_known :: "tagged_operation list \<Rightarrow> 't engine \<Rightarrow> (timeline_operation \<times> op_tag) set" where
  "operations_known xs e = op_key ` (set (tl_log (en_crdt e)) \<union> set xs)"

lemma received_sessions_agree:
  assumes "valid_ops X" and "replica_ok X es (en_crdt d)" "quiescent (en_crdt d)"
    and "replica_ok X fs (en_crdt e)" "quiescent (en_crdt e)"
    and "op_key ` set (tl_log (en_crdt d)) = op_key ` set (tl_log (en_crdt e))"
  shows "tl_session (en_crdt d) = tl_session (en_crdt e)"
  using quiescent_replicas_agree(1) [OF assms(2,4,1,3,5,6)] .

interpretation loopback_delivering: delivering_inbox loopback_ops lb_inbox
  by unfold_locales (auto simp: loopback_ops_def loopback_try_recv_def)

text \<open>Claim C4. Two engines converge, whatever they did before: their replicas refine runs of the
  same discipline and their buffers are stuck, their inboxes hold valid operations, from
  whichever peers, in any orders and with any duplicates, and what each has logged or is about
  to receive is the same set of operations. Then any number of ticks that is enough for the
  tick's bound returns from every one, has handled the whole inbox, and both engines hold the
  same session.\<close>

theorem engines_converge:
  assumes "valid_ops X" and "engine_ready X (map snd xs) d" and "engine_ready X (map snd ys) e"
    and "lb_inbox (en_transport d) = inbox_of xs" and "lb_inbox (en_transport e) = inbox_of ys"
    and "operations_known (map snd xs) d = operations_known (map snd ys) e"
    and "length xs \<le> length nows * ec_max_messages_per_tick (en_config d)"
    and "length ys \<le> length nows' * ec_max_messages_per_tick (en_config e)"
  shows "\<exists>d' e'. process_ticks loopback_ops nows d = Some (length xs, d') \<and>
    process_ticks loopback_ops nows' e = Some (length ys, e') \<and>
    tl_session (en_crdt d') = tl_session (en_crdt e')"
proof -
  obtain es fs where d: "replica_ok X es (en_crdt d)" "quiescent (en_crdt d)" "ops_in X (set (map snd xs))"
    "all_validated (map snd xs)" and e: "replica_ok X fs (en_crdt e)" "quiescent (en_crdt e)"
    "ops_in X (set (map snd ys))" "all_validated (map snd ys)"
    using assms(2,3) by (auto simp: engine_ready_def)
  from loopback_delivering.engine_receives [OF assms(1) d(1,2) assms(4) d(3,4) assms(7)] obtain d' es' where
    d': "process_ticks loopback_ops nows d = Some (length xs, d')" "replica_ok X es' (en_crdt d')" "quiescent (en_crdt d')"
      "op_key ` set (tl_log (en_crdt d')) = operations_known (map snd xs) d"
    unfolding operations_known_def image_Un by blast
  from loopback_delivering.engine_receives [OF assms(1) e(1,2) assms(5) e(3,4) assms(8)] obtain e' fs' where
    e': "process_ticks loopback_ops nows' e = Some (length ys, e')" "replica_ok X fs' (en_crdt e')" "quiescent (en_crdt e')"
      "op_key ` set (tl_log (en_crdt e')) = operations_known (map snd ys) e"
    unfolding operations_known_def image_Un by blast
  have "tl_session (en_crdt d') = tl_session (en_crdt e')"
    using received_sessions_agree [OF assms(1) d'(2,3) e'(2,3)] d'(4) e'(4) assms(6) by simp
  with d'(1) e'(1) show ?thesis by blast
qed

definition example_inbox :: "(peer_id \<times> tagged_operation) list" where
  "example_inbox = map (\<lambda>x. (op_peer x, x)) example_ops"

definition example_loopback :: "peer_id \<Rightarrow> (peer_id \<times> sync_message) list \<Rightarrow> loopback" where
  "example_loopback p ms = (loopback_new p 2 [PeerId 1, PeerId 2])\<lparr>lb_inbox := ms\<rparr>"

lemma example_inbox_ops: "map snd example_inbox = example_ops"
  by (simp add: example_inbox_def comp_def)

lemma example_ops_validated: "all_validated example_ops"
  unfolding all_validated_def by code_simp

lemma fresh_engine_ready:
  assumes "deliverable xs" and "all_validated xs" and "set ys = set xs"
  shows "engine_ready (op_key ` set xs) ys (engine_with_config (timeline_new p) t config)"
    "operations_known ys (engine_with_config (timeline_new p) t config) = op_key ` set xs"
  using assms
  by (auto simp: engine_ready_def operations_known_def engine_with_config_def deliverable_def ops_in_def
      all_validated_def timeline_new_def intro!: exI [of _ "[]"])
    (simp_all add: replica_ok_def replica_core_def quiescent_def)

text \<open>The first engine handles one message per tick, the second eight.\<close>

theorem engines_converge_witness:
  "\<exists>d e. process_ticks loopback_ops [7, 8, 9, 10, 11] (engine_with_config (timeline_new (PeerId 8))
      (example_loopback (PeerId 8) (inbox_of example_inbox))
      (engine_config_default\<lparr>ec_max_messages_per_tick := 1\<rparr>)) = Some (4, d) \<and>
    process_ticks loopback_ops [9] (engine_with_config (timeline_new (PeerId 9))
      (example_loopback (PeerId 9) (inbox_of (rev example_inbox @ example_inbox))) engine_config_default) =
      Some (8, e) \<and>
    tl_session (en_crdt d) = tl_session (en_crdt e)"
proof -
  let ?d = "engine_with_config (timeline_new (PeerId 8))
      (example_loopback (PeerId 8) (inbox_of example_inbox)) (engine_config_default\<lparr>ec_max_messages_per_tick := 1\<rparr>)"
  let ?e = "engine_with_config (timeline_new (PeerId 9))
      (example_loopback (PeerId 9) (inbox_of (rev example_inbox @ example_inbox))) engine_config_default"
  have n: "length example_inbox = 4" by (simp add: example_inbox_def example_ops_def)
  have snd: "map snd example_inbox = example_ops" "map snd (rev example_inbox @ example_inbox) = rev example_ops @ example_ops"
    by (simp_all add: example_inbox_ops rev_map [symmetric])
  note ready = fresh_engine_ready [OF example_ops_deliverable example_ops_validated]
  have X: "valid_ops (op_key ` set example_ops)" using example_ops_deliverable by (simp add: deliverable_def)
  have d: "engine_ready (op_key ` set example_ops) (map snd example_inbox) ?d"
    "operations_known (map snd example_inbox) ?d = op_key ` set example_ops"
    unfolding snd by (simp_all only: ready)
  have e: "engine_ready (op_key ` set example_ops) (map snd (rev example_inbox @ example_inbox)) ?e"
    "operations_known (map snd (rev example_inbox @ example_inbox)) ?e = op_key ` set example_ops"
    unfolding snd by (intro ready; simp)+
  have inboxes: "lb_inbox (en_transport ?d) = inbox_of example_inbox"
    "lb_inbox (en_transport ?e) = inbox_of (rev example_inbox @ example_inbox)"
    by (simp_all add: engine_with_config_def example_loopback_def)
  have bounds: "length example_inbox \<le> length [7, 8, 9, 10, 11 :: u64] * ec_max_messages_per_tick (en_config ?d)"
    "length (rev example_inbox @ example_inbox) \<le> length [9 :: u64] * ec_max_messages_per_tick (en_config ?e)"
    by (simp_all add: n engine_with_config_def engine_config_default_def)
  from engines_converge [OF X d(1) e(1) inboxes _ bounds] d(2) e(2) n show ?thesis by simp
qed

section \<open>A tick returns\<close>

text \<open>Claim C7. A poll always returns: whatever mixture of messages waits in the inbox
  (operations, batches, snapshots, acks, anything else), if their operations keep the
  discipline of \<open>Session_Laws\<close>, one tick comes back having handled at most
  \<open>max_messages_per_tick\<close> of them, and the replica still refines a run of its operations.\<close>

theorem tick_returns:
  assumes "valid_ops X" and "replica_ok X es (en_crdt e)"
    and "\<forall>(p, m) \<in> set (lb_inbox (en_transport e)). ops_in X (message_ops m)"
  shows "\<exists>n d fs. process_messages loopback_ops now e = Some (n, d) \<and>
    n \<le> ec_max_messages_per_tick (en_config e) \<and> replica_ok X fs (en_crdt d)"
  using loopback.process_messages_ok [OF assms, of now] by blast

text \<open>A batch and a snapshot of the same operations, then a request and an ack.\<close>

definition example_messages :: "(peer_id \<times> sync_message) list" where
  "example_messages =
     [(PeerId 1, MsgBatch (rev example_ops)), (PeerId 2, MsgSnapshot \<lparr>snap_ops = example_ops\<rparr>),
      (PeerId 2, MsgRequestSnapshot), (PeerId 1, MsgAck (OperationId 1 (PeerId 1)))]"

theorem tick_returns_witness:
  "\<exists>n d fs. process_messages loopback_ops 7
      (engine_new (timeline_new (PeerId 8)) (example_loopback (PeerId 8) example_messages)) = Some (n, d) \<and>
    n \<le> 4096 \<and> replica_ok (op_key ` set example_ops) fs (en_crdt d)"
proof -
  have ops: "valid_ops (op_key ` set example_ops)" "\<forall>x \<in> set example_ops. well_formed_op x"
    using example_ops_deliverable by (simp_all add: deliverable_def)
  show ?thesis
    using tick_returns [OF ops(1), of "[]" "engine_new (timeline_new (PeerId 8))
        (example_loopback (PeerId 8) example_messages)" 7] ops(2)
    by (simp add: engine_new_def engine_with_config_def engine_config_default_def
        example_loopback_def example_messages_def ops_in_def)
qed

section \<open>Local edits\<close>

text \<open>How many ends a broadcast reaches, and whether it fails: a send failure, no end at all,
  or an end whose receiver is gone.\<close>

definition ends_reached :: "loopback \<Rightarrow> nat" where
  "ends_reached t = (if lb_fail_sends t then 0 else reached (lb_outbox t))"

definition loopback_down :: "loopback \<Rightarrow> bool" where
  "loopback_down t \<longleftrightarrow> lb_fail_sends t \<or> lb_outbox t = [] \<or> \<not> list_all id (lb_outbox t)"

lemma loopback_broadcast_cases:
  "loopback_down t \<Longrightarrow> \<exists>err. fst (loopback_broadcast m t) = Inl err"
  "\<not> loopback_down t \<Longrightarrow> fst (loopback_broadcast m t) = Inr ()"
  by (auto simp: loopback_broadcast_def loopback_down_def loopback_puts)

lemma loopback_down_broadcast [simp]:
  "loopback_down (snd (loopback_broadcast m t)) = loopback_down t"
  "ends_reached (snd (loopback_broadcast m t)) = ends_reached t"
  "loopback_sent (snd (loopback_broadcast m t)) = loopback_sent t @ replicate (ends_reached t) m"
  by (simp_all add: loopback_broadcast_sent ends_reached_def)
    (simp_all add: loopback_broadcast_def loopback_down_def loopback_puts)

lemma ends_reached_all: "\<not> loopback_down t \<Longrightarrow> ends_reached t = length (lb_outbox t)"
  by (simp add: loopback_down_def ends_reached_def reached_all [THEN iffD2])

lemma dispatch_loopback:
  fixes e :: "loopback engine" and m :: sync_message
  defines "t \<equiv> snd (loopback_broadcast m (en_transport e))"
  shows "loopback_down (en_transport e) \<Longrightarrow> engine_dispatch loopback_ops now m e =
     (if ec_offline_queue (en_config e)
      then e\<lparr>en_transport := t, en_offline := offline_enqueue m (en_offline e)\<rparr> else e\<lparr>en_transport := t\<rparr>)"
    and "\<not> loopback_down (en_transport e) \<Longrightarrow> engine_dispatch loopback_ops now m e =
     track_if_operation m now (e\<lparr>en_transport := t\<rparr>)"
  using loopback_broadcast_cases [of "en_transport e" m]
  by (auto simp: engine_dispatch_def loopback_ops_def t_def case_prod_unfold Let_def)




section \<open>Working offline\<close>

lemma track_if_operation_loopback [simp]:
  "track_if_operation m now (e\<lparr>en_transport := t\<rparr>) = (track_if_operation m now e)\<lparr>en_transport := t\<rparr>"
  by (simp add: track_if_operation_def split: sync_message.split)

lemma flush_messages_loopback:
  "\<not> loopback_down (en_transport e) \<Longrightarrow>
    loopback_sent (en_transport (flush_messages loopback_ops now ms e)) =
      loopback_sent (en_transport e) @ concat (map (replicate (ends_reached (en_transport e))) ms)"
proof (induction ms arbitrary: e)
  case (Cons m ms)
  define t where "t = snd (loopback_broadcast m (en_transport e))"
  have "tp_broadcast loopback_ops m (en_transport e) = (Inr (), t)"
    using loopback_broadcast_cases(2) [OF Cons.prems, of m] by (simp add: t_def loopback_ops_def prod_eq_iff)
  moreover have "\<not> loopback_down t" "ends_reached t = ends_reached (en_transport e)"
    "loopback_sent t = loopback_sent (en_transport e) @ replicate (ends_reached (en_transport e)) m"
    using Cons.prems by (simp_all add: t_def)
  ultimately show ?case using Cons.IH by simp
qed simp

text \<open>What the engine does while every send fails.\<close>

lemma dispatch_down_fold:
  assumes "lb_fail_sends (en_transport e)" "ec_offline_queue (en_config e)"
  shows "fold (engine_dispatch loopback_ops now) ms e =
    e\<lparr>en_offline := fold offline_enqueue ms (en_offline e)\<rparr>"
  using assms
  by (induction ms arbitrary: e)
    (simp_all add: dispatch_loopback loopback_down_def loopback_broadcast_def)

text \<open>Claim C9. Offline first, over a loopback whose ends all receive, with offline queueing on: messages
  dispatched while the sends fail are all
  queued, and when the connection is back and a peer joins, the ends are sent a snapshot and
  then the most recent \<open>offline_capacity\<close> of those messages, in order, and the queue is empty.\<close>

theorem offline_messages_flushed_in_order:
  assumes "lb_outbox t \<noteq> []" "list_all id (lb_outbox t)" "\<not> lb_fail_sends t" and "ec_offline_queue config"
  shows "let e = fold (engine_dispatch loopback_ops now) ms
      (engine_with_config c (set_fail_sends True t) config);
    (res, d) = engine_peer_join loopback_ops now' p
      (e\<lparr>en_transport := set_fail_sends False (en_transport e)\<rparr>)
   in oq_queue (en_offline e) = last_n (max (ec_offline_capacity config) 1) ms \<and> res = Inr () \<and>
     loopback_sent (en_transport d) = loopback_sent t @
       concat (map (replicate (length (lb_outbox t))) (MsgSnapshot (timeline_snapshot_of c) #
         last_n (max (ec_offline_capacity config) 1) ms)) \<and>
     oq_queue (en_offline d) = []"
proof -
  define q where "q = fold offline_enqueue ms (offline_new (ec_offline_capacity config))"
  define snap where "snap = MsgSnapshot (timeline_snapshot_of c)"
  define t' where "t' = snd (loopback_broadcast snap t)"
  let ?off = "engine_with_config c (set_fail_sends True t) config"
  let ?e = "?off\<lparr>en_offline := q, en_transport := t\<rparr>"
  let ?d = "?e\<lparr>en_transport := t', en_offline := q\<lparr>oq_queue := []\<rparr>\<rparr>"
  have e: "fold (engine_dispatch loopback_ops now) ms ?off = ?off\<lparr>en_offline := q\<rparr>"
    using assms(4) by (subst dispatch_down_fold) (simp_all add: q_def engine_with_config_def set_fail_sends_def)
  have t: "set_fail_sends False (set_fail_sends True t) = t" "\<not> loopback_down t"
    using assms(1-3) by (simp_all add: set_fail_sends_def loopback_down_def)
  have q: "oq_queue q = last_n (max (ec_offline_capacity config) 1) ms"
    using offline.items_fold [of "offline_new (ec_offline_capacity config)" ms]
    by (simp add: q_def offline_new_def)
  have "loopback_send_to p snap t = loopback_broadcast snap t"
    using assms(1,3) by (simp add: loopback_send_to_def loopback_broadcast_def)
  also have "\<dots> = (Inr (), t')"
    using loopback_broadcast_cases(2) [OF t(2), of snap] by (simp add: t'_def prod_eq_iff)
  finally have join: "engine_peer_join loopback_ops now' p ?e =
      (Inr (), flush_messages loopback_ops now' (oq_queue q) ?d)"
    by (simp add: engine_peer_join_def loopback_ops_def snap_def
        flush_offline_queue_def offline_drain_def engine_with_config_def)
  have offline: "en_offline (flush_messages ops n ms d) = en_offline d"
    for ops n ms and d :: "loopback engine"
    by (induction ms arbitrary: d) (auto split: prod.split sum.split)
  have "loopback_sent (en_transport (flush_messages loopback_ops now' (oq_queue q) ?d)) =
      loopback_sent t @ concat (map (replicate (length (lb_outbox t))) (snap # oq_queue q))"
    using t(2) by (subst flush_messages_loopback) (simp_all add: t'_def ends_reached_all)
  moreover have "en_transport ?off = set_fail_sends True t" by (simp add: engine_with_config_def)
  ultimately show ?thesis
    using join by (simp add: e t q snap_def offline Let_def)
qed

text \<open>Three messages are queued at capacity two.\<close>

theorem offline_messages_flushed_in_order_witness:
  "let e = fold (engine_dispatch loopback_ops 0) [MsgRequestSnapshot, MsgAck (OperationId 3 (PeerId 2)), MsgAck (OperationId 4 (PeerId 2))]
      (engine_with_config (timeline_new (PeerId 1))
        (set_fail_sends True (loopback_new (PeerId 1) 1 [PeerId 2]))
        (engine_config_default\<lparr>ec_offline_capacity := 2\<rparr>));
    (res, d) = engine_peer_join loopback_ops 9 (PeerId 2)
      (e\<lparr>en_transport := set_fail_sends False (en_transport e)\<rparr>)
   in loopback_sent (en_transport d) =
     [MsgSnapshot \<lparr>snap_ops = []\<rparr>, MsgAck (OperationId 3 (PeerId 2)), MsgAck (OperationId 4 (PeerId 2))]"
proof -
  define t where "t = loopback_new (PeerId 1) 1 [PeerId 2]"
  define config where "config = engine_config_default\<lparr>ec_offline_capacity := 2\<rparr>"
  have t: "lb_outbox t = [True]" "\<not> lb_fail_sends t" "loopback_sent t = []"
    by (simp_all add: t_def loopback_new_def loopback_sent_def)
  have config: "ec_offline_queue config" "ec_offline_capacity config = 2"
    by (simp_all add: config_def engine_config_default_def)
  have "timeline_snapshot_of (timeline_new (PeerId 1)) = \<lparr>snap_ops = []\<rparr>"
    by (simp add: timeline_snapshot_of_def timeline_new_def)
  then show ?thesis
    using offline_messages_flushed_in_order [of t config 0 "[MsgRequestSnapshot, MsgAck (OperationId 3 (PeerId 2)), MsgAck (OperationId 4 (PeerId 2))]"
        "timeline_new (PeerId 1)" 9 "PeerId 2"] t config
    unfolding t_def [symmetric] config_def [symmetric]
    by (simp add: Let_def case_prod_unfold last_n_def)
qed

section \<open>What the engine loses or lets through\<close>

text \<open>A flush that fails loses its messages: if a peer joins whose snapshot is
  accepted but no broadcast gets through, the queued messages are drained from the offline
  queue, sent to nobody and not tracked for resending.\<close>

theorem failed_flush_loses_queue:
  fixes ops :: "'t transport_ops"
  assumes "\<And>m t. \<exists>err. tp_broadcast ops m t = (Inl err, t)"
  shows "flush_offline_queue ops now e = e\<lparr>en_offline := (en_offline e)\<lparr>oq_queue := []\<rparr>\<rparr>"
proof -
  have "flush_messages ops now ms e = e" for ms and e :: "'t engine"
  proof (induction ms arbitrary: e)
    case (Cons m ms)
    from assms [of m "en_transport e"] obtain err where
      "tp_broadcast ops m (en_transport e) = (Inl err, en_transport e)" by blast
    with Cons show ?case by simp
  qed simp
  then show ?thesis by (simp add: flush_offline_queue_def offline_drain_def)
qed

definition silent_ops :: "loopback transport_ops" where
  "silent_ops = loopback_ops\<lparr>tp_broadcast := \<lambda>m t. (Inl Disconnected, t)\<rparr>"

theorem failed_flush_loses_queue_witness:
  "oq_queue (en_offline (flush_offline_queue silent_ops 0
      (engine_dispatch silent_ops 0 MsgRequestSnapshot
        (engine_new (timeline_new (PeerId 1)) (loopback_new (PeerId 1) 1 []))))) = []"
  by (subst failed_flush_loses_queue) (simp_all add: silent_ops_def)

text \<open>A session name one byte over the limit, which validation refuses.\<close>

definition invalid_op :: tagged_operation where
  "invalid_op = example_op 2 1 (UpdateSessionMetadata \<lparr>
     sm_name = Some (replicate (Suc MAX_STRING_BYTES) CHR ''x''), sm_sample_rate = None,
     sm_tempo_bpm = None, sm_ts_numerator = None, sm_ts_denominator = None\<rparr>)"

text \<open>Validation guards only two of the three ways in: an operation that
  fails \<open>validate\<close> is refused, without an ack or an event, when it arrives as an operation
  message, but the same operation inside a snapshot is logged.\<close>

theorem snapshot_bypasses_validation:
  "\<exists>d. handle_message loopback_ops (PeerId 1) (MsgSnapshot \<lparr>snap_ops = [invalid_op]\<rparr>)
      (engine_new (timeline_new (PeerId 8)) (loopback_new (PeerId 8) 1 [PeerId 1])) = Some d \<and>
    tl_log (en_crdt d) = [invalid_op] \<and>
    handle_message loopback_ops (PeerId 1) (MsgOperation invalid_op) d = Some d"
proof -
  let ?X = "{op_key invalid_op}"
  define e where "e = engine_new (timeline_new (PeerId 8)) (loopback_new (PeerId 8) 1 [PeerId 1])"
  have e: "en_crdt e = timeline_new (PeerId 8)"
    by (simp add: e_def engine_new_def engine_with_config_def)
  have "\<not> within_limits (operation invalid_op)"
    by (simp add: invalid_op_def example_op_def within_limits_def opt_len_ok_def)
  then have invalid: "validate_operation (operation invalid_op) \<noteq> Inr ()"
    by (simp add: validate_operation_accepts)
  have X: "valid_ops ?X" "op_key invalid_op \<in> ?X" "well_formed_op invalid_op"
    by (simp_all add: invalid_op_def example_op_def valid_ops_def ops_compatible_def op_key_def
        op_tag_of_def well_formed_op_def op_tag_initial_def)
  have "op_id invalid_op |\<notin>| tl_seen (timeline_new (PeerId 8))" by (simp add: timeline_new_def)
  from apply_remote_fresh [OF replica_ok_new X this] obtain c where
    "apply_remote invalid_op (timeline_new (PeerId 8)) = Some (Inr (), c)" "tl_log c = [invalid_op]"
    by (auto simp: timeline_new_def)
  then have "\<exists>d. handle_message loopback_ops (PeerId 1) (MsgSnapshot \<lparr>snap_ops = [invalid_op]\<rparr>) e =
      Some d \<and> tl_log (en_crdt d) = [invalid_op]"
    by (auto simp: e merge_snapshot_def push_event_def Let_def)
  moreover have "handle_message loopback_ops (PeerId 1) (MsgOperation invalid_op) d = Some d"
    for d :: "loopback engine"
    using invalid by (auto simp: handle_operation_def split: sum.split)
  ultimately show ?thesis unfolding e_def by blast
qed

end
