(* ===== verification/Server_Limits.thy ===== *)
theory Server_Limits
  imports Prelude "HOL-Library.Multiset"
begin

text \<open>
  Admission control of the servers (\<open>tpt-av-sync-server/src/limits.rs\<close>): the connection
  caps and the Origin allowlist. \<open>try_admit\<close> holds the per-address lock from its checks
  to its increments, so it is one step; dropping a lease decrements the global counter
  before it takes the lock, so it is two. \<open>guard_step\<close> interleaves the steps of any number
  of connections; \<open>live\<close> and \<open>closing\<close> are the addresses of the leases held and of those
  between the two halves of their drop. The lemmas keep the counters equal to what they
  count and both caps.
\<close>

section \<open>Limits and counters\<close>

record server_limits =
  sl_max_connections :: nat
  sl_max_connections_per_ip :: nat
  sl_max_room_members :: nat
  sl_rate_burst :: u32
  sl_rate_refill_per_sec :: u32
  sl_allowed_origins :: "string list"

definition server_limits_default :: server_limits where
  "server_limits_default =
     \<lparr>sl_max_connections = 1024, sl_max_connections_per_ip = 64, sl_max_room_members = 256,
      sl_rate_burst = 512, sl_rate_refill_per_sec = 256, sl_allowed_origins = []\<rparr>"

datatype ip_addr = IpV4 u32 | IpV6 "128 word"

record connection_guard =
  cg_limits :: server_limits
  cg_total :: nat
  cg_per_ip :: "(ip_addr, nat) fmap"

record connection_lease =
  cl_ip :: ip_addr
  cl_closed :: bool

definition guard_new :: "server_limits \<Rightarrow> connection_guard" where
  "guard_new limits = \<lparr>cg_limits = limits, cg_total = 0, cg_per_ip = fmempty\<rparr>"

text \<open>\<open>*per_ip.get(&ip).unwrap_or(&0)\<close>.\<close>

definition ip_count :: "ip_addr \<Rightarrow> connection_guard \<Rightarrow> nat" where
  "ip_count ip g = (case fmlookup (cg_per_ip g) ip of None \<Rightarrow> 0 | Some n \<Rightarrow> n)"

definition try_admit :: "ip_addr \<Rightarrow> connection_guard \<Rightarrow> connection_lease option \<times> connection_guard" where
  "try_admit ip g =
     (if sl_max_connections (cg_limits g) \<le> cg_total g then (None, g)
      else if sl_max_connections_per_ip (cg_limits g) \<le> ip_count ip g then (None, g)
      else (Some \<lparr>cl_ip = ip, cl_closed = False\<rparr>,
            g\<lparr>cg_total := cg_total g + 1, cg_per_ip := fmupd ip (ip_count ip g + 1) (cg_per_ip g)\<rparr>))"

definition guard_live :: "connection_guard \<Rightarrow> nat" where
  "guard_live g = cg_total g"

text \<open>The two halves of \<open>Drop\<close>: \<open>total.fetch_sub(1)\<close>, then the decrement under the lock.\<close>

definition release_total :: "connection_guard \<Rightarrow> connection_guard" where
  "release_total g = g\<lparr>cg_total := cg_total g - 1\<rparr>"

definition release_ip :: "ip_addr \<Rightarrow> connection_guard \<Rightarrow> connection_guard" where
  "release_ip ip g =
     (case fmlookup (cg_per_ip g) ip of
        None \<Rightarrow> g
      | Some n \<Rightarrow>
          if n - 1 = 0 then g\<lparr>cg_per_ip := fmdrop ip (cg_per_ip g)\<rparr>
          else g\<lparr>cg_per_ip := fmupd ip (n - 1) (cg_per_ip g)\<rparr>)"

definition lease_drop :: "connection_lease \<Rightarrow> connection_guard \<Rightarrow> connection_lease \<times> connection_guard" where
  "lease_drop l g =
     (if cl_closed l then (l, g)
      else (l\<lparr>cl_closed := True\<rparr>, release_ip (cl_ip l) (release_total g)))"

definition origin_allowed :: "string option \<Rightarrow> string list \<Rightarrow> bool" where
  "origin_allowed origin allowed =
     (if allowed = [] then True
      else (case origin of Some h \<Rightarrow> h \<in> set allowed | None \<Rightarrow> False))"

section \<open>Interleavings\<close>

record guard_state =
  gs_guard :: connection_guard
  gs_live :: "ip_addr multiset"
  gs_closing :: "ip_addr multiset"

inductive guard_step :: "guard_state \<Rightarrow> guard_state \<Rightarrow> bool" where
  admit: "try_admit ip (gs_guard s) = (Some l, g) \<Longrightarrow>
    guard_step s (s\<lparr>gs_guard := g, gs_live := add_mset (cl_ip l) (gs_live s)\<rparr>)"
| refuse: "try_admit ip (gs_guard s) = (None, g) \<Longrightarrow> guard_step s (s\<lparr>gs_guard := g\<rparr>)"
| drop_begin: "ip \<in># gs_live s \<Longrightarrow>
    guard_step s (s\<lparr>gs_guard := release_total (gs_guard s), gs_live := gs_live s - {#ip#},
      gs_closing := add_mset ip (gs_closing s)\<rparr>)"
| drop_finish: "ip \<in># gs_closing s \<Longrightarrow>
    guard_step s (s\<lparr>gs_guard := release_ip ip (gs_guard s), gs_closing := gs_closing s - {#ip#}\<rparr>)"

inductive guard_reachable :: "server_limits \<Rightarrow> guard_state \<Rightarrow> bool" for limits where
  start: "guard_reachable limits \<lparr>gs_guard = guard_new limits, gs_live = {#}, gs_closing = {#}\<rparr>"
| step: "guard_reachable limits s \<Longrightarrow> guard_step s t \<Longrightarrow> guard_reachable limits t"

inductive_cases guard_stepE: "guard_step s t"

definition guard_inv :: "server_limits \<Rightarrow> guard_state \<Rightarrow> bool" where
  "guard_inv limits s \<longleftrightarrow> cg_limits (gs_guard s) = limits \<and>
     cg_total (gs_guard s) = size (gs_live s) \<and>
     cg_total (gs_guard s) \<le> sl_max_connections limits \<and>
     (\<forall>ip. ip_count ip (gs_guard s) = count (gs_live s + gs_closing s) ip) \<and>
     (\<forall>ip. count (gs_live s + gs_closing s) ip \<le> sl_max_connections_per_ip limits) \<and>
     (\<forall>ip. fmlookup (cg_per_ip (gs_guard s)) ip \<noteq> Some 0)"

lemma ip_count_release:
  "ip_count ip (release_ip jp g) = (if ip = jp then ip_count ip g - 1 else ip_count ip g)"
  by (auto simp: ip_count_def release_ip_def split: option.split)

lemma release_ip_frame [simp]:
  "cg_limits (release_ip ip g) = cg_limits g" "cg_total (release_ip ip g) = cg_total g"
  "cg_limits (release_total g) = cg_limits g" "ip_count ip (release_total g) = ip_count ip g"
  "cg_per_ip (release_total g) = cg_per_ip g" "cg_total (release_total g) = cg_total g - 1"
  by (simp_all add: release_ip_def release_total_def ip_count_def split: option.split)

lemma release_ip_no_zero:
  "\<forall>ip. fmlookup (cg_per_ip g) ip \<noteq> Some 0 \<Longrightarrow> fmlookup (cg_per_ip (release_ip ip g)) jp \<noteq> Some 0"
  by (auto simp: release_ip_def split: option.split)

lemma try_admit_some:
  assumes "try_admit ip g = (Some l, g')"
  shows "cl_ip l = ip" "cg_limits g' = cg_limits g" "cg_total g' = Suc (cg_total g)"
    "ip_count jp g' = (if jp = ip then Suc (ip_count ip g) else ip_count jp g)"
    "cg_total g < sl_max_connections (cg_limits g)"
    "ip_count ip g < sl_max_connections_per_ip (cg_limits g)"
    "fmlookup (cg_per_ip g') jp = Some 0 \<Longrightarrow> fmlookup (cg_per_ip g) jp = Some 0"
  using assms by (auto simp: try_admit_def ip_count_def [of _ "_\<lparr>cg_total := _\<rparr>"]
      ip_count_def [of jp] split: if_splits)

lemma guard_inv_step:
  assumes "guard_step s t" and "guard_inv limits s"
  shows "guard_inv limits t"
  using assms
proof (induction rule: guard_step.induct)
  case (admit ip s l g)
  note g = try_admit_some [OF admit(1)]
  show ?case
    using admit(2) g(1-3,5,6) g(7) by (auto simp: guard_inv_def g(4) Suc_le_eq)
next
  case (refuse ip s g)
  then have "g = gs_guard s" by (auto simp: try_admit_def split: if_splits)
  with refuse show ?case by (simp add: guard_inv_def)
next
  case (drop_begin ip s)
  then have size: "size (gs_live s) = Suc (size (gs_live s - {#ip#}))"
    by (metis insert_DiffM size_add_mset)
  have "count (gs_live s) ip > 0" using drop_begin by simp
  with drop_begin size show ?case by (auto simp: guard_inv_def)
next
  case (drop_finish ip s)
  then have "count (gs_closing s) ip > 0" by simp
  with drop_finish show ?case
    by (auto simp: guard_inv_def ip_count_release intro: le_trans [OF diff_le_self]
        dest: release_ip_no_zero [of "gs_guard s"])
qed

lemma guard_inv_new: "guard_inv limits \<lparr>gs_guard = guard_new limits, gs_live = {#}, gs_closing = {#}\<rparr>"
  by (simp add: guard_inv_def guard_new_def ip_count_def)

lemma guard_inv_reachable: "guard_reachable limits s \<Longrightarrow> guard_inv limits s"
  by (induction rule: guard_reachable.induct) (simp_all add: guard_inv_step guard_inv_new)

text \<open>Claim C24. The connection caps hold under every interleaving of admissions and
  drops, half-finished drops included: the global counter is the number of live
  connections and within its cap, no address has more live connections than its cap, and
  an address with no connection left occupies no table entry.\<close>

theorem connection_caps_hold:
  assumes "guard_reachable limits s"
  shows "guard_live (gs_guard s) = size (gs_live s) \<and> size (gs_live s) \<le> sl_max_connections limits \<and>
    count (gs_live s) ip \<le> sl_max_connections_per_ip limits \<and>
    (ip \<notin># gs_live s + gs_closing s \<longrightarrow> \<not> contains_key (cg_per_ip (gs_guard s)) ip)"
proof -
  have inv: "guard_inv limits s" by (rule guard_inv_reachable [OF assms])
  then have n: "ip_count ip (gs_guard s) = count (gs_live s + gs_closing s) ip"
    "count (gs_live s + gs_closing s) ip \<le> sl_max_connections_per_ip limits"
    "fmlookup (cg_per_ip (gs_guard s)) ip \<noteq> Some 0" unfolding guard_inv_def by blast+
  have "\<not> contains_key (cg_per_ip (gs_guard s)) ip" if "ip \<notin># gs_live s + gs_closing s"
  proof -
    have "count (gs_live s + gs_closing s) ip = 0" using that by (simp add: not_in_iff)
    with n(1,3) show ?thesis by (auto simp: ip_count_def contains_key_def fmlookup_dom_iff split: option.splits)
  qed
  moreover have "count (gs_live s) ip \<le> sl_max_connections_per_ip limits" using n(2) by simp
  ultimately show ?thesis using inv by (simp add: guard_inv_def guard_live_def)
qed

text \<open>Two connections from one address, the first one closing.\<close>

definition two_admitted :: "connection_lease option \<times> connection_guard" where
  "two_admitted = try_admit (IpV4 7) (snd (try_admit (IpV4 7) (guard_new server_limits_default)))"

theorem connection_caps_hold_witness:
  "guard_live (release_total (snd two_admitted)) = 1 \<and>
    count {#IpV4 7#} (IpV4 7) \<le> sl_max_connections_per_ip server_limits_default"
proof -
  let ?first = "try_admit (IpV4 7) (guard_new server_limits_default)"
  let ?one = "\<lparr>gs_guard = snd ?first, gs_live = {#IpV4 7#}, gs_closing = {#}\<rparr>"
  let ?two = "\<lparr>gs_guard = snd two_admitted, gs_live = {#IpV4 7, IpV4 7#}, gs_closing = {#}\<rparr>"
  let ?three = "\<lparr>gs_guard = release_total (snd two_admitted), gs_live = {#IpV4 7#}, gs_closing = {#IpV4 7#}\<rparr>"
  have first: "?first = (Some \<lparr>cl_ip = IpV4 7, cl_closed = False\<rparr>, snd ?first)"
    and two: "try_admit (IpV4 7) (snd ?first) = (Some \<lparr>cl_ip = IpV4 7, cl_closed = False\<rparr>, snd two_admitted)"
    by (simp_all add: two_admitted_def try_admit_def guard_new_def ip_count_def server_limits_default_def)
  have reach: "guard_reachable server_limits_default ?one"
    by (rule guard_reachable.step [OF guard_reachable.start])
      (use guard_step.admit [where s = "\<lparr>gs_guard = guard_new server_limits_default, gs_live = {#},
        gs_closing = {#}\<rparr>" and ip = "IpV4 7"] first in fastforce)
  have reach: "guard_reachable server_limits_default ?two"
    by (rule guard_reachable.step [OF reach])
      (use guard_step.admit [where s = ?one and ip = "IpV4 7"] two in fastforce)
  have "guard_reachable server_limits_default ?three"
    by (rule guard_reachable.step [OF reach])
      (use guard_step.drop_begin [where s = ?two and ip = "IpV4 7"] in fastforce)
  from connection_caps_hold [OF this, of "IpV4 7"] show ?thesis by simp
qed

text \<open>Dropping a lease twice releases it once.\<close>

lemma lease_drop_twice: "lease_drop (fst (lease_drop l g)) (snd (lease_drop l g)) = lease_drop l g"
  by (simp add: lease_drop_def)

lemma origin_allowed_iff: "origin_allowed h allowed \<longleftrightarrow> allowed = [] \<or> (\<exists>v. h = Some v \<and> v \<in> set allowed)"
  by (cases h) (auto simp: origin_allowed_def)

section \<open>The room cap\<close>

text \<open>\<open>room.members.len()\<close>.\<close>

definition members_len :: "('k, 'v) fmap \<Rightarrow> nat" where
  "members_len m = fcard (fmdom m)"

lemma members_len_empty [simp]: "members_len fmempty = 0"
  by (simp add: members_len_def)

lemma members_len_upd [simp]:
  "members_len (fmupd k v m) = (if contains_key m k then members_len m else Suc (members_len m))"
  by (simp add: members_len_def contains_key_def fcard_finsert_disjoint finsert_absorb del: fcard.rep_eq)

lemma members_len_drop: "members_len (fmdrop k m) \<le> members_len m"
  by (auto simp: members_len_def intro: fcard_mono)

text \<open>
  The contract of the servers that keep rooms: a step never changes the cap and lets a room
  grow at most up to it. \<open>step\<close> is a server's step, \<open>size_of\<close> the number of members of a room.
\<close>

locale capped_rooms =
  fixes step :: "'e \<Rightarrow> 's \<Rightarrow> 's" and size_of :: "string \<Rightarrow> 's \<Rightarrow> nat" and cap :: "'s \<Rightarrow> nat"
  assumes cap_step: "cap (step e s) = cap s"
    and size_step: "size_of room (step e s) \<le> max (size_of room s) (cap s)"
begin

lemma cap_run: "cap (fold step es s) = cap s"
  by (induction es arbitrary: s) (simp_all add: cap_step)

lemma run_capped: "size_of room s \<le> cap s \<Longrightarrow> size_of room (fold step es s) \<le> cap s"
proof (induction es arbitrary: s)
  case (Cons e es)
  have "size_of room (step e s) \<le> cap (step e s)"
    using size_step [of room e s] Cons.prems by (simp add: cap_step)
  from Cons.IH [OF this] show ?case by (simp add: cap_step)
qed simp

end

end
