(* ===== verification/Identity.thy ===== *)
theory Identity
  imports Errors
begin

text \<open>
  Peer identities and room tokens (\<open>tpt-av-sync-utils/src/identity.rs\<close>). Ed25519 and
  SHA-256 are arguments: \<open>ed25519\<close> holds the functions of the signature library the code
  calls, on byte lists, and the predicate \<open>ed25519_correct\<close> states what that library
  documents. The lemmas show that honest proofs verify, that a proof only verifies for
  the id of its key, that the signed and hashed messages are unambiguous, and that a
  proof survives its wire form.
\<close>

section \<open>Bytes\<close>

definition string_bytes :: "string \<Rightarrow> u8 list" where
  "string_bytes s = map (\<lambda>c. of_nat (of_char c)) s"

text \<open>\<open>u64::to_be_bytes\<close> and \<open>u64::from_be_bytes\<close>.\<close>

definition be_bytes64 :: "u64 \<Rightarrow> u8 list" where
  "be_bytes64 w = map (\<lambda>i. ucast (drop_bit (8 * i) w)) [7, 6, 5, 4, 3, 2, 1, 0]"

definition from_be_bytes64 :: "u8 list \<Rightarrow> u64" where
  "from_be_bytes64 bs = foldl (\<lambda>acc b. push_bit 8 acc OR ucast b) 0 bs"

lemma length_be_bytes64 [simp]: "length (be_bytes64 w) = 8"
  by (simp add: be_bytes64_def)

lemma be_bytes64_roundtrip [simp]: "from_be_bytes64 (be_bytes64 w) = w"
proof (rule bit_word_eqI)
  fix n
  assume "n < LENGTH(64)"
  then have "n < 64" by simp
  then consider "n < 8" | "8 \<le> n" "n < 16" | "16 \<le> n" "n < 24" | "24 \<le> n" "n < 32"
    | "32 \<le> n" "n < 40" | "40 \<le> n" "n < 48" | "48 \<le> n" "n < 56" | "56 \<le> n" "n < 64"
    by linarith
  then show "bit (from_be_bytes64 (be_bytes64 w)) n \<longleftrightarrow> bit w n"
    by cases (auto simp: from_be_bytes64_def be_bytes64_def bit_simps)
qed

lemma be_bytes64_inject [simp]: "be_bytes64 a = be_bytes64 b \<longleftrightarrow> a = b"
  by (metis be_bytes64_roundtrip)

lemma string_bytes_inject [simp]: "string_bytes a = string_bytes b \<longleftrightarrow> a = b"
proof
  assume same: "string_bytes a = string_bytes b"
  have "inj (\<lambda>c. of_nat (of_char c) :: u8)"
  proof (rule injI)
    fix x y :: char
    assume "(of_nat (of_char x) :: u8) = of_nat (of_char y)"
    then have "(of_char x :: nat) mod 256 = of_char y mod 256"
      by (simp add: word_of_nat_eq_iff take_bit_eq_mod)
    then show "x = y" by (metis of_char_of char_of_char of_char_eq_iff)
  qed
  with same show "a = b" by (simp add: string_bytes_def inj_map_eq_map)
qed simp

lemma length_string_bytes [simp]: "length (string_bytes s) = length s"
  by (simp add: string_bytes_def)

section \<open>The signature library\<close>

record ed25519 =
  ed_key_ok :: "u8 list \<Rightarrow> bool"
  ed_verify :: "u8 list \<Rightarrow> u8 list \<Rightarrow> u8 list \<Rightarrow> bool"
  ed_public :: "u8 list \<Rightarrow> u8 list"
  ed_sign :: "u8 list \<Rightarrow> u8 list \<Rightarrow> u8 list"

text \<open>
  Documented behaviour: public keys are 32 well-formed bytes, signatures are 64 bytes,
  and a signature verifies under the signer's key.
\<close>

definition ed25519_correct :: "ed25519 \<Rightarrow> bool" where
  "ed25519_correct ed \<longleftrightarrow>
     (\<forall>seed. ed_key_ok ed (ed_public ed seed) \<and> length (ed_public ed seed) = 32) \<and>
     (\<forall>seed m. length (ed_sign ed seed m) = 64 \<and> ed_verify ed (ed_public ed seed) m (ed_sign ed seed m))"

section \<open>Identities and proofs\<close>

datatype identity_error = PeerIdMismatch | BadSignature | Malformed

definition HELLO_CONTEXT :: "u8 list" where
  "HELLO_CONTEXT = string_bytes ''tpt-av-sync/identity/hello/v2''"

definition CHALLENGE_CONTEXT :: "u8 list" where
  "CHALLENGE_CONTEXT = string_bytes ''tpt-av-sync/identity/challenge/v2''"

definition NONCE_LEN :: nat where
  "NONCE_LEN = 32"

definition derive_peer_id :: "(u8 list \<Rightarrow> u8 list) \<Rightarrow> u8 list \<Rightarrow> peer_id" where
  "derive_peer_id sha256 key =
     PeerId (from_be_bytes64 (take 8 (sha256 (string_bytes ''tpt-av-sync/peer-id/v2'' @ key))))"

record peer_identity_proof =
  pr_verifying_key :: "u8 list"
  pr_hello_signature :: "u8 list"

definition hello_message :: "peer_id \<Rightarrow> u8 list" where
  "hello_message p = HELLO_CONTEXT @ be_bytes64 (peer_raw p)"

definition challenge_message :: "u8 list \<Rightarrow> u8 list" where
  "challenge_message nonce = CHALLENGE_CONTEXT @ nonce"

text \<open>\<open>PeerIdentityProof\<close>: its wire blob and \<open>verify\<close>.\<close>

definition proof_serialize :: "peer_identity_proof \<Rightarrow> u8 list" where
  "proof_serialize p = pr_verifying_key p @ pr_hello_signature p"

definition proof_deserialize :: "u8 list \<Rightarrow> peer_identity_proof result" where
  "proof_deserialize blob =
     (if length blob \<noteq> 96 then Inl (sync_error_serialization ''invalid length'')
      else Inr \<lparr>pr_verifying_key = take 32 blob, pr_hello_signature = drop 32 blob\<rparr>)"

definition proof_verify ::
  "ed25519 \<Rightarrow> (u8 list \<Rightarrow> u8 list) \<Rightarrow> peer_identity_proof \<Rightarrow> peer_id \<Rightarrow> identity_error + unit" where
  "proof_verify ed sha256 p claimed =
     (if \<not> ed_key_ok ed (pr_verifying_key p) then Inl Malformed
      else if derive_peer_id sha256 (pr_verifying_key p) \<noteq> claimed then Inl PeerIdMismatch
      else if \<not> ed_verify ed (pr_verifying_key p) (hello_message claimed) (pr_hello_signature p)
        then Inl BadSignature
      else Inr ())"

record peer_identity =
  id_signing :: "u8 list"
  id_peer_id :: peer_id

definition identity_from_seed :: "ed25519 \<Rightarrow> (u8 list \<Rightarrow> u8 list) \<Rightarrow> u8 list \<Rightarrow> peer_identity" where
  "identity_from_seed ed sha256 seed =
     \<lparr>id_signing = seed, id_peer_id = derive_peer_id sha256 (ed_public ed seed)\<rparr>"

definition identity_verifying_key :: "ed25519 \<Rightarrow> peer_identity \<Rightarrow> u8 list" where
  "identity_verifying_key ed i = ed_public ed (id_signing i)"

definition hello_proof :: "ed25519 \<Rightarrow> peer_identity \<Rightarrow> peer_identity_proof" where
  "hello_proof ed i =
     \<lparr>pr_verifying_key = identity_verifying_key ed i,
      pr_hello_signature = ed_sign ed (id_signing i) (hello_message (id_peer_id i))\<rparr>"

definition sign_challenge :: "ed25519 \<Rightarrow> peer_identity \<Rightarrow> u8 list \<Rightarrow> u8 list" where
  "sign_challenge ed i nonce = ed_sign ed (id_signing i) (challenge_message nonce)"

definition verify_challenge_response ::
  "ed25519 \<Rightarrow> peer_identity_proof \<Rightarrow> u8 list \<Rightarrow> u8 list \<Rightarrow> identity_error + unit" where
  "verify_challenge_response ed p nonce signature =
     (if \<not> ed_key_ok ed (pr_verifying_key p) then Inl Malformed
      else if \<not> ed_verify ed (pr_verifying_key p) (challenge_message nonce) signature then Inl BadSignature
      else Inr ())"

section \<open>Room tokens\<close>

definition room_token_message :: "string \<Rightarrow> string \<Rightarrow> u8 list" where
  "room_token_message secret room =
     string_bytes ''tpt-av-sync/room-token/v2'' @ be_bytes64 (of_nat (length secret)) @
     string_bytes secret @ be_bytes64 (of_nat (length room)) @ string_bytes room"

definition room_token_proof :: "(u8 list \<Rightarrow> u8 list) \<Rightarrow> string \<Rightarrow> string \<Rightarrow> u8 list" where
  "room_token_proof sha256 secret room = sha256 (room_token_message secret room)"

section \<open>Correctness\<close>

lemma hello_proof_verifies:
  assumes "ed25519_correct ed"
  shows "proof_verify ed sha256 (hello_proof ed (identity_from_seed ed sha256 seed))
    (id_peer_id (identity_from_seed ed sha256 seed)) = Inr ()"
  using assms
  by (simp add: ed25519_correct_def proof_verify_def hello_proof_def identity_from_seed_def
      identity_verifying_key_def)

lemma challenge_answer_verifies:
  assumes "ed25519_correct ed"
  shows "verify_challenge_response ed (hello_proof ed i) nonce (sign_challenge ed i nonce) = Inr ()"
  using assms
  by (simp add: ed25519_correct_def verify_challenge_response_def hello_proof_def
      identity_verifying_key_def sign_challenge_def)

lemma proof_verify_iff:
  "proof_verify ed sha256 p claimed = Inr () \<longleftrightarrow>
     ed_key_ok ed (pr_verifying_key p) \<and> derive_peer_id sha256 (pr_verifying_key p) = claimed \<and>
     ed_verify ed (pr_verifying_key p) (hello_message claimed) (pr_hello_signature p)"
  by (simp add: proof_verify_def)

lemma hello_not_challenge:
  assumes "length nonce = NONCE_LEN"
  shows "hello_message p \<noteq> challenge_message nonce"
proof
  assume "hello_message p = challenge_message nonce"
  from arg_cong [OF this, of length] assms show False
    by (simp add: hello_message_def challenge_message_def HELLO_CONTEXT_def CHALLENGE_CONTEXT_def NONCE_LEN_def)
qed

lemma room_token_message_inject:
  assumes "length secret < 2 ^ 64" and "length secret' < 2 ^ 64"
    and "room_token_message secret room = room_token_message secret' room'"
  shows "secret = secret' \<and> room = room'"
proof -
  have "be_bytes64 (of_nat (length secret)) = be_bytes64 (of_nat (length secret'))"
    and rest: "string_bytes secret @ be_bytes64 (of_nat (length room)) @ string_bytes room =
      string_bytes secret' @ be_bytes64 (of_nat (length room')) @ string_bytes room'"
    using assms(3) by (simp_all add: room_token_message_def)
  then have "(of_nat (length secret) :: u64) = of_nat (length secret')" by simp
  then have "length secret = length secret'"
    using assms(1,2) by (simp add: word_of_nat_eq_iff take_bit_eq_mod)
  with rest show ?thesis by simp
qed

lemma proof_wire_roundtrip:
  assumes "length (pr_verifying_key p) = 32" and "length (pr_hello_signature p) = 64"
  shows "proof_deserialize (proof_serialize p) = Inr p"
  using assms by (simp add: proof_deserialize_def proof_serialize_def)

end
