(* ===== verification/Persistence.thy ===== *)
theory Persistence
  imports Operation Errors
begin

text \<open>
  The relay's append-only operation logs (\<open>tpt-av-sync-server/src/persistence.rs\<close>): frames,
  rotation and reading back. The codec (\<open>wire::encode\<close> and \<open>wire::decode\<close>, bincode) is an
  argument. The store's directory is a map from file names to their bytes; file system
  calls on it succeed (the code ignores their failures). The lemmas show that a log is read
  back as it was written, that a torn tail costs only the torn frame, how much a rotating
  store keeps, and what an append after a torn tail does.
\<close>

section \<open>Frames\<close>

text \<open>\<open>u32::to_be_bytes\<close> and \<open>from_be_bytes\<close>.\<close>

definition be_bytes :: "u32 \<Rightarrow> u8 list" where
  "be_bytes w = [ucast (drop_bit 24 w), ucast (drop_bit 16 w), ucast (drop_bit 8 w), ucast w]"

fun from_be_bytes :: "u8 list \<Rightarrow> u32" where
  "from_be_bytes [a, b, c, d] =
     push_bit 24 (ucast a) OR push_bit 16 (ucast b) OR push_bit 8 (ucast c) OR ucast d"
| "from_be_bytes _ = 0"

lemma length_be_bytes [simp]: "length (be_bytes w) = 4"
  by (simp add: be_bytes_def)

lemma be_bytes_roundtrip [simp]:
  fixes w :: u32
  shows "from_be_bytes (be_bytes w) = w"
proof (rule bit_word_eqI)
  fix n
  assume "n < LENGTH(32)"
  then have "n < 32" by simp
  then consider "n < 8" | "8 \<le> n" "n < 16" | "16 \<le> n" "n < 24" | "24 \<le> n" "n < 32"
    by linarith
  then show "bit (from_be_bytes (be_bytes w)) n \<longleftrightarrow> bit w n"
    by cases (auto simp: be_bytes_def bit_simps)
qed

text \<open>\<open>(bytes.len() as u32).to_be_bytes()\<close> followed by the bytes.\<close>

definition frame_bytes :: "u8 list \<Rightarrow> u8 list" where
  "frame_bytes bytes = be_bytes (of_nat (length bytes)) @ bytes"

text \<open>
  The loop of \<open>read_frames\<close> and \<open>count_frames\<close>: the payloads of the complete frames, from
  a cursor on, as the rest of the bytes.
\<close>

function frames :: "u8 list \<Rightarrow> u8 list list" where
  "frames bytes =
     (if length bytes < 4 then []
      else let len = unat (from_be_bytes (take 4 bytes)) in
        if length bytes < 4 + len then []
        else take len (drop 4 bytes) # frames (drop (4 + len) bytes))"
  by pat_completeness auto

termination
  by (relation "measure length") auto

declare frames.simps [simp del]

lemma frames_Nil [simp]: "frames [] = []"
  by (simp add: frames.simps)

lemma frames_append:
  assumes "length p < 2 ^ 32"
  shows "frames (frame_bytes p @ rest) = p # frames rest"
proof -
  have "unat (of_nat (length p) :: u32) = length p" using assms by (simp add: unat_of_nat)
  then show ?thesis by (subst frames.simps) (simp add: frame_bytes_def)
qed

lemma frames_concat:
  "\<forall>p \<in> set ps. length p < 2 ^ 32 \<Longrightarrow> frames (concat (map frame_bytes ps) @ rest) = ps @ frames rest"
  by (induction ps) (simp_all add: frames_append)

lemma frames_torn:
  assumes "length p < 2 ^ 32" and "n < length (frame_bytes p)"
  shows "frames (take n (frame_bytes p)) = []"
proof (cases "n < 4")
  case False
  have "unat (of_nat (length p) :: u32) = length p" using assms(1) by (simp add: unat_of_nat)
  with False assms(2) show ?thesis by (subst frames.simps) (simp add: frame_bytes_def)
next
  case True
  then have "length (take n (frame_bytes p)) < 4" by simp
  then show ?thesis by (subst frames.simps) (simp only: if_True)
qed

section \<open>The store\<close>

record store_limits =
  st_max_bytes_per_room :: u64
  st_max_ops_per_room :: u32

definition store_limits_default :: store_limits where
  "store_limits_default = \<lparr>st_max_bytes_per_room = 64 * 1024 * 1024, st_max_ops_per_room = 1000000\<rparr>"

record session_store =
  st_limits :: "store_limits option"
  st_counts :: "(string, u32) fmap"
  st_files :: "(string, u8 list) fmap"

definition store_open_inner :: "store_limits option \<Rightarrow> (string, u8 list) fmap \<Rightarrow> session_store" where
  "store_open_inner limits files = \<lparr>st_limits = limits, st_counts = fmempty, st_files = files\<rparr>"

definition store_open :: "(string, u8 list) fmap \<Rightarrow> session_store" where
  "store_open files = store_open_inner None files"

definition store_open_with_limits :: "(string, u8 list) fmap \<Rightarrow> store_limits \<Rightarrow> session_store" where
  "store_open_with_limits files limits = store_open_inner (Some limits) files"

text \<open>\<open>is_ascii_alphanumeric\<close>, \<open>-\<close> and \<open>_\<close> stay.\<close>

definition stem_char :: "char \<Rightarrow> char" where
  "stem_char c =
     (let n = (of_char c :: nat)
      in if 48 \<le> n \<and> n \<le> 57 \<or> 65 \<le> n \<and> n \<le> 90 \<or> 97 \<le> n \<and> n \<le> 122 \<or> n = 45 \<or> n = 95
         then c else CHR ''_'')"

definition stem_for :: "string \<Rightarrow> string" where
  "stem_for room = map stem_char room"

definition path_for :: "string \<Rightarrow> string" where
  "path_for room = stem_for room @ ''.opslog''"

definition rotated_path_for :: "string \<Rightarrow> string" where
  "rotated_path_for room = stem_for room @ ''.opslog.1''"

definition file_bytes :: "session_store \<Rightarrow> string \<Rightarrow> u8 list" where
  "file_bytes st path = (case fmlookup (st_files st) path of None \<Rightarrow> [] | Some b \<Rightarrow> b)"

definition count_frames :: "session_store \<Rightarrow> string \<Rightarrow> u32 option" where
  "count_frames st path = map_option (\<lambda>b. of_nat (length (frames b))) (fmlookup (st_files st) path)"

definition store_rotate :: "string \<Rightarrow> session_store \<Rightarrow> session_store" where
  "store_rotate room st =
     (let st = st\<lparr>st_files := fmdrop (rotated_path_for room) (st_files st)\<rparr>
      in case fmlookup (st_files st) (path_for room) of
           None \<Rightarrow> st
         | Some b \<Rightarrow> st\<lparr>st_files := fmupd (rotated_path_for room) b
             (fmdrop (path_for room) (st_files st))\<rparr>)"

definition append_file :: "string \<Rightarrow> u8 list \<Rightarrow> session_store \<Rightarrow> session_store" where
  "append_file path bytes st = st\<lparr>st_files := fmupd path (file_bytes st path @ bytes) (st_files st)\<rparr>"

definition store_append_op ::
  "(tagged_operation \<Rightarrow> u8 list result) \<Rightarrow> string \<Rightarrow> tagged_operation \<Rightarrow> session_store \<Rightarrow> session_store" where
  "store_append_op encode room x st =
     (case encode x of
        Inl _ \<Rightarrow> st
      | Inr bytes \<Rightarrow>
          let framed = frame_bytes bytes;
              st = (case st_limits st of
                 None \<Rightarrow> st
               | Some limits \<Rightarrow>
                   let count = (case fmlookup (st_counts st) room of Some n \<Rightarrow> n
                         | None \<Rightarrow> (case count_frames st (path_for room) of Some n \<Rightarrow> n | None \<Rightarrow> 0));
                       current_len = length (file_bytes st (path_for room));
                       full = (st_max_ops_per_room limits \<le> count \<or>
                         unat (st_max_bytes_per_room limits) < current_len + length framed);
                       st = (if full then store_rotate room st else st);
                       count = (if full then 0 else count)
                   in st\<lparr>st_counts := fmupd room (count + 1) (st_counts st)\<rparr>)
          in append_file (path_for room) framed st)"

definition read_frames ::
  "(u8 list \<Rightarrow> tagged_operation result) \<Rightarrow> session_store \<Rightarrow> string \<Rightarrow> tagged_operation list" where
  "read_frames decode st path =
     List.map_filter (\<lambda>p. case decode p of Inr x \<Rightarrow> Some x | Inl _ \<Rightarrow> None) (frames (file_bytes st path))"

definition store_load_ops ::
  "(u8 list \<Rightarrow> tagged_operation result) \<Rightarrow> session_store \<Rightarrow> string \<Rightarrow> tagged_operation list" where
  "store_load_ops decode st room =
     read_frames decode st (rotated_path_for room) @ read_frames decode st (path_for room)"

section \<open>Reading back\<close>

text \<open>The codec reads these operations back and their encodings fit a frame.\<close>

definition codec_ok ::
  "(tagged_operation \<Rightarrow> u8 list result) \<Rightarrow> (u8 list \<Rightarrow> tagged_operation result) \<Rightarrow> tagged_operation list \<Rightarrow> bool" where
  "codec_ok encode decode xs \<longleftrightarrow>
     (\<forall>x \<in> set xs. \<exists>b. encode x = Inr b \<and> length b < 2 ^ 32 \<and> decode b = Inr x)"

definition payload :: "(tagged_operation \<Rightarrow> u8 list result) \<Rightarrow> tagged_operation \<Rightarrow> u8 list" where
  "payload encode x = (case encode x of Inl _ \<Rightarrow> [] | Inr b \<Rightarrow> b)"

definition log_bytes :: "(tagged_operation \<Rightarrow> u8 list result) \<Rightarrow> tagged_operation list \<Rightarrow> u8 list" where
  "log_bytes encode xs = concat (map (\<lambda>x. frame_bytes (payload encode x)) xs)"

lemma log_bytes_simps [simp]:
  "log_bytes encode [] = []"
  "log_bytes encode (xs @ ys) = log_bytes encode xs @ log_bytes encode ys"
  "log_bytes encode (x # xs) = frame_bytes (payload encode x) @ log_bytes encode xs"
  by (simp_all add: log_bytes_def)

lemma codec_ok_Nil [simp]: "codec_ok encode decode []"
  and codec_ok_append: "codec_ok encode decode (xs @ ys) \<longleftrightarrow>
    codec_ok encode decode xs \<and> codec_ok encode decode ys"
  and codec_ok_head: "codec_ok encode decode (x # xs) \<Longrightarrow> codec_ok encode decode [x]"
  and codec_ok_tail: "codec_ok encode decode (x # xs) \<Longrightarrow> codec_ok encode decode xs"
  by (auto simp: codec_ok_def)

lemma codec_okD:
  assumes "codec_ok encode decode [x]"
  shows "encode x = Inr (payload encode x)" "length (payload encode x) < 2 ^ 32"
    "decode (payload encode x) = Inr x"
  using assms by (auto simp: codec_ok_def payload_def)

lemma frames_log:
  "codec_ok encode decode xs \<Longrightarrow> frames (log_bytes encode xs @ rest) = map (payload encode) xs @ frames rest"
proof (induction xs)
  case (Cons x xs)
  note x = codec_ok_head [OF Cons.prems] codec_ok_tail [OF Cons.prems]
  with Cons.IH codec_okD(2) [OF x(1)] show ?case by (simp add: frames_append)
qed simp

lemma decode_log:
  assumes "codec_ok encode decode xs"
  shows "List.map_filter (\<lambda>p. case decode p of Inr x \<Rightarrow> Some x | Inl _ \<Rightarrow> None) (map (payload encode) xs) = xs"
  using assms
proof (induction xs)
  case (Cons x xs)
  note x = codec_ok_head [OF Cons.prems] codec_ok_tail [OF Cons.prems]
  with Cons.IH codec_okD(3) [OF x(1)] show ?case by (simp add: List.map_filter_simps)
qed (simp add: List.map_filter_simps)

lemma read_log:
  assumes "codec_ok encode decode xs" and "file_bytes st path = log_bytes encode xs @ rest" and "frames rest = []"
  shows "read_frames decode st path = xs"
  using frames_log [OF assms(1), of rest] decode_log [OF assms(1)] assms(2,3)
  by (simp add: read_frames_def)

lemma paths_distinct [simp]: "path_for room \<noteq> rotated_path_for room" "rotated_path_for room \<noteq> path_for room"
  by (simp_all add: path_for_def rotated_path_for_def)

lemma file_bytes_append [simp]:
  "file_bytes (append_file path b st) p = (if p = path then file_bytes st p @ b else file_bytes st p)"
  by (simp add: append_file_def file_bytes_def)

lemma file_bytes_counts [simp]: "file_bytes (st\<lparr>st_counts := c\<rparr>) p = file_bytes st p"
  by (simp add: file_bytes_def)

lemma append_file_frame [simp]: "st_limits (append_file path b st) = st_limits st"
  "st_counts (append_file path b st) = st_counts st"
  by (simp_all add: append_file_def)

lemma unbounded_append:
  assumes "codec_ok encode decode xs" and "st_limits st = None"
  shows "file_bytes (fold (store_append_op encode room) xs st) (path_for room) =
      file_bytes st (path_for room) @ log_bytes encode xs \<and>
    file_bytes (fold (store_append_op encode room) xs st) (rotated_path_for room) =
      file_bytes st (rotated_path_for room)"
  using assms
proof (induction xs arbitrary: st)
  case (Cons x xs)
  note x = codec_ok_head [OF Cons.prems(1)] codec_ok_tail [OF Cons.prems(1)]
  let ?st = "append_file (path_for room) (frame_bytes (payload encode x)) st"
  have "store_append_op encode room x st = ?st"
    using codec_okD(1) [OF x(1)] Cons.prems(2) by (simp add: store_append_op_def)
  with Cons.IH [OF x(2), of ?st] Cons.prems(2) show ?case by simp
qed simp

lemma store_loads_log:
  assumes "codec_ok encode decode xs"
    and "\<And>p. file_bytes st p = file_bytes (fold (store_append_op encode room) xs (store_open fmempty)) p"
  shows "store_load_ops decode st room = xs"
proof -
  have files: "file_bytes st (path_for room) = log_bytes encode xs @ []"
    "file_bytes st (rotated_path_for room) = []"
    using unbounded_append [OF assms(1), of "store_open fmempty" room] unfolding assms(2)
    by (simp_all add: store_open_def store_open_inner_def file_bytes_def)
  have "read_frames decode st (rotated_path_for room) = []"
    by (simp add: read_frames_def files(2) List.map_filter_simps)
  then show ?thesis
    by (simp add: store_load_ops_def read_log [OF assms(1) files(1)])
qed

text \<open>Claim C32. An unbounded log is read back exactly: a store that was written any
  sequence of operations for a room, closed and reopened, loads that sequence in order,
  provided the codec reads back what it wrote.\<close>

theorem store_roundtrip:
  assumes "codec_ok encode decode xs"
  shows "store_load_ops decode (store_open (st_files
    (fold (store_append_op encode room) xs (store_open fmempty)))) room = xs"
  by (rule store_loads_log [OF assms]) (simp add: file_bytes_def store_open_def store_open_inner_def)

text \<open>A codec for finitely many values: one byte each, the value's index.\<close>

definition one_byte_encode :: "'a list \<Rightarrow> 'a \<Rightarrow> u8 list result" where
  "one_byte_encode xs x = Inr [of_nat (length (takeWhile (\<lambda>y. y \<noteq> x) xs))]"

definition one_byte_decode :: "'a list \<Rightarrow> u8 list \<Rightarrow> 'a result" where
  "one_byte_decode xs b =
     (case b of [w] \<Rightarrow> if unat w < length xs then Inr (xs ! unat w)
        else Inl (sync_error_serialization ''unknown operation'')
      | _ \<Rightarrow> Inl (sync_error_serialization ''wrong length''))"

definition stored_op :: "u64 \<Rightarrow> tagged_operation" where
  "stored_op l = \<lparr>op_id = OperationId l (PeerId 1), operation = DeleteTrack (TrackId l),
     lamport_ts = l, op_clock = vc_new, op_peer = PeerId 1, timestamp = 0\<rparr>"

definition stored_ops :: "tagged_operation list" where
  "stored_ops = [stored_op 1, stored_op 2, stored_op 3]"

lemma one_byte_codec_ok: "codec_ok (one_byte_encode stored_ops) (one_byte_decode stored_ops) stored_ops"
  by (simp add: codec_ok_def one_byte_encode_def one_byte_decode_def stored_ops_def stored_op_def)

theorem store_roundtrip_witness:
  "store_load_ops (one_byte_decode stored_ops) (store_open (st_files
    (fold (store_append_op (one_byte_encode stored_ops) ''studio'') stored_ops (store_open fmempty))))
    ''studio'' = stored_ops"
  by (rule store_roundtrip [OF one_byte_codec_ok])

section \<open>Torn tails\<close>

lemma frames_prefix:
  assumes "\<forall>p \<in> set ps. length p < 2 ^ 32"
  shows "\<exists>k \<le> length ps. frames (take n (concat (map frame_bytes ps))) = take k ps \<and>
    length (concat (map frame_bytes (take k ps))) \<le> n \<and>
    (k < length ps \<longrightarrow> n < length (concat (map frame_bytes (take (Suc k) ps))))"
  using assms
proof (induction ps arbitrary: n)
  case (Cons p ps)
  show ?case
  proof (cases "n < length (frame_bytes p)")
    case True
    then have "take n (concat (map frame_bytes (p # ps))) = take n (frame_bytes p)" by simp
    with frames_torn [of p n] True Cons.prems show ?thesis by (intro exI [of _ 0]) simp
  next
    case False
    let ?n = "n - length (frame_bytes p)"
    from Cons.IH [of ?n] Cons.prems obtain k where k: "k \<le> length ps"
      "frames (take ?n (concat (map frame_bytes ps))) = take k ps"
      "length (concat (map frame_bytes (take k ps))) \<le> ?n"
      "k < length ps \<longrightarrow> ?n < length (concat (map frame_bytes (take (Suc k) ps)))" by auto
    have "frames (take n (concat (map frame_bytes (p # ps)))) = p # take k ps"
      using False Cons.prems k(2) by (simp add: frames_append)
    then show ?thesis using False k by (intro exI [of _ "Suc k"]) auto
  qed
qed simp

text \<open>Claim C33. A crash in the middle of a write costs only what was not yet written: cut
  the log of any operations at any byte, and exactly the operations whose frames are
  complete are read, in order.\<close>

theorem torn_log_reads_prefix:
  assumes "codec_ok encode decode xs" and "file_bytes st path = take n (log_bytes encode xs)"
  shows "\<exists>k \<le> length xs. read_frames decode st path = take k xs \<and>
    length (log_bytes encode (take k xs)) \<le> n \<and>
    (k < length xs \<longrightarrow> n < length (log_bytes encode (take (Suc k) xs)))"
proof -
  have fits: "\<forall>p \<in> set (map (payload encode) xs). length p < 2 ^ 32"
    using assms(1) by (auto simp: codec_ok_def payload_def)
  have log: "log_bytes encode ys = concat (map frame_bytes (map (payload encode) ys))" for ys
    by (simp add: log_bytes_def comp_def)
  from frames_prefix [OF fits, of n] obtain k where k: "k \<le> length xs"
    "frames (file_bytes st path) = map (payload encode) (take k xs)"
    "length (log_bytes encode (take k xs)) \<le> n"
    "k < length xs \<longrightarrow> n < length (log_bytes encode (take (Suc k) xs))"
    unfolding assms(2) log by (auto simp: take_map)
  have "codec_ok encode decode (take k xs)" using assms(1) by (auto simp: codec_ok_def dest: in_set_takeD)
  from decode_log [OF this] have "read_frames decode st path = take k xs"
    by (simp add: read_frames_def k(2))
  with k show ?thesis by blast
qed

theorem torn_log_reads_prefix_witness:
  "\<exists>k \<le> 3. read_frames (one_byte_decode stored_ops)
    (store_open (fmupd ''a.opslog'' (take 12 (log_bytes (one_byte_encode stored_ops) stored_ops)) fmempty))
    ''a.opslog'' = take k stored_ops"
proof -
  let ?st = "store_open (fmupd ''a.opslog'' (take 12 (log_bytes (one_byte_encode stored_ops) stored_ops)) fmempty)"
  have "file_bytes ?st ''a.opslog'' = take 12 (log_bytes (one_byte_encode stored_ops) stored_ops)"
    by (simp add: file_bytes_def store_open_def store_open_inner_def)
  moreover have "length stored_ops = 3" by (simp add: stored_ops_def)
  ultimately show ?thesis using torn_log_reads_prefix [OF one_byte_codec_ok, of ?st] by metis
qed

section \<open>Rotation\<close>

text \<open>
  A bounded room after appending \<open>xs\<close>: the oldest operations are gone, the rotated
  generation and the current segment hold the rest, each within both limits.
\<close>

definition rotation_inv ::
  "(tagged_operation \<Rightarrow> u8 list result) \<Rightarrow> store_limits \<Rightarrow> string \<Rightarrow> tagged_operation list \<Rightarrow> session_store \<Rightarrow> bool" where
  "rotation_inv encode limits room xs st \<longleftrightarrow> st_limits st = Some limits \<and>
     (\<exists>gone old cur. xs = gone @ old @ cur \<and> (xs \<noteq> [] \<longrightarrow> cur \<noteq> []) \<and>
       file_bytes st (rotated_path_for room) = log_bytes encode old \<and>
       file_bytes st (path_for room) = log_bytes encode cur \<and>
       (case fmlookup (st_counts st) room of
          None \<Rightarrow> fmlookup (st_files st) (path_for room) = None \<and> cur = []
        | Some n \<Rightarrow> unat n = length cur) \<and>
       (\<forall>seg \<in> {old, cur}. length seg \<le> unat (st_max_ops_per_room limits) \<and>
         length (log_bytes encode seg) \<le> unat (st_max_bytes_per_room limits)))"

lemma rotation_invI:
  assumes "st_limits st = Some limits" and "xs = gone @ old @ cur" and "cur \<noteq> []"
    and "file_bytes st (rotated_path_for room) = log_bytes encode old"
    and "file_bytes st (path_for room) = log_bytes encode cur"
    and "fmlookup (st_counts st) room = Some n" and "unat n = length cur"
    and "\<forall>seg \<in> {old, cur}. length seg \<le> unat (st_max_ops_per_room limits) \<and>
      length (log_bytes encode seg) \<le> unat (st_max_bytes_per_room limits)"
  shows "rotation_inv encode limits room xs st"
  unfolding rotation_inv_def using assms
  by (intro conjI exI [of _ gone] exI [of _ old] exI [of _ cur]) simp_all

lemma store_rotate_files:
  "file_bytes (store_rotate room st) (rotated_path_for room) = file_bytes st (path_for room)"
  "file_bytes (store_rotate room st) (path_for room) = []"
  "st_limits (store_rotate room st) = st_limits st" "st_counts (store_rotate room st) = st_counts st"
  by (auto simp: store_rotate_def file_bytes_def Let_def split: option.split)

lemma rotation_inv_append:
  assumes inv: "rotation_inv encode limits room xs st"
    and x: "encode x = Inr (payload encode x)"
    and fits: "length (frame_bytes (payload encode x)) \<le> unat (st_max_bytes_per_room limits)"
    and ops: "0 < st_max_ops_per_room limits"
  shows "rotation_inv encode limits room (xs @ [x]) (store_append_op encode room x st)"
proof -
  obtain gone old cur where xs: "xs = gone @ old @ cur"
    and files: "file_bytes st (rotated_path_for room) = log_bytes encode old"
      "file_bytes st (path_for room) = log_bytes encode cur"
    and counts: "case fmlookup (st_counts st) room of
        None \<Rightarrow> fmlookup (st_files st) (path_for room) = None \<and> cur = []
      | Some n \<Rightarrow> unat n = length cur"
    and segs: "\<forall>seg \<in> {old, cur}. length seg \<le> unat (st_max_ops_per_room limits) \<and>
         length (log_bytes encode seg) \<le> unat (st_max_bytes_per_room limits)"
    and lim: "st_limits st = Some limits"
    using inv by (auto simp: rotation_inv_def)
  define n where "n = (case fmlookup (st_counts st) room of Some n \<Rightarrow> n
    | None \<Rightarrow> (case count_frames st (path_for room) of Some n \<Rightarrow> n | None \<Rightarrow> 0))"
  have n: "unat n = length cur"
    using counts by (auto simp: n_def count_frames_def split: option.splits)
  define full where "full \<longleftrightarrow> st_max_ops_per_room limits \<le> n \<or> unat (st_max_bytes_per_room limits) <
    length (log_bytes encode cur) + length (frame_bytes (payload encode x))"
  define st' where "st' = (if full then store_rotate room st else st)"
  have app: "store_append_op encode room x st = append_file (path_for room) (frame_bytes (payload encode x))
      (st'\<lparr>st_counts := fmupd room ((if full then 0 else n) + 1) (st_counts st')\<rparr>)"
    by (simp add: store_append_op_def x lim full_def st'_def n_def files(2) Let_def)
  show ?thesis
  proof (cases full)
    case True
    then have "file_bytes st' (rotated_path_for room) = log_bytes encode cur"
      "file_bytes st' (path_for room) = []" by (simp_all add: st'_def store_rotate_files files)
    moreover have "1 \<le> unat (st_max_ops_per_room limits)" using ops by (simp add: word_less_nat_alt)
    ultimately show ?thesis unfolding app using True xs segs fits lim
      by (intro rotation_invI [where gone = "gone @ old" and old = cur and cur = "[x]" and n = 1])
        (simp_all add: st'_def store_rotate_files)
  next
    case False
    then have lt: "length cur < unat (st_max_ops_per_room limits)"
      by (simp add: full_def word_less_nat_alt n not_le)
    then have "unat (n + 1) = length cur + 1"
      using n unat_le_max [of "st_max_ops_per_room limits"] by (simp add: unat_word_ariths)
    with lt show ?thesis unfolding app using False xs segs lim files
      by (intro rotation_invI [where gone = gone and old = old and cur = "cur @ [x]" and n = "n + 1"])
        (simp_all add: st'_def full_def)
  qed
qed

text \<open>Claim C34. A bounded store bounds the disk and forgets only the oldest: after any
  sequence of appends to a room (each frame within the byte limit) the log and its one
  rotated generation are each within the byte limit, and what loads is a suffix of what
  was appended that includes the last operation.\<close>

theorem rotation_bounds_disk:
  assumes "codec_ok encode decode xs" and "0 < st_max_ops_per_room limits"
    and "\<forall>x \<in> set xs. length (frame_bytes (payload encode x)) \<le> unat (st_max_bytes_per_room limits)"
  shows "let st = fold (store_append_op encode room) xs (store_open_with_limits fmempty limits)
    in length (file_bytes st (path_for room)) \<le> unat (st_max_bytes_per_room limits) \<and>
      length (file_bytes st (rotated_path_for room)) \<le> unat (st_max_bytes_per_room limits) \<and>
      (\<exists>k. store_load_ops decode st room = drop k xs \<and> (xs \<noteq> [] \<longrightarrow> k < length xs))"
proof -
  have inv: "rotation_inv encode limits room xs
      (fold (store_append_op encode room) xs (store_open_with_limits fmempty limits))"
    using assms(1,3)
  proof (induction xs rule: rev_induct)
    case Nil
    show ?case
      by (simp add: rotation_inv_def store_open_with_limits_def store_open_inner_def file_bytes_def)
  next
    case (snoc x xs)
    then have "codec_ok encode decode [x]" "codec_ok encode decode xs"
      using codec_ok_append [of encode decode xs "[x]"] by blast+
    with snoc codec_okD(1) [of encode decode x] show ?case
      by (simp add: rotation_inv_append [OF _ _ _ assms(2)])
  qed
  let ?st = "fold (store_append_op encode room) xs (store_open_with_limits fmempty limits)"
  from inv obtain gone old cur where xs: "xs = gone @ old @ cur" "xs \<noteq> [] \<longrightarrow> cur \<noteq> []"
    and files: "file_bytes ?st (rotated_path_for room) = log_bytes encode old"
      "file_bytes ?st (path_for room) = log_bytes encode cur"
    and segs: "\<forall>seg \<in> {old, cur}. length (log_bytes encode seg) \<le> unat (st_max_bytes_per_room limits)"
    unfolding rotation_inv_def by blast
  have "codec_ok encode decode old" "codec_ok encode decode cur"
    using assms(1) unfolding xs(1) codec_ok_append by blast+
  then have load: "store_load_ops decode ?st room = old @ cur"
    using read_log [of encode decode old ?st "rotated_path_for room" "[]"]
      read_log [of encode decode cur ?st "path_for room" "[]"] files
    by (simp add: store_load_ops_def)
  have bound: "length (log_bytes encode old) \<le> unat (st_max_bytes_per_room limits)"
    "length (log_bytes encode cur) \<le> unat (st_max_bytes_per_room limits)" using segs by simp_all
  have "old @ cur = drop (length gone) xs" "xs \<noteq> [] \<longrightarrow> length gone < length xs"
    using xs by auto
  with load bound show ?thesis unfolding Let_def files by metis
qed

theorem rotation_bounds_disk_witness:
  "let st = fold (store_append_op (one_byte_encode stored_ops) ''studio'') stored_ops
      (store_open_with_limits fmempty \<lparr>st_max_bytes_per_room = 10, st_max_ops_per_room = 1\<rparr>)
    in \<exists>k < 3. store_load_ops (one_byte_decode stored_ops) st ''studio'' = drop k stored_ops"
proof -
  have "\<forall>x \<in> set stored_ops. length (frame_bytes (payload (one_byte_encode stored_ops) x)) \<le> unat (10 :: u64)"
    by (simp add: payload_def one_byte_encode_def frame_bytes_def)
  moreover have "length stored_ops = 3" "stored_ops \<noteq> []" by (simp_all add: stored_ops_def)
  ultimately show ?thesis
    using rotation_bounds_disk [OF one_byte_codec_ok,
      of "\<lparr>st_max_bytes_per_room = 10, st_max_ops_per_room = 1\<rparr>" "''studio''"]
    by (auto simp: Let_def)
qed

text \<open>After a torn tail nothing more is stored: a restarted server appends after
  the torn bytes, the torn length prefix swallows the new frames, and of three operations
  appended to a log that ends in a bare length prefix none is ever loaded.\<close>

theorem append_after_torn_tail_lost:
  "let torn = store_open (fmupd (path_for ''a'') (take 4 (frame_bytes [7])) fmempty);
       st = fold (store_append_op (\<lambda>_. Inr [7]) ''a'') stored_ops torn
   in store_load_ops (\<lambda>b. if b = [7] then Inr (stored_op 1)
        else Inl (sync_error_serialization ''corrupt'')) st ''a'' = [] \<and>
      length (file_bytes st (path_for ''a'')) = 19"
  unfolding Let_def by (intro conjI; code_simp)

text \<open>Rooms whose names differ only in unsafe characters share their log.\<close>

lemma rooms_share_log:
  "path_for ''a/b'' = path_for ''a_b''"
  "store_load_ops (one_byte_decode stored_ops) (store_append_op (one_byte_encode stored_ops) ''a/b''
     (stored_op 1) (store_open fmempty)) ''a_b'' = [stored_op 1]"
  by code_simp+

end
