(* ===== verification/Tcp.thy ===== *)
theory Tcp
  imports Identity Message Persistence
begin

text \<open>
  The TCP transport (\<open>tpt-av-sync-net/src/tcp.rs\<close>): frames over a byte stream, the
  handshake in both directions and the peer table. A socket's input is the list of what
  its successive \<open>read\<close> calls return: a chunk of bytes, a timeout or another error, and end
  of file when the list is exhausted. The codec and the signature library are arguments.
  The lemmas show that frames survive any chunking of the stream, what a timeout inside a
  frame does, that a dialer only trusts a live key, and that honest peers get connected.
\<close>

section \<open>The byte stream\<close>

datatype stream_event = Chunk "u8 list" | Stalled | Broken

datatype io_error = UnexpectedEof | TimedOut | OtherIo

text \<open>\<open>Read::read_exact\<close>: bytes consumed before an error are lost.\<close>

fun read_exact :: "nat \<Rightarrow> stream_event list \<Rightarrow> (io_error + u8 list) \<times> stream_event list" where
  "read_exact 0 evs = (Inr [], evs)"
| "read_exact (Suc n) [] = (Inl UnexpectedEof, [])"
| "read_exact (Suc n) (Stalled # evs) = (Inl TimedOut, evs)"
| "read_exact (Suc n) (Broken # evs) = (Inl OtherIo, evs)"
| "read_exact (Suc n) (Chunk bs # evs) =
     (if Suc n < length bs then (Inr (take (Suc n) bs), Chunk (drop (Suc n) bs) # evs)
      else (case read_exact (Suc n - length bs) evs of
              (Inr rest, evs') \<Rightarrow> (Inr (bs @ rest), evs')
            | (Inl e, evs') \<Rightarrow> (Inl e, evs')))"

lemma read_exact_pos [simp]:
  assumes "0 < n"
  shows "read_exact n [] = (Inl UnexpectedEof, [])"
    "read_exact n (Stalled # evs) = (Inl TimedOut, evs)"
    "read_exact n (Broken # evs) = (Inl OtherIo, evs)"
    "read_exact n (Chunk bs # evs) =
      (if n < length bs then (Inr (take n bs), Chunk (drop n bs) # evs)
       else (case read_exact (n - length bs) evs of
               (Inr rest, evs') \<Rightarrow> (Inr (bs @ rest), evs')
             | (Inl e, evs') \<Rightarrow> (Inl e, evs')))"
  using assms by (cases n, simp_all)+

section \<open>Frames\<close>

text \<open>\<open>message.rs\<close>: \<open>WireFrame\<close>.\<close>

datatype wire_frame =
    WireHello (wf_peer_id: peer_id) (wf_protocol: u16) (wf_identity: "peer_identity_proof option")
  | WireChallenge "u8 list"
  | WireChallengeResponse "u8 list"
  | WireMessage sync_message
  | WireGoodbye

definition MAX_FRAME_BYTES :: u32 where
  "MAX_FRAME_BYTES = 64 * 1024 * 1024"

definition tcp_frame :: "(wire_frame \<Rightarrow> u8 list result) \<Rightarrow> wire_frame \<Rightarrow> u8 list result" where
  "tcp_frame encode f =
     (case encode f of
        Inl e \<Rightarrow> Inl (sync_error_serialization (show_sync_error e))
      | Inr bytes \<Rightarrow>
          if 2 ^ 32 \<le> length bytes then Inl (sync_error_transport ''frame too large'')
          else Inr (be_bytes (of_nat (length bytes)) @ bytes))"

definition show_io_error :: "io_error \<Rightarrow> string" where
  "show_io_error e = (case e of UnexpectedEof \<Rightarrow> ''failed to fill whole buffer''
     | TimedOut \<Rightarrow> ''timed out'' | OtherIo \<Rightarrow> ''io error'')"

definition tcp_read_frame ::
  "(u8 list \<Rightarrow> wire_frame result) \<Rightarrow> stream_event list \<Rightarrow> wire_frame option result \<times> stream_event list" where
  "tcp_read_frame decode evs =
     (case read_exact 4 evs of
        (Inl UnexpectedEof, evs) \<Rightarrow> (Inr None, evs)
      | (Inl TimedOut, evs) \<Rightarrow> (Inl Timeout, evs)
      | (Inl OtherIo, evs) \<Rightarrow> (Inl (sync_error_transport (show_io_error OtherIo)), evs)
      | (Inr len_buf, evs) \<Rightarrow>
          let len = from_be_bytes len_buf
          in if MAX_FRAME_BYTES < len
             then (Inl (sync_error_transport (''frame of '' @ show_nat (unat len) @ '' bytes exceeds limit'')), evs)
             else (case read_exact (unat len) evs of
                 (Inl e, evs) \<Rightarrow> (Inl (sync_error_transport (show_io_error e)), evs)
               | (Inr buf, evs) \<Rightarrow>
                   (case bounded_decode decode buf (unat MAX_FRAME_BYTES) of
                      Inl e \<Rightarrow> (Inl (sync_error_serialization (show_sync_error e)), evs)
                    | Inr f \<Rightarrow> (Inr (Some f), evs))))"

text \<open>The bytes still to come, and a stream that only delivers bytes.\<close>

definition stream_bytes :: "stream_event list \<Rightarrow> u8 list" where
  "stream_bytes evs = concat (map (\<lambda>ev. case ev of Chunk bs \<Rightarrow> bs | _ \<Rightarrow> []) evs)"

definition smooth :: "stream_event list \<Rightarrow> bool" where
  "smooth evs \<longleftrightarrow> (\<forall>ev \<in> set evs. case ev of Chunk bs \<Rightarrow> True | _ \<Rightarrow> False)"

lemma stream_bytes_simps [simp]:
  "stream_bytes [] = []" "stream_bytes (Chunk bs # evs) = bs @ stream_bytes evs"
  by (simp_all add: stream_bytes_def)

lemma smooth_simps [simp]:
  "smooth []" "smooth (Chunk bs # evs) \<longleftrightarrow> smooth evs" "\<not> smooth (Stalled # evs)" "\<not> smooth (Broken # evs)"
  by (simp_all add: smooth_def)

lemma read_exact_smooth:
  assumes "smooth evs" and "n \<le> length (stream_bytes evs)"
  shows "\<exists>evs'. read_exact n evs = (Inr (take n (stream_bytes evs)), evs') \<and> smooth evs' \<and>
    stream_bytes evs' = drop n (stream_bytes evs)"
  using assms
proof (induction n evs rule: read_exact.induct)
  case (5 n bs evs)
  show ?case
  proof (cases "Suc n < length bs")
    case True
    then show ?thesis using 5 by simp
  next
    case False
    with 5 obtain evs' where "read_exact (Suc n - length bs) evs =
        (Inr (take (Suc n - length bs) (stream_bytes evs)), evs')" "smooth evs'"
      "stream_bytes evs' = drop (Suc n - length bs) (stream_bytes evs)" by fastforce
    with False show ?thesis by simp
  qed
qed simp_all

lemma read_exact_short:
  assumes "smooth evs" and "length (stream_bytes evs) < n"
  shows "read_exact n evs = (Inl UnexpectedEof, [])"
  using assms by (induction n evs rule: read_exact.induct) (auto split: prod.splits)

text \<open>The codec reads back this frame and its encoding is within the frame limit.\<close>

definition wire_codec_ok ::
  "(wire_frame \<Rightarrow> u8 list result) \<Rightarrow> (u8 list \<Rightarrow> wire_frame result) \<Rightarrow> wire_frame \<Rightarrow> bool" where
  "wire_codec_ok encode decode f \<longleftrightarrow>
     (case encode f of Inl e \<Rightarrow> False
      | Inr b \<Rightarrow> length b \<le> unat MAX_FRAME_BYTES \<and> decode b = Inr f)"

lemma tcp_read_frame_smooth:
  assumes codec: "wire_codec_ok encode decode f" and frame: "tcp_frame encode f = Inr b"
    and evs: "smooth evs" "stream_bytes evs = b @ rest"
  shows "\<exists>evs'. tcp_read_frame decode evs = (Inr (Some f), evs') \<and> smooth evs' \<and> stream_bytes evs' = rest"
proof -
  obtain p where p: "encode f = Inr p" "length p \<le> unat MAX_FRAME_BYTES" "decode p = Inr f"
    using codec by (auto simp: wire_codec_ok_def split: sum.splits)
  have max: "unat MAX_FRAME_BYTES = 67108864" by (simp add: MAX_FRAME_BYTES_def)
  have b: "b = be_bytes (of_nat (length p)) @ p"
    using frame p max by (simp add: tcp_frame_def split: if_splits)
  have len: "unat (of_nat (length p) :: u32) = length p" using p(2) max by (simp add: unat_of_nat)
  then have le: "\<not> MAX_FRAME_BYTES < (of_nat (length p) :: u32)" using p(2) by (simp add: word_less_nat_alt)
  obtain e1 where e1: "read_exact 4 evs = (Inr (be_bytes (of_nat (length p))), e1)" "smooth e1"
    "stream_bytes e1 = p @ rest" using read_exact_smooth [OF evs(1), of 4] by (auto simp: evs(2) b)
  obtain e2 where e2: "read_exact (length p) e1 = (Inr p, e2)" "smooth e2" "stream_bytes e2 = rest"
    using read_exact_smooth [OF e1(2), of "length p"] by (auto simp: e1(3))
  show ?thesis using e1(1) e2 le p(2,3) len
    by (simp add: tcp_read_frame_def bounded_decode_def)
qed

section \<open>The transport's state\<close>

text \<open>
  A socket: what its reads will return, what was written to it, and how its coming frame
  writes end: \<open>Some (n, e)\<close> is a write that fails with \<open>e\<close> (the write timeout, a reset) after
  \<open>n\<close> bytes, \<open>None\<close> one that succeeds, as do all beyond the list. The peer table names a
  peer's connection by a number.
\<close>

record tcp_stream =
  ts_in :: "stream_event list"
  ts_out :: "u8 list"
  ts_writes :: "(nat \<times> io_error) option list"

record tcp_inner =
  tcp_local :: peer_id
  tcp_identity :: "peer_identity option"
  tcp_require_remote_identity :: bool
  tcp_peers :: "(peer_id, nat) fmap"
  tcp_inbox :: "(peer_id \<times> sync_message) list"

definition tcp_write_frame ::
  "(wire_frame \<Rightarrow> u8 list result) \<Rightarrow> wire_frame \<Rightarrow> tcp_stream \<Rightarrow> unit result \<times> tcp_stream" where
  "tcp_write_frame encode f s =
     (case tcp_frame encode f of
        Inl e \<Rightarrow> (Inl e, s)
      | Inr b \<Rightarrow>
          (case ts_writes s of
             [] \<Rightarrow> (Inr (), s\<lparr>ts_out := ts_out s @ b\<rparr>)
           | None # ws \<Rightarrow> (Inr (), s\<lparr>ts_out := ts_out s @ b, ts_writes := ws\<rparr>)
           | Some (n, e) # ws \<Rightarrow>
               (Inl (sync_error_transport (show_io_error e)),
                s\<lparr>ts_out := ts_out s @ take n b, ts_writes := ws\<rparr>)))"

text \<open>A socket whose writes all succeed, and one whose next write does.\<close>

definition ts_writable :: "tcp_stream \<Rightarrow> bool" where
  "ts_writable s \<longleftrightarrow> ts_writes s = []"

lemma ts_writable_simps [simp]:
  "ts_writable (s\<lparr>ts_in := evs\<rparr>) = ts_writable s" "ts_writable (s\<lparr>ts_out := b\<rparr>) = ts_writable s"
  "ts_writable \<lparr>ts_in = evs, ts_out = b, ts_writes = []\<rparr>"
  by (simp_all add: ts_writable_def)

definition write_result :: "tcp_stream \<Rightarrow> unit result" where
  "write_result s = (case ts_writes s of Some (n, e) # _ \<Rightarrow> Inl (sync_error_transport (show_io_error e)) | _ \<Rightarrow> Inr ())"

definition tcp_read ::
  "(u8 list \<Rightarrow> wire_frame result) \<Rightarrow> tcp_stream \<Rightarrow> wire_frame option result \<times> tcp_stream" where
  "tcp_read decode s = (case tcp_read_frame decode (ts_in s) of (r, evs) \<Rightarrow> (r, s\<lparr>ts_in := evs\<rparr>))"

definition listen_with_identity :: "peer_id \<Rightarrow> peer_identity option \<Rightarrow> tcp_inner" where
  "listen_with_identity me ident =
     \<lparr>tcp_local = me, tcp_identity = ident, tcp_require_remote_identity = (ident \<noteq> None),
      tcp_peers = fmempty, tcp_inbox = []\<rparr>"

definition tcp_listen :: "peer_id \<Rightarrow> tcp_inner" where
  "tcp_listen me = listen_with_identity me None"

definition listen_authenticated :: "peer_identity \<Rightarrow> tcp_inner" where
  "listen_authenticated ident = listen_with_identity (id_peer_id ident) (Some ident)"

section \<open>The handshake\<close>

definition hello_frame :: "ed25519 \<Rightarrow> tcp_inner \<Rightarrow> wire_frame" where
  "hello_frame ed t =
     WireHello (case tcp_identity t of Some i \<Rightarrow> id_peer_id i | None \<Rightarrow> tcp_local t) PROTOCOL_VERSION
       (map_option (hello_proof ed) (tcp_identity t))"

definition show_identity_error :: "identity_error \<Rightarrow> string" where
  "show_identity_error e = (case e of
       PeerIdMismatch \<Rightarrow> ''peer id does not derive from verifying key''
     | BadSignature \<Rightarrow> ''signature verification failed''
     | Malformed \<Rightarrow> ''malformed key or signature'')"

definition verify_remote_hello ::
  "ed25519 \<Rightarrow> (u8 list \<Rightarrow> u8 list) \<Rightarrow> tcp_inner \<Rightarrow> u16 \<Rightarrow> peer_id \<Rightarrow> peer_identity_proof option \<Rightarrow> peer_id result" where
  "verify_remote_hello ed sha256 t protocol claimed remote =
     (if protocol \<noteq> PROTOCOL_VERSION
      then Inl (sync_error_transport (''protocol mismatch: peer speaks v'' @ show_nat (unat protocol) @
        '', we speak v'' @ show_nat (unat PROTOCOL_VERSION)))
      else (case remote of
          Some p \<Rightarrow> (case proof_verify ed sha256 p claimed of
              Inl BadSignature \<Rightarrow> Inl (sync_error_transport ''peer identity rejected: bad signature'')
            | Inl e \<Rightarrow> Inl (sync_error_transport (''peer identity rejected: '' @ show_identity_error e))
            | Inr _ \<Rightarrow> Inr claimed)
        | None \<Rightarrow> if tcp_require_remote_identity t
            then Inl (sync_error_transport ''peer did not present an identity (authenticated mode)'')
            else Inr claimed))"

definition challenge_and_verify ::
  "ed25519 \<Rightarrow> (wire_frame \<Rightarrow> u8 list result) \<Rightarrow> (u8 list \<Rightarrow> wire_frame result) \<Rightarrow> u8 list \<Rightarrow>
   peer_identity_proof \<Rightarrow> tcp_stream \<Rightarrow> unit result \<times> tcp_stream" where
  "challenge_and_verify ed encode decode nonce remote_proof s =
     (case tcp_write_frame encode (WireChallenge nonce) s of
        (Inl e, s) \<Rightarrow> (Inl e, s)
      | (Inr _, s) \<Rightarrow>
          (case tcp_read decode s of
             (Inl e, s) \<Rightarrow> (Inl e, s)
           | (Inr (Some (WireChallengeResponse signature)), s) \<Rightarrow>
               (case verify_challenge_response ed remote_proof nonce signature of
                  Inl _ \<Rightarrow> (Inl (sync_error_transport ''challenge response rejected''), s)
                | Inr _ \<Rightarrow> (Inr (), s))
           | (Inr _, s) \<Rightarrow> (Inl (sync_error_transport ''expected challenge response during handshake''), s)))"

definition answer_challenge ::
  "ed25519 \<Rightarrow> (wire_frame \<Rightarrow> u8 list result) \<Rightarrow> (u8 list \<Rightarrow> wire_frame result) \<Rightarrow>
   tcp_inner \<Rightarrow> tcp_stream \<Rightarrow> unit result \<times> tcp_stream" where
  "answer_challenge ed encode decode t s =
     (case tcp_read decode s of
        (Inl e, s) \<Rightarrow> (Inl e, s)
      | (Inr (Some (WireChallenge nonce)), s) \<Rightarrow>
          (case tcp_identity t of
             None \<Rightarrow> (Inl (sync_error_transport ''challenged without an identity''), s)
           | Some i \<Rightarrow> tcp_write_frame encode (WireChallengeResponse (sign_challenge ed i nonce)) s)
      | (Inr _, s) \<Rightarrow> (Inl (sync_error_transport ''expected challenge during handshake''), s))"

text \<open>\<open>Inner::register\<close>: the table entry; its reader thread is \<open>tcp_reader\<close> below.\<close>

definition tcp_register :: "peer_id \<Rightarrow> nat \<Rightarrow> tcp_inner \<Rightarrow> tcp_inner" where
  "tcp_register peer c t = t\<lparr>tcp_peers := fmupd peer c (tcp_peers t)\<rparr>"

definition accept_incoming ::
  "ed25519 \<Rightarrow> (u8 list \<Rightarrow> u8 list) \<Rightarrow> (wire_frame \<Rightarrow> u8 list result) \<Rightarrow> (u8 list \<Rightarrow> wire_frame result) \<Rightarrow>
   nat \<Rightarrow> tcp_stream \<Rightarrow> tcp_inner \<Rightarrow> tcp_stream \<times> tcp_inner" where
  "accept_incoming ed sha256 encode decode c s t =
     (case tcp_write_frame encode (hello_frame ed t) s of
        (Inl _, s) \<Rightarrow> (s, t)
      | (Inr _, s) \<Rightarrow>
          (case tcp_read decode s of
             (Inr (Some (WireHello peer protocol remote_identity)), s) \<Rightarrow>
               (case verify_remote_hello ed sha256 t protocol peer remote_identity of
                  Inl _ \<Rightarrow> (s, t)
                | Inr peer \<Rightarrow>
                    if remote_identity = None then (s, tcp_register peer c t)
                    else (case answer_challenge ed encode decode t s of
                        (Inl _, s) \<Rightarrow> (s, t)
                      | (Inr _, s) \<Rightarrow> (s, tcp_register peer c t)))
           | (_, s) \<Rightarrow> (s, t)))"

text \<open>\<open>dial\<close>, from the connected socket on.\<close>

definition tcp_dial ::
  "ed25519 \<Rightarrow> (u8 list \<Rightarrow> u8 list) \<Rightarrow> (wire_frame \<Rightarrow> u8 list result) \<Rightarrow> (u8 list \<Rightarrow> wire_frame result) \<Rightarrow>
   u8 list \<Rightarrow> nat \<Rightarrow> tcp_stream \<Rightarrow> tcp_inner \<Rightarrow> peer_id result \<times> tcp_stream \<times> tcp_inner" where
  "tcp_dial ed sha256 encode decode nonce c s t =
     (case tcp_write_frame encode (hello_frame ed t) s of
        (Inl e, s) \<Rightarrow> (Inl e, s, t)
      | (Inr _, s) \<Rightarrow>
          (case tcp_read decode s of
             (Inl e, s) \<Rightarrow> (Inl e, s, t)
           | (Inr (Some (WireHello peer protocol remote_identity)), s) \<Rightarrow>
               (case verify_remote_hello ed sha256 t protocol peer remote_identity of
                  Inl e \<Rightarrow> (Inl e, s, t)
                | Inr peer \<Rightarrow>
                    (case remote_identity of
                       None \<Rightarrow> (Inr peer, s, tcp_register peer c t)
                     | Some p \<Rightarrow>
                         (case challenge_and_verify ed encode decode nonce p s of
                            (Inl e, s) \<Rightarrow> (Inl e, s, t)
                          | (Inr _, s) \<Rightarrow> (Inr peer, s, tcp_register peer c t))))
           | (Inr _, s) \<Rightarrow> (Inl (sync_error_transport ''expected Hello handshake''), s, t)))"

definition connect_authenticated ::
  "ed25519 \<Rightarrow> (u8 list \<Rightarrow> u8 list) \<Rightarrow> (wire_frame \<Rightarrow> u8 list result) \<Rightarrow> (u8 list \<Rightarrow> wire_frame result) \<Rightarrow>
   u8 list \<Rightarrow> nat \<Rightarrow> peer_identity \<Rightarrow> tcp_stream \<Rightarrow> tcp_inner \<Rightarrow> peer_id result \<times> tcp_stream \<times> tcp_inner" where
  "connect_authenticated ed sha256 encode decode nonce c ident s t =
     tcp_dial ed sha256 encode decode nonce c s
       (t\<lparr>tcp_identity := Some ident, tcp_require_remote_identity := True\<rparr>)"

section \<open>The handshake is sound and completes\<close>

definition tcp_frame_bytes :: "(wire_frame \<Rightarrow> u8 list result) \<Rightarrow> wire_frame \<Rightarrow> u8 list" where
  "tcp_frame_bytes encode f = (case tcp_frame encode f of Inl _ \<Rightarrow> [] | Inr b \<Rightarrow> b)"

lemma tcp_frame_ok:
  assumes "wire_codec_ok encode decode f"
  shows "tcp_frame encode f = Inr (tcp_frame_bytes encode f)"
proof -
  have "unat MAX_FRAME_BYTES < 2 ^ 32" by (simp add: MAX_FRAME_BYTES_def)
  with assms show ?thesis
    by (auto simp: wire_codec_ok_def tcp_frame_bytes_def tcp_frame_def split: sum.splits)
qed

lemma tcp_write_ok:
  assumes "wire_codec_ok encode decode f" and "ts_writable s"
  shows "tcp_write_frame encode f s = (Inr (), s\<lparr>ts_out := ts_out s @ tcp_frame_bytes encode f\<rparr>)"
  using assms by (simp add: tcp_write_frame_def tcp_frame_ok ts_writable_def)

lemma tcp_read_ok:
  assumes "wire_codec_ok encode decode f" and "smooth (ts_in s)"
    and "stream_bytes (ts_in s) = tcp_frame_bytes encode f @ rest"
  obtains evs where "tcp_read decode s = (Inr (Some f), s\<lparr>ts_in := evs\<rparr>)" "smooth evs" "stream_bytes evs = rest"
  using tcp_read_frame_smooth [OF assms(1) tcp_frame_ok [OF assms(1)] assms(2,3)]
  by (auto simp: tcp_read_def)

text \<open>Claim C36. A dialer in authenticated mode only trusts a live key: if it connects, the
  peer id it returns derives from a well-formed key, that key signed the id, and it signed
  the nonce this dial drew; the peer is entered in the table.\<close>

theorem dial_trusts_live_key:
  assumes "connect_authenticated ed sha256 encode decode nonce c ident s t = (Inr peer, s', t')"
  shows "\<exists>p signature. proof_verify ed sha256 p peer = Inr () \<and>
    verify_challenge_response ed p nonce signature = Inr () \<and>
    tcp_peers t' = fmupd peer c (tcp_peers t)"
  using assms
  by (auto simp: connect_authenticated_def tcp_dial_def challenge_and_verify_def verify_remote_hello_def
      tcp_register_def split: prod.splits sum.splits option.splits wire_frame.splits identity_error.splits
      if_splits)

text \<open>The frames of a handshake between a dialer and an acceptor, both authenticated.\<close>

definition dialer_frames :: "ed25519 \<Rightarrow> u8 list \<Rightarrow> peer_identity \<Rightarrow> wire_frame list" where
  "dialer_frames ed nonce ident =
     [WireHello (id_peer_id ident) PROTOCOL_VERSION (Some (hello_proof ed ident)), WireChallenge nonce]"

definition acceptor_frames :: "ed25519 \<Rightarrow> u8 list \<Rightarrow> peer_identity \<Rightarrow> wire_frame list" where
  "acceptor_frames ed nonce ident =
     [WireHello (id_peer_id ident) PROTOCOL_VERSION (Some (hello_proof ed ident)),
      WireChallengeResponse (sign_challenge ed ident nonce)]"

lemma verify_honest_hello:
  assumes "ed25519_correct ed" and "ident = identity_from_seed ed sha256 seed"
  shows "verify_remote_hello ed sha256 t PROTOCOL_VERSION (id_peer_id ident) (Some (hello_proof ed ident)) =
    Inr (id_peer_id ident)"
  using hello_proof_verifies [OF assms(1)] by (simp add: verify_remote_hello_def assms(2))

lemma honest_accept:
  assumes ed: "ed25519_correct ed" and ids: "d = identity_from_seed ed sha256 seed"
    and codec: "\<forall>f \<in> set (dialer_frames ed nonce d) \<union> set (acceptor_frames ed nonce a). wire_codec_ok encode decode f"
    and t: "tcp_identity t = Some a" and s: "ts_writable s" "smooth (ts_in s)"
    and dialer: "stream_bytes (ts_in s) = concat (map (tcp_frame_bytes encode) (dialer_frames ed nonce d)) @ rest"
  shows "\<exists>s'. accept_incoming ed sha256 encode decode c s t = (s', tcp_register (id_peer_id d) c t) \<and>
    ts_out s' = ts_out s @ concat (map (tcp_frame_bytes encode) (acceptor_frames ed nonce a))"
proof -
  obtain hd ch where fd: "dialer_frames ed nonce d = [hd, ch]" and hd: "hd = WireHello (id_peer_id d)
    PROTOCOL_VERSION (Some (hello_proof ed d))" "ch = WireChallenge nonce" by (simp add: dialer_frames_def)
  obtain ha re where fa: "acceptor_frames ed nonce a = [ha, re]" and ha: "ha = hello_frame ed t"
    "re = WireChallengeResponse (sign_challenge ed a nonce)"
    by (simp add: acceptor_frames_def hello_frame_def t)
  have ok: "wire_codec_ok encode decode hd" "wire_codec_ok encode decode ch"
    "wire_codec_ok encode decode ha" "wire_codec_ok encode decode re" using codec by (simp_all add: fd fa)
  let ?s1 = "s\<lparr>ts_out := ts_out s @ tcp_frame_bytes encode ha\<rparr>"
  have s1: "smooth (ts_in ?s1)" "stream_bytes (ts_in ?s1) =
    tcp_frame_bytes encode hd @ tcp_frame_bytes encode ch @ rest" using s dialer by (simp_all add: fd)
  obtain e1 where e1: "tcp_read decode ?s1 = (Inr (Some hd), ?s1\<lparr>ts_in := e1\<rparr>)" "smooth e1"
    "stream_bytes e1 = tcp_frame_bytes encode ch @ rest" by (rule tcp_read_ok [OF ok(1) s1])
  let ?s2 = "?s1\<lparr>ts_in := e1\<rparr>"
  have s2: "smooth (ts_in ?s2)" "stream_bytes (ts_in ?s2) = tcp_frame_bytes encode ch @ rest"
    using e1 by simp_all
  obtain e2 where e2: "tcp_read decode ?s2 = (Inr (Some ch), ?s2\<lparr>ts_in := e2\<rparr>)"
    by (rule tcp_read_ok [OF ok(2) s2])
  have "answer_challenge ed encode decode t ?s2 =
      (Inr (), s\<lparr>ts_out := ts_out s @ tcp_frame_bytes encode ha @ tcp_frame_bytes encode re, ts_in := e2\<rparr>)"
    using tcp_write_ok [OF ok(4), of "?s2\<lparr>ts_in := e2\<rparr>"] s(1) e2
    by (simp add: answer_challenge_def t hd(2) ha(2))
  moreover have "tcp_write_frame encode (hello_frame ed t) s = (Inr (), ?s1)"
    using tcp_write_ok [OF ok(3) s(1)] by (simp add: ha(1))
  ultimately show ?thesis
    using e1(1) verify_honest_hello [OF ed ids, of t]
    by (simp add: accept_incoming_def hd(1) fa)
qed

lemma honest_dial:
  assumes ed: "ed25519_correct ed" and ids: "a = identity_from_seed ed sha256 seed"
    and codec: "\<forall>f \<in> set (dialer_frames ed nonce d) \<union> set (acceptor_frames ed nonce a). wire_codec_ok encode decode f"
    and s: "ts_writable s" "smooth (ts_in s)"
    and acceptor: "stream_bytes (ts_in s) = concat (map (tcp_frame_bytes encode) (acceptor_frames ed nonce a)) @ rest"
  shows "\<exists>s' t'. connect_authenticated ed sha256 encode decode nonce c d s t = (Inr (id_peer_id a), s', t') \<and>
    tcp_peers t' = fmupd (id_peer_id a) c (tcp_peers t) \<and>
    ts_out s' = ts_out s @ concat (map (tcp_frame_bytes encode) (dialer_frames ed nonce d))"
proof -
  let ?t = "t\<lparr>tcp_identity := Some d, tcp_require_remote_identity := True\<rparr>"
  obtain hd ch where fd: "dialer_frames ed nonce d = [hd, ch]" and hd: "hd = hello_frame ed ?t"
    "ch = WireChallenge nonce" by (simp add: dialer_frames_def hello_frame_def)
  obtain ha re where fa: "acceptor_frames ed nonce a = [ha, re]" and ha: "ha = WireHello (id_peer_id a)
    PROTOCOL_VERSION (Some (hello_proof ed a))" "re = WireChallengeResponse (sign_challenge ed a nonce)"
    by (simp add: acceptor_frames_def)
  have ok: "wire_codec_ok encode decode hd" "wire_codec_ok encode decode ch"
    "wire_codec_ok encode decode ha" "wire_codec_ok encode decode re" using codec by (simp_all add: fd fa)
  let ?s1 = "s\<lparr>ts_out := ts_out s @ tcp_frame_bytes encode hd\<rparr>"
  have s1: "smooth (ts_in ?s1)" "stream_bytes (ts_in ?s1) =
    tcp_frame_bytes encode ha @ tcp_frame_bytes encode re @ rest" using s acceptor by (simp_all add: fa)
  obtain e1 where e1: "tcp_read decode ?s1 = (Inr (Some ha), ?s1\<lparr>ts_in := e1\<rparr>)" "smooth e1"
    "stream_bytes e1 = tcp_frame_bytes encode re @ rest" by (rule tcp_read_ok [OF ok(3) s1])
  let ?s2 = "s\<lparr>ts_out := ts_out s @ tcp_frame_bytes encode hd @ tcp_frame_bytes encode ch, ts_in := e1\<rparr>"
  have s2: "smooth (ts_in ?s2)" "stream_bytes (ts_in ?s2) = tcp_frame_bytes encode re @ rest"
    using e1 by simp_all
  obtain e2 where e2: "tcp_read decode ?s2 = (Inr (Some re), ?s2\<lparr>ts_in := e2\<rparr>)"
    by (rule tcp_read_ok [OF ok(4) s2])
  have "tcp_write_frame encode (WireChallenge nonce) (?s1\<lparr>ts_in := e1\<rparr>) = (Inr (), ?s2)"
    using tcp_write_ok [OF ok(2), of "?s1\<lparr>ts_in := e1\<rparr>"] s(1) by (simp add: hd(2))
  then have "challenge_and_verify ed encode decode nonce (hello_proof ed a) (?s1\<lparr>ts_in := e1\<rparr>) =
      (Inr (), ?s2\<lparr>ts_in := e2\<rparr>)"
    using e2 challenge_answer_verifies [OF ed] by (simp add: challenge_and_verify_def ha(2))
  moreover have "tcp_write_frame encode (hello_frame ed ?t) s = (Inr (), ?s1)"
    using tcp_write_ok [OF ok(1) s(1)] by (simp add: hd(1))
  ultimately show ?thesis
    using e1(1) verify_honest_hello [OF ed ids, of ?t]
    by (simp add: connect_authenticated_def tcp_dial_def ha(1) fd tcp_register_def)
qed

text \<open>Claim C35. Honest peers connect: when a dialer and an acceptor, each with an identity
  of its own, read what the other writes during the handshake, in chunks of any size, the
  dialer returns the acceptor's id and each enters the other in its table.\<close>

theorem honest_handshake:
  assumes "ed25519_correct ed" and "d = identity_from_seed ed sha256 seed"
    and "a = identity_from_seed ed sha256 seed'"
    and "\<forall>f \<in> set (dialer_frames ed nonce d) \<union> set (acceptor_frames ed nonce a). wire_codec_ok encode decode f"
    and "ts_writable sd" and "smooth (ts_in sd)" and "ts_writable sa" and "smooth (ts_in sa)"
    and "stream_bytes (ts_in sd) = concat (map (tcp_frame_bytes encode) (acceptor_frames ed nonce a)) @ rest"
    and "stream_bytes (ts_in sa) = concat (map (tcp_frame_bytes encode) (dialer_frames ed nonce d)) @ rest'"
  shows "\<exists>sd' td' sa' ta'.
    connect_authenticated ed sha256 encode decode nonce c d sd td = (Inr (id_peer_id a), sd', td') \<and>
    accept_incoming ed sha256 encode decode k sa (listen_authenticated a) = (sa', ta') \<and>
    fmlookup (tcp_peers td') (id_peer_id a) = Some c \<and> fmlookup (tcp_peers ta') (id_peer_id d) = Some k \<and>
    ts_out sd' = ts_out sd @ concat (map (tcp_frame_bytes encode) (dialer_frames ed nonce d)) \<and>
    ts_out sa' = ts_out sa @ concat (map (tcp_frame_bytes encode) (acceptor_frames ed nonce a))"
proof -
  have t: "tcp_identity (listen_authenticated a) = Some a"
    by (simp add: listen_authenticated_def listen_with_identity_def)
  obtain sa' where accept: "accept_incoming ed sha256 encode decode k sa (listen_authenticated a) =
      (sa', tcp_register (id_peer_id d) k (listen_authenticated a))"
    "ts_out sa' = ts_out sa @ concat (map (tcp_frame_bytes encode) (acceptor_frames ed nonce a))"
    using honest_accept [OF assms(1,2,4) t assms(7,8,10)] by blast
  from honest_dial [OF assms(1,3,4-6,9)] obtain sd' td' where
    "connect_authenticated ed sha256 encode decode nonce c d sd td = (Inr (id_peer_id a), sd', td')"
    "tcp_peers td' = fmupd (id_peer_id a) c (tcp_peers td)"
    "ts_out sd' = ts_out sd @ concat (map (tcp_frame_bytes encode) (dialer_frames ed nonce d))" by blast
  with accept show ?thesis by (simp add: tcp_register_def)
qed

text \<open>A signature library and a codec for examples.\<close>

definition example_ed25519 :: ed25519 where
  "example_ed25519 = \<lparr>ed_key_ok = (\<lambda>k. length k = 32), ed_verify = (\<lambda>k m s. take 32 s = k),
     ed_public = (\<lambda>seed. take 32 (seed @ replicate 32 0)),
     ed_sign = (\<lambda>seed m. take 32 (seed @ replicate 32 0) @ replicate 32 0)\<rparr>"

definition example_hash :: "u8 list \<Rightarrow> u8 list" where
  "example_hash m = replicate 7 0 @ [m ! 22]"

definition example_identity :: "u8 \<Rightarrow> peer_identity" where
  "example_identity b = identity_from_seed example_ed25519 example_hash [b]"

definition example_frames :: "wire_frame list" where
  "example_frames = dialer_frames example_ed25519 [5] (example_identity 1) @
     acceptor_frames example_ed25519 [5] (example_identity 2)"

lemma example_ed25519_correct: "ed25519_correct example_ed25519"
  by (auto simp: ed25519_correct_def example_ed25519_def min_def)

lemma takeWhile_index: "x \<in> set xs \<Longrightarrow>
    length (takeWhile (\<lambda>y. y \<noteq> x) xs) < length xs \<and> xs ! length (takeWhile (\<lambda>y. y \<noteq> x) xs) = x"
  by (metis (mono_tags, lifting) length_takeWhile_le nth_length_takeWhile order_le_less
      takeWhile_eq_all_conv takeWhile_eq_take take_all_iff order_refl)

lemma one_byte_wire_codec:
  assumes "f \<in> set fs" and "length fs < 256"
  shows "wire_codec_ok (one_byte_encode fs) (one_byte_decode fs) f"
proof -
  have "unat MAX_FRAME_BYTES = 67108864" by (simp add: MAX_FRAME_BYTES_def)
  with takeWhile_index [OF assms(1)] assms(2) show ?thesis
    by (simp add: wire_codec_ok_def one_byte_encode_def one_byte_decode_def unat_of_nat)
qed

lemma example_codec:
  "\<forall>f \<in> set (dialer_frames example_ed25519 [5] (example_identity 1)) \<union>
      set (acceptor_frames example_ed25519 [5] (example_identity 2)).
    wire_codec_ok (one_byte_encode example_frames) (one_byte_decode example_frames) f"
  by (intro ballI one_byte_wire_codec) (auto simp: example_frames_def dialer_frames_def acceptor_frames_def)

theorem honest_handshake_witness:
  "\<exists>sd' td' sa' ta'.
    connect_authenticated example_ed25519 example_hash (one_byte_encode example_frames)
      (one_byte_decode example_frames) [5] 0 (example_identity 1)
      \<lparr>ts_in = [Chunk (concat (map (tcp_frame_bytes (one_byte_encode example_frames))
          (acceptor_frames example_ed25519 [5] (example_identity 2))))], ts_out = [], ts_writes = []\<rparr>
      (tcp_listen (PeerId 9)) = (Inr (id_peer_id (example_identity 2)), sd', td') \<and>
    accept_incoming example_ed25519 example_hash (one_byte_encode example_frames)
      (one_byte_decode example_frames) 1
      \<lparr>ts_in = map (\<lambda>b. Chunk [b]) (concat (map (tcp_frame_bytes (one_byte_encode example_frames))
          (dialer_frames example_ed25519 [5] (example_identity 1)))), ts_out = [], ts_writes = []\<rparr>
      (listen_authenticated (example_identity 2)) = (sa', ta') \<and>
    fmlookup (tcp_peers ta') (id_peer_id (example_identity 1)) = Some 1"
proof -
  have chunks: "smooth (map (\<lambda>b. Chunk [b]) bs)" "stream_bytes (map (\<lambda>b. Chunk [b]) bs) = bs" for bs
    by (induction bs) simp_all
  from honest_handshake [OF example_ed25519_correct, of "example_identity 1" example_hash "[1]"
      "example_identity 2" "[2]" "[5]", OF _ _ example_codec, of
      "\<lparr>ts_in = [Chunk (concat (map (tcp_frame_bytes (one_byte_encode example_frames))
          (acceptor_frames example_ed25519 [5] (example_identity 2))))], ts_out = [], ts_writes = []\<rparr>"
      "\<lparr>ts_in = map (\<lambda>b. Chunk [b]) (concat (map (tcp_frame_bytes (one_byte_encode example_frames))
          (dialer_frames example_ed25519 [5] (example_identity 1)))), ts_out = [], ts_writes = []\<rparr>"
      "[]" "[]" 0 "tcp_listen (PeerId 9)" 1]
  show ?thesis by (simp add: chunks example_identity_def) blast
qed

theorem dial_trusts_live_key_witness:
  "\<exists>p signature. proof_verify example_ed25519 example_hash p (id_peer_id (example_identity 2)) = Inr () \<and>
    verify_challenge_response example_ed25519 p [5] signature = Inr ()"
proof -
  let ?s = "\<lparr>ts_in = [Chunk (concat (map (tcp_frame_bytes (one_byte_encode example_frames))
    (acceptor_frames example_ed25519 [5] (example_identity 2))))], ts_out = [], ts_writes = []\<rparr>"
  obtain s' t' where "connect_authenticated example_ed25519 example_hash (one_byte_encode example_frames)
      (one_byte_decode example_frames) [5] 0 (example_identity 1) ?s (tcp_listen (PeerId 9)) =
      (Inr (id_peer_id (example_identity 2)), s', t')"
    using honest_dial [OF example_ed25519_correct example_identity_def example_codec, of ?s "[]" 0 "tcp_listen (PeerId 9)"]
    by auto
  from dial_trusts_live_key [OF this] show ?thesis by blast
qed

text \<open>An acceptor trusts a recorded hello: whoever replays the hello frame of an
  honest peer and then sends any challenge is entered in the acceptor's table as that
  peer; the acceptor asks for no proof of a live key.\<close>

theorem replayed_hello_admits_impostor:
  assumes "ed25519_correct ed" and "victim = identity_from_seed ed sha256 seed"
    and "\<forall>f \<in> set (dialer_frames ed nonce victim) \<union> set (acceptor_frames ed nonce a). wire_codec_ok encode decode f"
  shows "fmlookup (tcp_peers (snd (accept_incoming ed sha256 encode decode k
      \<lparr>ts_in = [Chunk (concat (map (tcp_frame_bytes encode) (dialer_frames ed nonce victim)))],
       ts_out = [], ts_writes = []\<rparr>
      (listen_authenticated a)))) (id_peer_id victim) = Some k"
proof -
  have t: "tcp_identity (listen_authenticated a) = Some a"
    by (simp add: listen_authenticated_def listen_with_identity_def)
  show ?thesis
    using honest_accept [OF assms t, of "\<lparr>ts_in = [Chunk (concat (map (tcp_frame_bytes encode)
      (dialer_frames ed nonce victim)))], ts_out = [], ts_writes = []\<rparr>" "[]" k]
    by (auto simp: tcp_register_def)
qed

theorem replayed_hello_admits_impostor_witness:
  "fmlookup (tcp_peers (snd (accept_incoming example_ed25519 example_hash (one_byte_encode example_frames)
      (one_byte_decode example_frames) 3
      \<lparr>ts_in = [Chunk (concat (map (tcp_frame_bytes (one_byte_encode example_frames))
        (dialer_frames example_ed25519 [5] (example_identity 1))))], ts_out = [], ts_writes = []\<rparr>
      (listen_authenticated (example_identity 2))))) (id_peer_id (example_identity 1)) = Some 3"
  by (rule replayed_hello_admits_impostor [OF example_ed25519_correct _ example_codec])
    (rule example_identity_def)

section \<open>The reader thread\<close>

definition stream_size :: "stream_event list \<Rightarrow> nat" where
  "stream_size evs = sum_list (map (\<lambda>ev. case ev of Chunk bs \<Rightarrow> Suc (length bs) | _ \<Rightarrow> 1) evs)"

lemma stream_size_simps [simp]:
  "stream_size [] = 0" "stream_size (Chunk bs # evs) = Suc (length bs + stream_size evs)"
  "stream_size (Stalled # evs) = Suc (stream_size evs)" "stream_size (Broken # evs) = Suc (stream_size evs)"
  by (simp_all add: stream_size_def)

lemma read_exact_size: "stream_size (snd (read_exact n evs)) \<le> stream_size evs"
  by (induction n evs rule: read_exact.induct) (auto split: prod.splits sum.splits)

lemma read_exact_progress:
  "0 < n \<Longrightarrow> evs \<noteq> [] \<Longrightarrow> stream_size (snd (read_exact n evs)) < stream_size evs"
proof (induction n evs rule: read_exact.induct)
  case (5 n bs evs)
  then show ?case using read_exact_size [of "Suc n - length bs" evs]
    by (auto split: prod.splits sum.splits)
qed simp_all

lemma tcp_read_frame_progress:
  assumes "tcp_read_frame decode evs = (r, evs')" and "evs \<noteq> []"
  shows "stream_size evs' < stream_size evs"
  using read_exact_progress [of 4 evs] read_exact_size assms
  by (auto simp: tcp_read_frame_def Let_def split: prod.splits sum.splits io_error.splits if_splits)
    (metis order_le_less_trans snd_conv)+

lemma tcp_read_frame_end [simp]: "tcp_read_frame decode [] = (Inr None, [])"
  by (simp add: tcp_read_frame_def)

function tcp_reader ::
  "(u8 list \<Rightarrow> wire_frame result) \<Rightarrow> peer_id \<Rightarrow> stream_event list \<Rightarrow> tcp_inner \<Rightarrow> tcp_inner" where
  "tcp_reader decode peer evs t =
     (case tcp_read_frame decode evs of
        (Inr (Some (WireMessage m)), evs) \<Rightarrow> tcp_reader decode peer evs (t\<lparr>tcp_inbox := tcp_inbox t @ [(peer, m)]\<rparr>)
      | (Inr (Some WireGoodbye), evs) \<Rightarrow> t\<lparr>tcp_peers := fmdrop peer (tcp_peers t)\<rparr>
      | (Inr None, evs) \<Rightarrow> t\<lparr>tcp_peers := fmdrop peer (tcp_peers t)\<rparr>
      | (Inr (Some _), evs) \<Rightarrow> tcp_reader decode peer evs t
      | (Inl Timeout, evs) \<Rightarrow> tcp_reader decode peer evs t
      | (Inl _, evs) \<Rightarrow> t\<lparr>tcp_peers := fmdrop peer (tcp_peers t)\<rparr>)"
  by pat_completeness auto

termination
proof (relation "measure (\<lambda>(decode, peer, evs, t). stream_size evs)", goal_cases)
  case 1
  show ?case by simp
qed (metis (mono_tags, lifting) case_prod_conv in_measure tcp_read_frame_progress tcp_read_frame_end
    prod.inject sum.inject(2) sum.distinct(1) option.distinct(1))+

declare tcp_reader.simps [simp del]

lemma tcp_reader_idle: "tcp_reader decode peer (Stalled # evs) t = tcp_reader decode peer evs t"
  by (subst tcp_reader.simps) (simp add: tcp_read_frame_def)

lemma tcp_read_frame_torn:
  assumes codec: "wire_codec_ok encode decode f" and evs: "smooth evs"
    and torn: "stream_bytes evs = take n (tcp_frame_bytes encode f)" "n < length (tcp_frame_bytes encode f)"
  shows "fst (tcp_read_frame decode evs) = Inr None \<or> (\<exists>m. fst (tcp_read_frame decode evs) = Inl (Transport m))"
proof -
  obtain p where p: "encode f = Inr p" "length p \<le> unat MAX_FRAME_BYTES"
    using codec by (auto simp: wire_codec_ok_def split: sum.splits)
  have max: "unat MAX_FRAME_BYTES = 67108864" by (simp add: MAX_FRAME_BYTES_def)
  have b: "tcp_frame_bytes encode f = be_bytes (of_nat (length p)) @ p"
    using p max by (simp add: tcp_frame_bytes_def tcp_frame_def)
  have len: "unat (of_nat (length p) :: u32) = length p" using p(2) max by (simp add: unat_of_nat)
  then have le: "\<not> MAX_FRAME_BYTES < (of_nat (length p) :: u32)" using p(2) by (simp add: word_less_nat_alt)
  show ?thesis
  proof (cases "n < 4")
    case True
    then have "read_exact 4 evs = (Inl UnexpectedEof, [])"
      using torn by (intro read_exact_short [OF evs]) simp
    then show ?thesis by (simp add: tcp_read_frame_def)
  next
    case False
    then have bytes: "stream_bytes evs = be_bytes (of_nat (length p)) @ take (n - 4) p"
      by (simp add: torn(1) b)
    obtain e1 where e1: "read_exact 4 evs = (Inr (be_bytes (of_nat (length p))), e1)" "smooth e1"
      "stream_bytes e1 = take (n - 4) p" using read_exact_smooth [OF evs, of 4] by (auto simp: bytes)
    have "read_exact (length p) e1 = (Inl UnexpectedEof, [])"
      using torn(2) False by (intro read_exact_short [OF e1(2)]) (simp add: e1(3) b)
    with e1(1) le len show ?thesis by (simp add: tcp_read_frame_def sync_error_transport_def)
  qed
qed

lemma reader_delivers_stream:
  assumes "\<forall>m \<in> set ms. wire_codec_ok encode decode (WireMessage m)" and "smooth evs"
    and "wire_codec_ok encode decode f" and "n < length (tcp_frame_bytes encode f)"
    and "stream_bytes evs = concat (map (tcp_frame_bytes encode \<circ> WireMessage) ms) @ take n (tcp_frame_bytes encode f)"
  shows "tcp_reader decode peer evs t =
    t\<lparr>tcp_inbox := tcp_inbox t @ map (Pair peer) ms, tcp_peers := fmdrop peer (tcp_peers t)\<rparr>"
  using assms
proof (induction ms arbitrary: evs t)
  case Nil
  have "fst (tcp_read_frame decode evs) = Inr None \<or> (\<exists>m. fst (tcp_read_frame decode evs) = Inl (Transport m))"
    using Nil by (intro tcp_read_frame_torn [where n = n]) simp_all
  then show ?case by (subst tcp_reader.simps) (auto split: prod.split)
next
  case (Cons m ms)
  have ok: "wire_codec_ok encode decode (WireMessage m)" using Cons.prems(1) by simp
  obtain evs' where evs': "tcp_read_frame decode evs = (Inr (Some (WireMessage m)), evs')" "smooth evs'"
    "stream_bytes evs' = concat (map (tcp_frame_bytes encode \<circ> WireMessage) ms) @ take n (tcp_frame_bytes encode f)"
    using tcp_read_frame_smooth [OF ok tcp_frame_ok [OF ok] Cons.prems(2), of
      "concat (map (tcp_frame_bytes encode \<circ> WireMessage) ms) @ take n (tcp_frame_bytes encode f)"]
      Cons.prems(5) by (auto simp: comp_def)
  have "tcp_reader decode peer evs t =
      tcp_reader decode peer evs' (t\<lparr>tcp_inbox := tcp_inbox t @ [(peer, m)]\<rparr>)"
    by (subst tcp_reader.simps) (simp add: evs'(1))
  also have "\<dots> = t\<lparr>tcp_inbox := tcp_inbox t @ map (Pair peer) (m # ms), tcp_peers := fmdrop peer (tcp_peers t)\<rparr>"
    using Cons.prems(1) by (subst Cons.IH [OF _ evs'(2) Cons.prems(3,4) evs'(3)]) simp_all
  finally show ?case .
qed

text \<open>Claim C37. A connection delivers what was written to it: however the stream is cut into
  chunks, the reader puts every message of a sequence of frames into the inbox, in order
  and once each, drops a torn last frame, and then removes the peer from the table.\<close>

theorem reader_delivers:
  assumes "\<forall>m \<in> set ms. wire_codec_ok encode decode (WireMessage m)" and "smooth evs"
    and "wire_codec_ok encode decode f" and "n < length (tcp_frame_bytes encode f)"
    and "stream_bytes evs = concat (map (tcp_frame_bytes encode \<circ> WireMessage) ms) @ take n (tcp_frame_bytes encode f)"
  shows "tcp_reader decode peer evs t =
    t\<lparr>tcp_inbox := tcp_inbox t @ map (Pair peer) ms, tcp_peers := fmdrop peer (tcp_peers t)\<rparr>"
  by (rule reader_delivers_stream [OF assms])

lemma request_frame:
  "tcp_frame_bytes (one_byte_encode [WireMessage MsgRequestSnapshot]) (WireMessage MsgRequestSnapshot) =
    [0, 0, 0, 1, 0]"
  by (simp add: tcp_frame_bytes_def tcp_frame_def one_byte_encode_def be_bytes_def)

theorem reader_delivers_witness:
  "tcp_inbox (tcp_reader (one_byte_decode [WireMessage MsgRequestSnapshot]) (PeerId 3)
     [Chunk [0], Chunk [0, 0], Chunk [1, 0, 0], Chunk [0, 0]] (tcp_listen (PeerId 9))) =
   [(PeerId 3, MsgRequestSnapshot)]"
proof -
  let ?fs = "[WireMessage MsgRequestSnapshot]"
  have ok: "wire_codec_ok (one_byte_encode ?fs) (one_byte_decode ?fs) (WireMessage MsgRequestSnapshot)"
    by (rule one_byte_wire_codec) simp_all
  show ?thesis
    using ok by (subst reader_delivers [of "[MsgRequestSnapshot]" "one_byte_encode ?fs" "one_byte_decode ?fs"
        _ "WireMessage MsgRequestSnapshot" 3])
      (simp_all add: tcp_listen_def listen_with_identity_def request_frame)
qed

text \<open>A read timeout inside a length prefix loses the stream: the bytes read
  before the timeout are dropped, the reader goes on in the middle of a frame, and of the
  two messages that were written none is delivered. A timeout between frames is harmless.\<close>

theorem stall_in_prefix_loses_messages:
  "let frame = tcp_frame_bytes (one_byte_encode [WireMessage MsgRequestSnapshot]) (WireMessage MsgRequestSnapshot);
       stream = frame @ frame;
       reader = (\<lambda>evs. tcp_inbox (tcp_reader (one_byte_decode [WireMessage MsgRequestSnapshot]) (PeerId 3) evs
         (tcp_listen (PeerId 9))))
   in reader [Chunk (take 2 stream), Stalled, Chunk (drop 2 stream)] = [] \<and>
      reader [Chunk (take 5 stream), Stalled, Chunk (drop 5 stream)] =
        [(PeerId 3, MsgRequestSnapshot), (PeerId 3, MsgRequestSnapshot)]"
proof -
  let ?d = "one_byte_decode [WireMessage MsgRequestSnapshot]"
  let ?t = "tcp_listen (PeerId 9)"
  have t: "tcp_inbox ?t = []" by (simp add: tcp_listen_def listen_with_identity_def)
  have frame1: "tcp_read_frame ?d (Chunk ([0, 0, 0, 1, 0] @ bs) # evs) =
      (Inr (Some (WireMessage MsgRequestSnapshot)), (if bs = [] then evs else Chunk bs # evs))" for bs evs
    by (cases bs) (simp_all add: tcp_read_frame_def MAX_FRAME_BYTES_def bounded_decode_def
        one_byte_decode_def)
  have "tcp_reader ?d (PeerId 3) [Chunk [0, 0], Stalled, Chunk [0, 1, 0, 0, 0, 0, 1, 0]] ?t =
      ?t\<lparr>tcp_peers := fmdrop (PeerId 3) (tcp_peers ?t)\<rparr>"
    by (subst tcp_reader.simps, simp add: tcp_read_frame_def)
      (subst tcp_reader.simps, simp add: tcp_read_frame_def MAX_FRAME_BYTES_def sync_error_transport_def)
  moreover have "tcp_reader ?d (PeerId 3) [Chunk [0, 0, 0, 1, 0], Stalled, Chunk [0, 0, 0, 1, 0]] ?t =
      ?t\<lparr>tcp_inbox := [(PeerId 3, MsgRequestSnapshot), (PeerId 3, MsgRequestSnapshot)],
         tcp_peers := fmdrop (PeerId 3) (tcp_peers ?t)\<rparr>"
    using frame1 [of "[]"] by (subst tcp_reader.simps)
      (simp add: tcp_reader_idle t, subst tcp_reader.simps, simp, subst tcp_reader.simps, simp)
  ultimately show ?thesis by (simp add: request_frame t Let_def)
qed

section \<open>Sending\<close>

text \<open>The transport with the sockets of its connections (the \<open>PeerConn\<close> writers).\<close>

record tcp_transport =
  tt_inner :: tcp_inner
  tt_conns :: "nat \<Rightarrow> tcp_stream"

definition tcp_send_frame ::
  "(wire_frame \<Rightarrow> u8 list result) \<Rightarrow> peer_id \<Rightarrow> wire_frame \<Rightarrow> tcp_transport \<Rightarrow> unit result \<times> tcp_transport" where
  "tcp_send_frame encode peer f t =
     (case fmlookup (tcp_peers (tt_inner t)) peer of
        None \<Rightarrow> (Inl (PeerNotFound peer), t)
      | Some c \<Rightarrow> (case tcp_write_frame encode f (tt_conns t c) of
            (r, s) \<Rightarrow> (r, t\<lparr>tt_conns := (tt_conns t)(c := s)\<rparr>)))"

definition tcp_send_to ::
  "(wire_frame \<Rightarrow> u8 list result) \<Rightarrow> peer_id \<Rightarrow> sync_message \<Rightarrow> tcp_transport \<Rightarrow> unit result \<times> tcp_transport" where
  "tcp_send_to encode peer m t = tcp_send_frame encode peer (WireMessage m) t"

definition tcp_transport_peers :: "tcp_transport \<Rightarrow> peer_id list" where
  "tcp_transport_peers t = btree_keys (tcp_peers (tt_inner t))"

fun tcp_broadcast_loop ::
  "(wire_frame \<Rightarrow> u8 list result) \<Rightarrow> sync_message \<Rightarrow> peer_id list \<Rightarrow> sync_error option \<Rightarrow> tcp_transport \<Rightarrow>
   sync_error option \<times> tcp_transport" where
  "tcp_broadcast_loop encode m [] last_err t = (last_err, t)"
| "tcp_broadcast_loop encode m (peer # peers) last_err t =
     (case tcp_send_frame encode peer (WireMessage m) t of
        (Inl e, t) \<Rightarrow> tcp_broadcast_loop encode m peers (Some e) t
      | (Inr _, t) \<Rightarrow> tcp_broadcast_loop encode m peers last_err t)"

definition tcp_broadcast ::
  "(wire_frame \<Rightarrow> u8 list result) \<Rightarrow> sync_message \<Rightarrow> tcp_transport \<Rightarrow> unit result \<times> tcp_transport" where
  "tcp_broadcast encode m t =
     (if tcp_transport_peers t = [] then (Inl (sync_error_transport ''no connected peers''), t)
      else (case tcp_broadcast_loop encode m (tcp_transport_peers t) None t of
          (Some e, t) \<Rightarrow> if tcp_transport_peers t \<noteq> [] then (Inl e, t) else (Inr (), t)
        | (None, t) \<Rightarrow> (Inr (), t)))"

definition tcp_try_recv :: "tcp_transport \<Rightarrow> (peer_id \<times> sync_message) option result \<times> tcp_transport" where
  "tcp_try_recv t =
     (case tcp_inbox (tt_inner t) of
        [] \<Rightarrow> (Inr None, t)
      | x # rest \<Rightarrow> (Inr (Some x), t\<lparr>tt_inner := (tt_inner t)\<lparr>tcp_inbox := rest\<rparr>\<rparr>))"

lemma tcp_send_frame_inner [simp]: "tt_inner (snd (tcp_send_frame encode peer f t)) = tt_inner t"
  by (simp add: tcp_send_frame_def split: option.split prod.split)

lemma tcp_broadcast_loop_inner:
  "tcp_broadcast_loop encode m ps e t = (r, t') \<Longrightarrow> tt_inner t' = tt_inner t"
proof (induction encode m ps e t rule: tcp_broadcast_loop.induct)
  case (2 encode m peer peers last_err t)
  have "tt_inner t1 = tt_inner t" if "tcp_send_frame encode peer (WireMessage m) t = (r1, t1)" for r1 t1
    using tcp_send_frame_inner [of encode peer "WireMessage m" t] that by simp
  with 2 show ?case by (auto split: prod.splits sum.splits)
qed simp

text \<open>What one send does to the socket: \<open>b\<close> is appended, or the part of it that got out.\<close>

definition conn_after :: "u8 list \<Rightarrow> tcp_stream \<Rightarrow> tcp_stream" where
  "conn_after b s =
     s\<lparr>ts_out := ts_out s @ (case ts_writes s of Some (n, e) # _ \<Rightarrow> take n b | _ \<Rightarrow> b), ts_writes := tl (ts_writes s)\<rparr>"

lemma tcp_send_frame_ok:
  assumes "wire_codec_ok encode decode f" and "fmlookup (tcp_peers (tt_inner t)) peer = Some c"
  shows "tcp_send_frame encode peer f t =
    (write_result (tt_conns t c),
     t\<lparr>tt_conns := (tt_conns t)(c := conn_after (tcp_frame_bytes encode f) (tt_conns t c))\<rparr>)"
proof -
  have keep: "s\<lparr>ts_out := b, ts_writes := []\<rparr> = s\<lparr>ts_out := b\<rparr>" if "ts_writes s = []" for s :: tcp_stream and b
    using that by (cases s) simp
  show ?thesis using assms
    by (auto simp: keep tcp_send_frame_def tcp_write_frame_def tcp_frame_ok conn_after_def write_result_def
        split: list.split option.split)
qed

lemma tcp_broadcast_loop_ok:
  assumes "wire_codec_ok encode decode (WireMessage m)" and "distinct ps"
    and "\<forall>p \<in> set ps. fmlookup (tcp_peers (tt_inner t)) p \<noteq> None"
    and "\<forall>p q c. fmlookup (tcp_peers (tt_inner t)) p = Some c \<and> fmlookup (tcp_peers (tt_inner t)) q = Some c \<longrightarrow> p = q"
    and "tcp_broadcast_loop encode m ps e t = (r, t')"
  shows "(r = None \<longleftrightarrow> e = None \<and> (\<forall>p \<in> set ps. \<forall>c. fmlookup (tcp_peers (tt_inner t)) p = Some c \<longrightarrow>
      write_result (tt_conns t c) = Inr ())) \<and>
    (\<forall>p c. fmlookup (tcp_peers (tt_inner t)) p = Some c \<longrightarrow> tt_conns t' c =
      (if p \<in> set ps then conn_after (tcp_frame_bytes encode (WireMessage m)) (tt_conns t c) else tt_conns t c))"
  using assms(2-)
proof (induction ps arbitrary: e t)
  case (Cons p ps)
  obtain c where c: "fmlookup (tcp_peers (tt_inner t)) p = Some c" using Cons.prems(2) by auto
  let ?t = "t\<lparr>tt_conns := (tt_conns t)(c := conn_after (tcp_frame_bytes encode (WireMessage m)) (tt_conns t c))\<rparr>"
  let ?e = "case write_result (tt_conns t c) of Inl err \<Rightarrow> Some err | Inr _ \<Rightarrow> e"
  have run: "tcp_broadcast_loop encode m ps ?e ?t = (r, t')"
    using Cons.prems(4) by (simp add: tcp_send_frame_ok [OF assms(1) c] split: sum.splits)
  have others: "fmlookup (tcp_peers (tt_inner t)) q = Some c \<longleftrightarrow> q = p" for q
    using Cons.prems(3) c by blast
  have "p \<notin> set ps" "distinct ps" using Cons.prems(1) by simp_all
  with Cons.IH [of ?t ?e] run Cons.prems(2,3) c others show ?case
    by (auto split: if_splits sum.splits) (metis option.inject)+
qed simp

text \<open>A broadcast writes the frame to every peer's socket exactly once, even when it reports
  an error: whole where the write succeeds, cut off where it fails. It reports an error
  exactly when some peer's write fails.\<close>

theorem tcp_broadcast_reaches_all:
  assumes "wire_codec_ok encode decode (WireMessage m)"
    and "\<forall>p q c. fmlookup (tcp_peers (tt_inner t)) p = Some c \<and> fmlookup (tcp_peers (tt_inner t)) q = Some c \<longrightarrow> p = q"
    and "fmlookup (tcp_peers (tt_inner t)) peer = Some c" and "tcp_broadcast encode m t = (r, t')"
  shows "tt_conns t' c = conn_after (tcp_frame_bytes encode (WireMessage m)) (tt_conns t c) \<and>
    (r = Inr () \<longleftrightarrow> (\<forall>p c. fmlookup (tcp_peers (tt_inner t)) p = Some c \<longrightarrow> write_result (tt_conns t c) = Inr ()))"
proof -
  let ?ps = "tcp_transport_peers t"
  have ps: "distinct ?ps" "set ?ps = fset (fmdom (tcp_peers (tt_inner t)))"
    by (simp_all add: tcp_transport_peers_def btree_keys_def sorted_list_of_fset.rep_eq)
  then have dom: "p \<in> set ?ps \<longleftrightarrow> fmlookup (tcp_peers (tt_inner t)) p \<noteq> None" for p
    by (simp add: fmlookup_dom_iff)
  obtain e t1 where run: "tcp_broadcast_loop encode m ?ps None t = (e, t1)" by fastforce
  have inner: "tcp_transport_peers t1 = ?ps"
    using tcp_broadcast_loop_inner [OF run] by (simp add: tcp_transport_peers_def)
  have peer: "peer \<in> set ?ps" using assms(3) by (simp add: dom)
  then have "?ps \<noteq> []" by (cases ?ps) simp_all
  then have t': "t' = t1" "r = Inr () \<longleftrightarrow> e = None"
    using assms(4) run inner by (auto simp: tcp_broadcast_def split: option.splits)
  show ?thesis
    using tcp_broadcast_loop_ok [OF assms(1) ps(1) _ assms(2) run] peer assms(3)
    unfolding t' by (auto simp: dom)
qed

text \<open>Two peers, the second one's connection breaking after two bytes of the frame.\<close>

definition half_broken :: tcp_transport where
  "half_broken = \<lparr>tt_inner = (tcp_listen (PeerId 9))\<lparr>tcp_peers := fmupd (PeerId 1) 0 (fmupd (PeerId 2) 1 fmempty)\<rparr>,
     tt_conns = (\<lambda>c. \<lparr>ts_in = [], ts_out = [], ts_writes = (if c = 0 then [] else [Some (2, TimedOut)])\<rparr>)\<rparr>"

theorem tcp_broadcast_reaches_all_witness:
  "\<exists>e t'. tcp_broadcast (one_byte_encode [WireMessage MsgRequestSnapshot]) MsgRequestSnapshot half_broken = (Inl e, t') \<and>
    ts_out (tt_conns t' 0) = [0, 0, 0, 1, 0] \<and> ts_out (tt_conns t' 1) = [0, 0]"
proof -
  obtain r t' where run: "tcp_broadcast (one_byte_encode [WireMessage MsgRequestSnapshot]) MsgRequestSnapshot
      half_broken = (r, t')" by fastforce
  have peers: "tcp_peers (tt_inner half_broken) = fmupd (PeerId 1) 0 (fmupd (PeerId 2) 1 fmempty)"
    by (simp add: half_broken_def)
  have codec: "wire_codec_ok (one_byte_encode [WireMessage MsgRequestSnapshot])
      (one_byte_decode [WireMessage MsgRequestSnapshot]) (WireMessage MsgRequestSnapshot)"
    by (rule one_byte_wire_codec) simp_all
  have inj: "\<forall>p q c. fmlookup (tcp_peers (tt_inner half_broken)) p = Some c \<and>
      fmlookup (tcp_peers (tt_inner half_broken)) q = Some c \<longrightarrow> p = q"
    unfolding peers by (auto split: if_splits)
  have first: "fmlookup (tcp_peers (tt_inner half_broken)) (PeerId 1) = Some 0" by (simp add: peers)
  have second: "fmlookup (tcp_peers (tt_inner half_broken)) (PeerId 2) = Some 1" by (simp add: peers)
  note reaches = tcp_broadcast_reaches_all [OF codec inj _ run]
  have "ts_out (tt_conns t' 0) = [0, 0, 0, 1, 0]" "ts_out (tt_conns t' 1) = [0, 0]"
    using reaches [OF first] reaches [OF second] by (simp_all add: conn_after_def half_broken_def request_frame)
  moreover have "write_result (tt_conns half_broken 1) \<noteq> Inr ()" by (simp add: write_result_def half_broken_def)
  then have "r \<noteq> Inr ()" using reaches [OF second] second by blast
  ultimately show ?thesis using run by (cases r) auto
qed

text \<open>
  A reconnecting peer: the new connection replaces the old one in the table, then the old
  connection's reader ends and removes the peer, new connection and all.
\<close>

theorem reconnect_loses_peer:
  "let t = tcp_register peer c (tcp_register peer old t) in
     fmlookup (tcp_peers t) peer = Some c \<and> fmlookup (tcp_peers (tcp_reader decode peer [] t)) peer = None"
  by (simp add: Let_def tcp_register_def tcp_reader.simps)

end
