(* ===== verification/Relay.thy ===== *)
theory Relay
  imports Server_Limits Identity Tcp Convergence
begin

text \<open>
  The relay server (\<open>tpt-av-sync-server/src/relay.rs\<close>, \<open>serve_connection\<close>). Every
  connection runs its own task; between two lock acquisitions of one task other tasks may
  run. A connection therefore has a phase, one step of the model is one critical section
  (reading and admitting a frame, persisting it, replying, forwarding, removing one
  membership), and a run is an arbitrary sequence of steps of arbitrary connections. The
  codec, SHA-256 and the decision of the token bucket are inputs; a peer's channel is
  named by its connection's number. The lemmas bound the rooms, show that under token
  admission nothing leaves a room, and follow an operation from its sender to the log, to
  the members and to a later joiner.
\<close>

section \<open>Frames and state\<close>

datatype room_auth = AuthOpen | AuthToken string

record relay_join_proof =
  rj_peer_id :: peer_id
  rj_room :: string
  rj_token_proof :: "u8 list"

record relay_frame =
  rf_room :: string
  rf_from :: peer_id
  rf_to :: "peer_id option"
  rf_message :: sync_message
  rf_join :: "relay_join_proof option"

text \<open>The codec for frames and stored operations, and SHA-256.\<close>

record relay_codec =
  rc_decode :: "u8 list \<Rightarrow> relay_frame result"
  rc_encode :: "relay_frame \<Rightarrow> u8 list result"
  rc_decode_op :: "u8 list \<Rightarrow> tagged_operation result"
  rc_encode_op :: "tagged_operation \<Rightarrow> u8 list result"
  rc_sha256 :: "u8 list \<Rightarrow> u8 list"

text \<open>Where a connection's task is: between two of its critical sections.\<close>

datatype relay_phase =
    Reading
  | Persisting relay_frame "u8 list"
  | Replying relay_frame "tagged_operation list"
  | Forwarding relay_frame "u8 list"
  | Leaving
  | Gone

record relay_conn =
  rn_phase :: relay_phase
  rn_joined :: "(string \<times> peer_id) list"
  rn_bound :: "(string \<times> peer_id) option"
  rn_sent :: "u8 list list"

record relay_server =
  rs_limits :: server_limits
  rs_auth :: room_auth
  rs_rooms :: "(string, (peer_id, nat) fmap) fmap"
  rs_conns :: "(nat, relay_conn) fmap"
  rs_store :: "session_store option"

definition relay_serve_full :: "server_limits \<Rightarrow> room_auth \<Rightarrow> session_store option \<Rightarrow> relay_server" where
  "relay_serve_full limits auth store =
     \<lparr>rs_limits = limits, rs_auth = auth, rs_rooms = fmempty, rs_conns = fmempty, rs_store = store\<rparr>"

definition relay_serve_with_limits :: "server_limits \<Rightarrow> session_store option \<Rightarrow> relay_server" where
  "relay_serve_with_limits limits store = relay_serve_full limits AuthOpen store"

definition relay_serve :: "session_store option \<Rightarrow> relay_server" where
  "relay_serve store = relay_serve_with_limits server_limits_default store"

definition persisted_ops :: "relay_codec \<Rightarrow> string \<Rightarrow> relay_server \<Rightarrow> tagged_operation list" where
  "persisted_ops codec room s =
     (case rs_store s of Some store \<Rightarrow> store_load_ops (rc_decode_op codec) store room | None \<Rightarrow> [])"

definition snapshot_from_ops :: "tagged_operation list \<Rightarrow> timeline_snapshot" where
  "snapshot_from_ops ops = \<lparr>snap_ops = ops\<rparr>"

section \<open>One connection's steps\<close>

definition set_conn :: "nat \<Rightarrow> relay_conn \<Rightarrow> relay_server \<Rightarrow> relay_server" where
  "set_conn c k s = s\<lparr>rs_conns := fmupd c k (rs_conns s)\<rparr>"

text \<open>\<open>member.send(bytes)\<close>: lost once the receiver's task is gone.\<close>

definition relay_send :: "nat \<Rightarrow> u8 list \<Rightarrow> relay_server \<Rightarrow> relay_server" where
  "relay_send c bytes s =
     (case fmlookup (rs_conns s) c of
        None \<Rightarrow> s
      | Some k \<Rightarrow> if rn_phase k = Gone then s else set_conn c (k\<lparr>rn_sent := rn_sent k @ [bytes]\<rparr>) s)"

text \<open>Room authorization: \<open>None\<close> closes the connection, else the binding that holds now.\<close>

definition relay_authorize ::
  "relay_codec \<Rightarrow> room_auth \<Rightarrow> relay_frame \<Rightarrow> (string \<times> peer_id) option \<Rightarrow> (string \<times> peer_id) option option" where
  "relay_authorize codec auth frame bound =
     (case auth of
        AuthOpen \<Rightarrow> Some bound
      | AuthToken secret \<Rightarrow>
          (case bound of
             None \<Rightarrow>
               (case rf_join frame of
                  None \<Rightarrow> None
                | Some p \<Rightarrow>
                    if rj_room p \<noteq> rf_room frame \<or> rj_peer_id p \<noteq> rf_from frame \<or>
                       rj_token_proof p \<noteq> room_token_proof (rc_sha256 codec) secret (rf_room frame)
                    then None
                    else Some (Some (rf_room frame, rf_from frame)))
           | Some (room, peer) \<Rightarrow>
               if room \<noteq> rf_room frame \<or> peer \<noteq> rf_from frame then None else Some bound))"

text \<open>Registration in the addressed room, under the room lock; then validation.\<close>

definition room_members :: "string \<Rightarrow> relay_server \<Rightarrow> (peer_id, nat) fmap" where
  "room_members room s = (case fmlookup (rs_rooms s) room of Some m \<Rightarrow> m | None \<Rightarrow> fmempty)"

definition relay_join :: "nat \<Rightarrow> relay_conn \<Rightarrow> relay_frame \<Rightarrow> u8 list \<Rightarrow> relay_server \<Rightarrow> relay_server" where
  "relay_join c k frame bytes s =
     (let members = room_members (rf_room frame) s;
          known = contains_key members (rf_from frame)
      in if \<not> known \<and> sl_max_room_members (rs_limits s) \<le> members_len members
         then set_conn c (k\<lparr>rn_phase := Leaving\<rparr>) (s\<lparr>rs_rooms := fmupd (rf_room frame) members (rs_rooms s)\<rparr>)
         else
           let joined = (if known then rn_joined k else rn_joined k @ [(rf_room frame, rf_from frame)]);
               phase = (case rf_message frame of
                   MsgOperation x \<Rightarrow> (case validate_operation (operation x) of
                       Inl _ \<Rightarrow> Reading | Inr _ \<Rightarrow> Persisting frame bytes)
                 | _ \<Rightarrow> Persisting frame bytes)
           in set_conn c (k\<lparr>rn_joined := joined, rn_phase := phase\<rparr>)
                (s\<lparr>rs_rooms := fmupd (rf_room frame) (fmupd (rf_from frame) c members) (rs_rooms s)\<rparr>))"

text \<open>One binary message: rate limit, bounded decoding, authorization, registration.\<close>

definition relay_receive ::
  "relay_codec \<Rightarrow> nat \<Rightarrow> relay_conn \<Rightarrow> u8 list \<Rightarrow> bool \<Rightarrow> relay_server \<Rightarrow> relay_server" where
  "relay_receive codec c k bytes granted s =
     (if \<not> granted then set_conn c (k\<lparr>rn_phase := Leaving\<rparr>) s
      else (case decode_message (rc_decode codec) bytes of
          Inl _ \<Rightarrow> s
        | Inr frame \<Rightarrow>
            (case relay_authorize codec (rs_auth s) frame (rn_bound k) of
               None \<Rightarrow> set_conn c (k\<lparr>rn_phase := Leaving\<rparr>) s
             | Some bound \<Rightarrow> relay_join c (k\<lparr>rn_bound := bound\<rparr>) frame bytes s)))"

definition relay_persist ::
  "relay_codec \<Rightarrow> nat \<Rightarrow> relay_conn \<Rightarrow> relay_frame \<Rightarrow> u8 list \<Rightarrow> relay_server \<Rightarrow> relay_server" where
  "relay_persist codec c k frame bytes s =
     (case rf_message frame of
        MsgOperation x \<Rightarrow>
          set_conn c (k\<lparr>rn_phase := Forwarding frame bytes\<rparr>)
            (s\<lparr>rs_store := map_option (store_append_op (rc_encode_op codec) (rf_room frame) x) (rs_store s)\<rparr>)
      | MsgRequestSnapshot \<Rightarrow>
          (let stored = persisted_ops codec (rf_room frame) s
           in set_conn c (k\<lparr>rn_phase := (if stored \<noteq> [] then Replying frame stored
                else Forwarding frame bytes)\<rparr>) s)
      | _ \<Rightarrow> set_conn c (k\<lparr>rn_phase := Forwarding frame bytes\<rparr>) s)"

definition relay_snapshot_frame :: "relay_frame \<Rightarrow> tagged_operation list \<Rightarrow> relay_frame" where
  "relay_snapshot_frame frame stored =
     \<lparr>rf_room = rf_room frame, rf_from = PeerId 0, rf_to = Some (rf_from frame),
      rf_message = MsgSnapshot (snapshot_from_ops stored), rf_join = None\<rparr>"

definition relay_reply ::
  "relay_codec \<Rightarrow> nat \<Rightarrow> relay_conn \<Rightarrow> relay_frame \<Rightarrow> tagged_operation list \<Rightarrow> relay_server \<Rightarrow> relay_server" where
  "relay_reply codec c k frame stored s =
     (let s = set_conn c (k\<lparr>rn_phase := Reading\<rparr>) s
      in case rc_encode codec (relay_snapshot_frame frame stored) of
           Inl _ \<Rightarrow> s
         | Inr reply_bytes \<Rightarrow>
             (case fmlookup (room_members (rf_room frame) s) (rf_from frame) of
                None \<Rightarrow> s
              | Some member \<Rightarrow> relay_send member reply_bytes s))"

definition relay_forward ::
  "nat \<Rightarrow> relay_conn \<Rightarrow> relay_frame \<Rightarrow> u8 list \<Rightarrow> relay_server \<Rightarrow> relay_server" where
  "relay_forward c k frame bytes s =
     (let s = set_conn c (k\<lparr>rn_phase := Reading\<rparr>) s;
          members = room_members (rf_room frame) s
      in case rf_to frame of
           Some target \<Rightarrow>
             (case fmlookup members target of None \<Rightarrow> s | Some member \<Rightarrow> relay_send member bytes s)
         | None \<Rightarrow>
             fold (\<lambda>(peer, member) s. if peer \<noteq> rf_from frame then relay_send member bytes s else s)
               (btree_entries members) s)"

text \<open>Cleanup after the read loop: one membership per step.\<close>

definition relay_leave :: "nat \<Rightarrow> relay_conn \<Rightarrow> relay_server \<Rightarrow> relay_server" where
  "relay_leave c k s =
     (case rn_joined k of
        [] \<Rightarrow> set_conn c (k\<lparr>rn_phase := Gone\<rparr>) s
      | (room, peer) # rest \<Rightarrow>
          set_conn c (k\<lparr>rn_joined := rest\<rparr>)
            (case fmlookup (rs_rooms s) room of
               None \<Rightarrow> s
             | Some members \<Rightarrow> s\<lparr>rs_rooms := fmupd room (fmdrop peer members) (rs_rooms s)\<rparr>))"

section \<open>Runs\<close>

datatype relay_event =
    Accepted nat
  | Received nat "u8 list" bool
  | HungUp nat
  | Advanced nat

text \<open>An event of a connection that is not in the right phase changes nothing.\<close>

fun relay_step :: "relay_codec \<Rightarrow> relay_event \<Rightarrow> relay_server \<Rightarrow> relay_server" where
  "relay_step codec (Accepted c) s =
     (if contains_key (rs_conns s) c then s
      else set_conn c \<lparr>rn_phase = Reading, rn_joined = [], rn_bound = None, rn_sent = []\<rparr> s)"
| "relay_step codec (Received c bytes granted) s =
     (case fmlookup (rs_conns s) c of
        None \<Rightarrow> s
      | Some k \<Rightarrow> if rn_phase k = Reading then relay_receive codec c k bytes granted s else s)"
| "relay_step codec (HungUp c) s =
     (case fmlookup (rs_conns s) c of
        None \<Rightarrow> s
      | Some k \<Rightarrow> if rn_phase k = Reading then set_conn c (k\<lparr>rn_phase := Leaving\<rparr>) s else s)"
| "relay_step codec (Advanced c) s =
     (case fmlookup (rs_conns s) c of
        None \<Rightarrow> s
      | Some k \<Rightarrow>
          (case rn_phase k of
             Persisting frame bytes \<Rightarrow> relay_persist codec c k frame bytes s
           | Replying frame stored \<Rightarrow> relay_reply codec c k frame stored s
           | Forwarding frame bytes \<Rightarrow> relay_forward c k frame bytes s
           | Leaving \<Rightarrow> relay_leave c k s
           | _ \<Rightarrow> s))"

definition relay_run :: "relay_codec \<Rightarrow> relay_event list \<Rightarrow> relay_server \<Rightarrow> relay_server" where
  "relay_run codec evs s = fold (relay_step codec) evs s"

lemma relay_run_Nil [simp]: "relay_run codec [] s = s"
  and relay_run_snoc: "relay_run codec (evs @ [ev]) s = relay_step codec ev (relay_run codec evs s)"
  by (simp_all add: relay_run_def)

section \<open>Rooms are bounded\<close>

lemma set_conn_fields [simp]:
  "rs_limits (set_conn c k s) = rs_limits s" "rs_auth (set_conn c k s) = rs_auth s"
  "rs_rooms (set_conn c k s) = rs_rooms s" "rs_store (set_conn c k s) = rs_store s"
  "rs_conns (set_conn c k s) = fmupd c k (rs_conns s)"
  by (simp_all add: set_conn_def)

lemma relay_send_fields [simp]:
  "rs_limits (relay_send c b s) = rs_limits s" "rs_auth (relay_send c b s) = rs_auth s"
  "rs_rooms (relay_send c b s) = rs_rooms s" "rs_store (relay_send c b s) = rs_store s"
  by (simp_all add: relay_send_def split: option.split)

definition sent_more :: "u8 list list \<Rightarrow> relay_conn \<Rightarrow> relay_conn" where
  "sent_more bs k = (if rn_phase k = Gone then k else k\<lparr>rn_sent := rn_sent k @ bs\<rparr>)"

lemma sent_more_simps [simp]:
  "sent_more [] k = k" "sent_more cs (sent_more bs k) = sent_more (bs @ cs) k"
  "rn_phase (sent_more bs k) = rn_phase k" "rn_joined (sent_more bs k) = rn_joined k"
  "rn_bound (sent_more bs k) = rn_bound k"
  by (simp_all add: sent_more_def)

lemma sent_more_none [simp]: "map_option (sent_more []) x = x"
  by (cases x) simp_all

lemma room_members_simps [simp]:
  "room_members room (set_conn c k s) = room_members room s"
  "room_members room (relay_send c b s) = room_members room s"
  "room_members room (s\<lparr>rs_store := st\<rparr>) = room_members room s"
  "room_members room (s\<lparr>rs_rooms := fmupd q m (rs_rooms s)\<rparr>) = (if room = q then m else room_members room s)"
  by (simp_all add: room_members_def)

lemma relay_send_conns:
  "fmlookup (rs_conns (relay_send c b s)) d =
     map_option (sent_more (if d = c then [b] else [])) (fmlookup (rs_conns s) d)"
  by (auto simp: relay_send_def sent_more_def split: option.split)

text \<open>Fanning out: how many copies each connection gets.\<close>

definition fan_out :: "peer_id \<Rightarrow> u8 list \<Rightarrow> (peer_id \<times> nat) list \<Rightarrow> relay_server \<Rightarrow> relay_server" where
  "fan_out from b entries s =
     fold (\<lambda>(peer, member) s. if peer \<noteq> from then relay_send member b s else s) entries s"

lemma fan_out_simps [simp]:
  "fan_out from b [] s = s"
  "fan_out from b ((peer, member) # entries) s =
    fan_out from b entries (if peer \<noteq> from then relay_send member b s else s)"
  by (simp_all add: fan_out_def)

lemma fan_out_fields [simp]:
  "rs_limits (fan_out from b es s) = rs_limits s" "rs_auth (fan_out from b es s) = rs_auth s"
  "rs_rooms (fan_out from b es s) = rs_rooms s" "rs_store (fan_out from b es s) = rs_store s"
  by (induction es arbitrary: s) auto

lemma fan_out_conns:
  "fmlookup (rs_conns (fan_out from b es s)) d =
     map_option (sent_more (replicate (length (filter (\<lambda>(peer, member). peer \<noteq> from \<and> member = d) es)) b))
       (fmlookup (rs_conns s) d)"
proof (induction es arbitrary: s)
  case Nil
  show ?case by (simp add: option.map_ident)
next
  case (Cons e es)
  obtain peer member where e: "e = (peer, member)" by force
  have "replicate n b @ [b] = b # replicate n b" for n by (simp add: replicate_append_same)
  with Cons show ?case
    by (auto simp: e relay_send_conns option.map_comp comp_def intro!: option.map_cong)
qed

lemma relay_forward_alt:
  "relay_forward c k frame bytes s =
     (case rf_to frame of
        Some target \<Rightarrow>
          (case fmlookup (room_members (rf_room frame) s) target of
             None \<Rightarrow> set_conn c (k\<lparr>rn_phase := Reading\<rparr>) s
           | Some member \<Rightarrow> relay_send member bytes (set_conn c (k\<lparr>rn_phase := Reading\<rparr>) s))
      | None \<Rightarrow> fan_out (rf_from frame) bytes (btree_entries (room_members (rf_room frame) s))
          (set_conn c (k\<lparr>rn_phase := Reading\<rparr>) s))"
  by (simp add: relay_forward_def fan_out_def Let_def split: option.split)

lemma relay_step_config [simp]:
  "rs_limits (relay_step codec ev s) = rs_limits s" "rs_auth (relay_step codec ev s) = rs_auth s"
  by (cases ev; simp add: relay_receive_def relay_join_def relay_persist_def relay_reply_def
      relay_forward_alt relay_leave_def Let_def
      split: option.split relay_phase.split sum.split sync_message.split list.split)+

lemma relay_run_config [simp]:
  "rs_limits (relay_run codec evs s) = rs_limits s" "rs_auth (relay_run codec evs s) = rs_auth s"
  by (induction evs rule: rev_induct) (simp_all add: relay_run_snoc)

lemma room_members_fan_out [simp]: "room_members room (fan_out from b es s) = room_members room s"
  by (simp add: room_members_def)

abbreviation room_size :: "string \<Rightarrow> relay_server \<Rightarrow> nat" where
  "room_size room s \<equiv> members_len (room_members room s)"

lemma relay_join_size:
  "room_size room (relay_join c k f b s) \<le> max (room_size room s) (sl_max_room_members (rs_limits s))"
  by (auto simp: relay_join_def Let_def)

lemma relay_leave_size: "room_size room (relay_leave c k s) \<le> room_size room s"
proof -
  have "room_members r s = m" if "fmlookup (rs_rooms s) r = Some m" for r m
    using that by (simp add: room_members_def)
  then show ?thesis using members_len_drop by (fastforce simp: relay_leave_def split: list.split option.split)
qed

lemma relay_step_size:
  "room_size room (relay_step codec ev s) \<le> max (room_size room s) (sl_max_room_members (rs_limits s))"
proof (cases ev)
  case (Received c b granted)
  then show ?thesis using relay_join_size [of room c _ _ b s]
    by (auto simp: relay_receive_def split: option.split sum.split)
next
  case (Advanced c)
  then show ?thesis using relay_leave_size [of room c _ s]
    by (auto simp: relay_persist_def relay_reply_def relay_forward_alt Let_def le_max_iff_disj
        split: option.split relay_phase.split sum.split sync_message.split)
qed (auto split: option.split)

interpretation relay_rooms: capped_rooms "relay_step codec" room_size "\<lambda>s. sl_max_room_members (rs_limits s)"
  for codec
  by unfold_locales (simp_all only: relay_step_config relay_step_size)

text \<open>Claim C29. The room cap holds at all times: whatever frames arrive on however many
  connections, and however their steps interleave, no room ever has more members than
  the limit.\<close>

theorem rooms_bounded:
  "members_len (room_members room (relay_run codec evs (relay_serve_full limits auth store)))
    \<le> sl_max_room_members limits"
  using relay_rooms.run_capped [of room "relay_serve_full limits auth store" codec evs]
  by (simp add: relay_run_def relay_serve_full_def room_members_def)

section \<open>Token admission isolates rooms\<close>

text \<open>A frame with a valid proof for the room arrived on this connection.\<close>

definition admitted :: "relay_codec \<Rightarrow> string \<Rightarrow> relay_event list \<Rightarrow> nat \<Rightarrow> string \<Rightarrow> peer_id \<Rightarrow> bool" where
  "admitted codec secret evs c room peer \<longleftrightarrow>
     (\<exists>bytes f p. Received c bytes True \<in> set evs \<and> decode_message (rc_decode codec) bytes = Inr f \<and>
        rf_room f = room \<and> rf_from f = peer \<and> rf_join f = Some p \<and>
        rj_token_proof p = room_token_proof (rc_sha256 codec) secret room)"

text \<open>Bytes that belong to a room: a received frame for it, or a reply the server encoded.\<close>

definition of_room :: "relay_codec \<Rightarrow> relay_event list \<Rightarrow> string \<Rightarrow> u8 list \<Rightarrow> bool" where
  "of_room codec evs room b \<longleftrightarrow>
     (\<exists>c f. Received c b True \<in> set evs \<and> decode_message (rc_decode codec) b = Inr f \<and> rf_room f = room) \<or>
     (\<exists>f. rc_encode codec f = Inr b \<and> rf_room f = room)"

definition conn_ok :: "relay_codec \<Rightarrow> string \<Rightarrow> relay_event list \<Rightarrow> nat \<Rightarrow> relay_conn \<Rightarrow> bool" where
  "conn_ok codec secret evs c k \<longleftrightarrow>
     (\<forall>room peer. rn_bound k = Some (room, peer) \<longrightarrow> admitted codec secret evs c room peer) \<and>
     (\<forall>b \<in> set (rn_sent k). \<exists>room peer. rn_bound k = Some (room, peer) \<and> of_room codec evs room b) \<and>
     (case rn_phase k of
        Persisting f b \<Rightarrow> rn_bound k = Some (rf_room f, rf_from f) \<and> of_room codec evs (rf_room f) b
      | Replying f xs \<Rightarrow> rn_bound k = Some (rf_room f, rf_from f)
      | Forwarding f b \<Rightarrow> rn_bound k = Some (rf_room f, rf_from f) \<and> of_room codec evs (rf_room f) b
      | _ \<Rightarrow> True)"

definition isolated :: "relay_codec \<Rightarrow> string \<Rightarrow> relay_event list \<Rightarrow> relay_server \<Rightarrow> bool" where
  "isolated codec secret evs s \<longleftrightarrow>
     (\<forall>c k. fmlookup (rs_conns s) c = Some k \<longrightarrow> conn_ok codec secret evs c k) \<and>
     (\<forall>room peer c. fmlookup (room_members room s) peer = Some c \<longrightarrow>
        (\<exists>k. fmlookup (rs_conns s) c = Some k \<and> rn_bound k = Some (room, peer)))"

lemma conn_ok_mono:
  assumes "conn_ok codec secret evs c k" and "set evs \<subseteq> set evs'"
  shows "conn_ok codec secret evs' c k"
proof -
  have "admitted codec secret evs c room peer \<Longrightarrow> admitted codec secret evs' c room peer" for room peer
    using assms(2) unfolding admitted_def by blast
  moreover have "of_room codec evs room b \<Longrightarrow> of_room codec evs' room b" for room b
    using assms(2) unfolding of_room_def by blast
  ultimately show ?thesis using assms(1) unfolding conn_ok_def by (fastforce split: relay_phase.splits)
qed

lemma isolated_mono: "isolated codec secret evs s \<Longrightarrow> set evs \<subseteq> set evs' \<Longrightarrow> isolated codec secret evs' s"
  using conn_ok_mono unfolding isolated_def by blast

lemma isolated_cong:
  "isolated codec secret evs s \<Longrightarrow> rs_conns t = rs_conns s \<Longrightarrow>
    (\<And>room. room_members room t = room_members room s) \<Longrightarrow> isolated codec secret evs t"
  by (simp add: isolated_def)

lemma isolated_set_conn:
  assumes "isolated codec secret evs s" and "conn_ok codec secret evs c k"
    and "\<And>k0. fmlookup (rs_conns s) c = Some k0 \<Longrightarrow> rn_bound k0 = None \<or> rn_bound k = rn_bound k0"
  shows "isolated codec secret evs (set_conn c k s)"
  using assms unfolding isolated_def by (auto split: if_splits) fastforce

lemma isolated_conn: "isolated codec secret evs s \<Longrightarrow> fmlookup (rs_conns s) c = Some k \<Longrightarrow> conn_ok codec secret evs c k"
  by (simp add: isolated_def)

lemma isolated_send:
  assumes iso: "isolated codec secret evs s" and "fmlookup (room_members room s) peer = Some c"
    and "of_room codec evs room b"
  shows "isolated codec secret evs (relay_send c b s)"
proof -
  obtain k where k: "fmlookup (rs_conns s) c = Some k" "rn_bound k = Some (room, peer)"
    using assms(1,2) unfolding isolated_def by blast
  have "conn_ok codec secret evs c (k\<lparr>rn_sent := rn_sent k @ [b]\<rparr>)"
    using isolated_conn [OF iso k(1)] k(2) assms(3) by (auto simp: conn_ok_def split: relay_phase.splits)
  then show ?thesis using iso k
    by (auto simp: relay_send_def intro!: isolated_set_conn)
qed

lemma isolated_fan_out:
  assumes "isolated codec secret evs s" and "of_room codec evs room b"
    and "\<forall>(peer, c) \<in> set es. fmlookup (room_members room s) peer = Some c"
  shows "isolated codec secret evs (fan_out from b es s)"
  using assms(1,3)
proof (induction es arbitrary: s)
  case (Cons e es)
  then show ?case by (cases e) (auto intro!: Cons.IH isolated_send [OF _ _ assms(2)])
qed simp

lemma isolated_register:
  assumes "isolated codec secret evs s" and "fmlookup (rs_conns s) c = Some k" and "rn_bound k = Some (room, peer)"
  shows "isolated codec secret evs (s\<lparr>rs_rooms := fmupd room (fmupd peer c (room_members room s)) (rs_rooms s)\<rparr>)"
  using assms unfolding isolated_def by auto

lemma set_conn_rooms: "set_conn c k (s\<lparr>rs_rooms := r\<rparr>) = (set_conn c k s)\<lparr>rs_rooms := r\<rparr>"
  by (simp add: set_conn_def)

lemma authorize_binds:
  assumes "relay_authorize codec (AuthToken secret) frame bound = Some bound'"
  shows "bound' = Some (rf_room frame, rf_from frame)" "bound \<noteq> None \<Longrightarrow> bound' = bound"
    "bound = None \<Longrightarrow> \<exists>p. rf_join frame = Some p \<and>
      rj_token_proof p = room_token_proof (rc_sha256 codec) secret (rf_room frame)"
  using assms by (auto simp: relay_authorize_def split: option.splits if_splits)

lemma conn_ok_phase:
  assumes "conn_ok codec secret evs c k" and "rn_bound k = Some (rf_room f, rf_from f)"
    and "of_room codec evs (rf_room f) b"
  shows "conn_ok codec secret evs c (k\<lparr>rn_joined := j, rn_phase := Persisting f b\<rparr>)"
    "conn_ok codec secret evs c (k\<lparr>rn_phase := Forwarding f b\<rparr>)"
  using assms by (simp_all add: conn_ok_def)

lemma conn_ok_idle:
  assumes "conn_ok codec secret evs c k" and "\<And>f b. ph \<noteq> Persisting f b" and "\<And>f b. ph \<noteq> Forwarding f b"
    and "\<And>f xs. ph = Replying f xs \<Longrightarrow> rn_bound k = Some (rf_room f, rf_from f)"
  shows "conn_ok codec secret evs c (k\<lparr>rn_joined := j, rn_phase := ph\<rparr>)"
    "conn_ok codec secret evs c (k\<lparr>rn_phase := ph\<rparr>)"
  using assms by (auto simp: conn_ok_def split: relay_phase.splits)

lemma isolated_join:
  assumes iso: "isolated codec secret evs s" and k0: "fmlookup (rs_conns s) c = Some k0"
    and k: "conn_ok codec secret evs c k" "rn_bound k = Some (rf_room f, rf_from f)"
    and bound: "rn_bound k0 = None \<or> rn_bound k = rn_bound k0"
    and b: "of_room codec evs (rf_room f) b"
  shows "isolated codec secret evs (relay_join c k f b s)"
proof -
  let ?m = "room_members (rf_room f) s"
  have full: "isolated codec secret evs (set_conn c (k\<lparr>rn_phase := Leaving\<rparr>)
      (s\<lparr>rs_rooms := fmupd (rf_room f) ?m (rs_rooms s)\<rparr>))"
    using bound k0 by (intro isolated_set_conn isolated_cong [OF iso] conn_ok_idle [OF k(1)]) auto
  have "isolated codec secret evs (set_conn c (k\<lparr>rn_joined := j, rn_phase := ph\<rparr>)
      (s\<lparr>rs_rooms := fmupd (rf_room f) (fmupd (rf_from f) c ?m) (rs_rooms s)\<rparr>))"
    if "ph = Persisting f b \<or> ph = Reading" for j ph
  proof -
    have ok: "conn_ok codec secret evs c (k\<lparr>rn_joined := j, rn_phase := ph\<rparr>)"
      using that conn_ok_phase(1) [OF k b] conn_ok_idle(1) [OF k(1), of Reading] by auto
    have "isolated codec secret evs (set_conn c (k\<lparr>rn_joined := j, rn_phase := ph\<rparr>) s)"
      using bound k0 by (intro isolated_set_conn [OF iso ok]) simp
    from isolated_register [OF this, of c "k\<lparr>rn_joined := j, rn_phase := ph\<rparr>" "rf_room f" "rf_from f"] k(2)
    show ?thesis by (simp add: set_conn_rooms)
  qed
  with full show ?thesis
    by (auto simp: relay_join_def Let_def split: sync_message.split sum.split)
qed

lemma isolated_receive:
  assumes iso: "isolated codec secret evs s" and auth: "rs_auth s = AuthToken secret"
    and k: "fmlookup (rs_conns s) c = Some k" "rn_phase k = Reading" and ev: "Received c bytes granted \<in> set evs"
  shows "isolated codec secret evs (relay_receive codec c k bytes granted s)"
proof -
  note ok = isolated_conn [OF iso k(1)]
  have leave: "isolated codec secret evs (set_conn c (k\<lparr>rn_phase := Leaving\<rparr>) s)"
    using k(1) by (intro isolated_set_conn [OF iso] conn_ok_idle [OF ok]) simp_all
  have "isolated codec secret evs (relay_join c (k\<lparr>rn_bound := bound\<rparr>) f bytes s)"
    if f: "decode_message (rc_decode codec) bytes = Inr f" and granted
      and a: "relay_authorize codec (AuthToken secret) f (rn_bound k) = Some bound" for f bound
  proof -
    have ev': "Received c bytes True \<in> set evs" using ev \<open>granted\<close> by simp
    note bd = authorize_binds [OF a]
    have "conn_ok codec secret evs c (k\<lparr>rn_bound := bound\<rparr>)"
    proof (cases "rn_bound k")
      case None
      then have "rn_sent k = []" using ok by (cases "rn_sent k") (auto simp: conn_ok_def)
      moreover have "admitted codec secret evs c (rf_room f) (rf_from f)"
        using bd(3) [OF None] f ev' unfolding admitted_def by blast
      ultimately show ?thesis using bd(1) k(2) by (simp add: conn_ok_def)
    next
      case (Some b)
      then have "k\<lparr>rn_bound := bound\<rparr> = k" using bd(2) by simp
      then show ?thesis using ok by simp
    qed
    moreover have "of_room codec evs (rf_room f) bytes" using f ev' unfolding of_room_def by blast
    moreover have "rn_bound k = None \<or> bound = rn_bound k" using bd(2) by blast
    ultimately show ?thesis using bd(1) by (intro isolated_join [OF iso k(1)]) simp_all
  qed
  with leave iso auth show ?thesis by (auto simp: relay_receive_def split: sum.split option.split)
qed

lemma isolated_advance:
  assumes iso: "isolated codec secret evs s" and k: "fmlookup (rs_conns s) c = Some k"
  shows "isolated codec secret evs (relay_step codec (Advanced c) s)"
proof -
  note ok = isolated_conn [OF iso k]
  have set: "isolated codec secret evs (set_conn c k' s)"
    if "conn_ok codec secret evs c k'" "rn_bound k' = rn_bound k" for k'
    using that k by (intro isolated_set_conn [OF iso]) simp_all
  have idle: "isolated codec secret evs (set_conn c (k\<lparr>rn_phase := Reading\<rparr>) s)"
    by (intro set conn_ok_idle [OF ok]) simp_all
  show ?thesis
  proof (cases "rn_phase k")
    case (Persisting f b)
    then have f: "rn_bound k = Some (rf_room f, rf_from f)" "of_room codec evs (rf_room f) b"
      using ok by (simp_all add: conn_ok_def)
    have fwd: "isolated codec secret evs (set_conn c (k\<lparr>rn_phase := Forwarding f b\<rparr>) s)"
      by (intro set conn_ok_phase(2) [OF ok f]) simp_all
    have rep: "isolated codec secret evs (set_conn c (k\<lparr>rn_phase := Replying f xs\<rparr>) s)" for xs
      using f(1) by (intro set conn_ok_idle [OF ok]) simp_all
    have "isolated codec secret evs (set_conn c (k\<lparr>rn_phase := Forwarding f b\<rparr>) (s\<lparr>rs_store := st\<rparr>))" for st
      by (rule isolated_cong [OF fwd]) simp_all
    with fwd rep Persisting k show ?thesis
      by (auto simp: relay_persist_def Let_def split: sync_message.split)
  next
    case (Replying f xs)
    then have "rn_bound k = Some (rf_room f, rf_from f)" using ok by (simp add: conn_ok_def)
    moreover have "of_room codec evs (rf_room f) b" if "rc_encode codec (relay_snapshot_frame f xs) = Inr b" for b
      using that by (auto simp: of_room_def relay_snapshot_frame_def)
    ultimately show ?thesis using Replying k idle
      by (auto simp: relay_reply_def Let_def split: sum.split option.split intro!: isolated_send)
  next
    case (Forwarding f b)
    then have f: "of_room codec evs (rf_room f) b" using ok by (simp add: conn_ok_def)
    show ?thesis using Forwarding k idle f
      by (auto simp: relay_forward_alt set_btree_entries split: option.split intro!: isolated_send isolated_fan_out)
  next
    case Leaving
    have gone: "isolated codec secret evs (set_conn c (k\<lparr>rn_phase := Gone\<rparr>) s)"
      by (intro set conn_ok_idle [OF ok]) simp_all
    have rest: "isolated codec secret evs (set_conn c (k\<lparr>rn_joined := j\<rparr>) s)" for j
      using Leaving ok by (intro set) (simp_all add: conn_ok_def)
    have "isolated codec secret evs (set_conn c (k\<lparr>rn_joined := j\<rparr>)
        (s\<lparr>rs_rooms := fmupd room (fmdrop peer m) (rs_rooms s)\<rparr>))"
      if "fmlookup (rs_rooms s) room = Some m" for room peer m j
      using rest [of j] that unfolding isolated_def by (auto simp: room_members_def split: if_splits)
    with gone rest Leaving k show ?thesis by (auto simp: relay_leave_def split: list.split option.split)
  qed (use iso k in simp_all)
qed

lemma isolated_step:
  assumes iso: "isolated codec secret evs s" and auth: "rs_auth s = AuthToken secret" and ev: "ev \<in> set evs"
  shows "isolated codec secret evs (relay_step codec ev s)"
proof (cases ev)
  case (Accepted c)
  have "conn_ok codec secret evs c \<lparr>rn_phase = Reading, rn_joined = [], rn_bound = None, rn_sent = []\<rparr>"
    by (simp add: conn_ok_def)
  then show ?thesis using iso Accepted
    by (auto simp: contains_key_iff intro!: isolated_set_conn)
next
  case (HungUp c)
  show ?thesis
  proof (cases "fmlookup (rs_conns s) c")
    case (Some k)
    then have "isolated codec secret evs (set_conn c (k\<lparr>rn_phase := Leaving\<rparr>) s)"
      using isolated_conn [OF iso Some] by (intro isolated_set_conn [OF iso] conn_ok_idle) simp_all
    with iso HungUp Some show ?thesis by simp
  qed (use iso HungUp in simp)
next
  case (Received c bytes granted)
  then show ?thesis using iso ev isolated_receive [OF iso auth] by (auto split: option.split)
next
  case (Advanced c)
  then show ?thesis using iso isolated_advance [OF iso, of c]
    by (cases "fmlookup (rs_conns s) c") simp_all
qed

text \<open>Claim C25. Token admission isolates rooms: whatever frames arrive and however the
  connections interleave, bytes are only ever written to a connection on which a valid
  token proof for a room arrived, and they are a frame for that room or a reply the server
  encoded for it.\<close>

theorem token_rooms_isolated:
  assumes "fmlookup (rs_conns (relay_run codec evs (relay_serve_full limits (AuthToken secret) store))) c = Some k"
    and "b \<in> set (rn_sent k)"
  shows "\<exists>room peer. admitted codec secret evs c room peer \<and> of_room codec evs room b"
proof -
  have "isolated codec secret evs (relay_run codec evs (relay_serve_full limits (AuthToken secret) store))"
  proof (induction evs rule: rev_induct)
    case Nil
    show ?case by (simp add: isolated_def relay_serve_full_def room_members_def)
  next
    case (snoc ev evs)
    then have "isolated codec secret (evs @ [ev]) (relay_run codec evs (relay_serve_full limits (AuthToken secret) store))"
      by (rule isolated_mono) auto
    then show ?case by (simp add: relay_run_snoc isolated_step relay_serve_full_def)
  qed
  from isolated_conn [OF this assms(1)] assms(2) show ?thesis by (fastforce simp: conn_ok_def)
qed

text \<open>A codec for a few frames and operations, and a client that asks for its own echo.\<close>

definition example_codec_of :: "relay_frame list \<Rightarrow> tagged_operation list \<Rightarrow> relay_codec" where
  "example_codec_of fs xs = \<lparr>rc_decode = one_byte_decode fs, rc_encode = one_byte_encode fs,
     rc_decode_op = one_byte_decode xs, rc_encode_op = one_byte_encode xs, rc_sha256 = example_hash\<rparr>"

definition echo_frame :: relay_frame where
  "echo_frame = \<lparr>rf_room = ''a'', rf_from = PeerId 1, rf_to = Some (PeerId 1), rf_message = MsgRequestSnapshot,
     rf_join = Some \<lparr>rj_peer_id = PeerId 1, rj_room = ''a'',
       rj_token_proof = room_token_proof example_hash ''s3cret'' ''a''\<rparr>\<rparr>"

theorem token_rooms_isolated_witness:
  "let evs = [Accepted 0, Received 0 [0] True, Advanced 0, Advanced 0];
       codec = example_codec_of [echo_frame] []
   in \<exists>room peer. admitted codec ''s3cret'' evs 0 room peer \<and> of_room codec evs room [0]"
proof -
  let ?evs = "[Accepted 0, Received 0 [0] True, Advanced 0, Advanced 0]"
  let ?codec = "example_codec_of [echo_frame] []"
  let ?s = "relay_run ?codec ?evs (relay_serve_full server_limits_default (AuthToken ''s3cret'') None)"
  have "\<exists>k. fmlookup (rs_conns ?s) 0 = Some k \<and> [0] \<in> set (rn_sent k)"
    by (simp add: relay_run_def relay_serve_full_def contains_key_iff set_conn_def relay_receive_def
        decode_message_def bounded_decode_def MAX_WIRE_MESSAGE_BYTES_def example_codec_of_def
        one_byte_decode_def relay_authorize_def echo_frame_def relay_join_def room_members_def
        server_limits_default_def relay_persist_def persisted_ops_def relay_forward_def relay_send_def)
  then obtain k where "fmlookup (rs_conns ?s) 0 = Some k" "[0] \<in> set (rn_sent k)" by blast
  from token_rooms_isolated [OF this] show ?thesis by (simp add: Let_def)
qed

section \<open>From the sender to the log, the members and a later joiner\<close>

text \<open>One frame handled without interruption.\<close>

definition handled :: "nat \<Rightarrow> u8 list \<Rightarrow> relay_event list" where
  "handled c b = [Received c b True, Advanced c, Advanced c]"

text \<open>A connection that is reading and registered for a peer of an open server's room.\<close>

definition member_conn :: "string \<Rightarrow> peer_id \<Rightarrow> nat \<Rightarrow> relay_server \<Rightarrow> bool" where
  "member_conn room peer c s \<longleftrightarrow> rs_auth s = AuthOpen \<and>
     fmlookup (room_members room s) peer = Some c \<and>
     (\<exists>k. fmlookup (rs_conns s) c = Some k \<and> rn_phase k = Reading)"

definition carries_op ::
  "relay_codec \<Rightarrow> string \<Rightarrow> peer_id \<Rightarrow> u8 list \<Rightarrow> tagged_operation \<Rightarrow> bool" where
  "carries_op codec room author b x \<longleftrightarrow>
     (\<exists>f. decode_message (rc_decode codec) b = Inr f \<and> rf_room f = room \<and> rf_from f = author \<and>
        rf_to f = None \<and> rf_message f = MsgOperation x) \<and> validate_operation (operation x) = Inr ()"

lemma fmupd_member [simp]: "fmlookup m p = Some c \<Longrightarrow> fmupd p c m = m"
  by (rule fmap_ext) auto

lemma receive_registered:
  assumes "member_conn room peer c s" and k: "fmlookup (rs_conns s) c = Some k"
    and "decode_message (rc_decode codec) b = Inr f" and "rf_room f = room" and "rf_from f = peer"
    and "case rf_message f of MsgOperation x \<Rightarrow> validate_operation (operation x) = Inr () | _ \<Rightarrow> True"
  shows "relay_step codec (Received c b True) s = set_conn c (k\<lparr>rn_phase := Persisting f b\<rparr>)
    (s\<lparr>rs_rooms := fmupd room (room_members room s) (rs_rooms s)\<rparr>)"
  using assms
  by (auto simp: member_conn_def relay_receive_def relay_authorize_def relay_join_def contains_key_iff Let_def
      split: sync_message.splits)

lemma set_conn_twice [simp]: "set_conn c k (set_conn c k' s) = set_conn c k s"
  by (simp add: set_conn_def)

lemma handled_op:
  assumes mem: "member_conn room author c s" and k: "fmlookup (rs_conns s) c = Some k"
    and op: "carries_op codec room author b x"
  shows "relay_run codec (handled c b) s =
    fan_out author b (btree_entries (room_members room s))
      (set_conn c (k\<lparr>rn_phase := Reading\<rparr>) (s\<lparr>rs_rooms := fmupd room (room_members room s) (rs_rooms s),
         rs_store := map_option (store_append_op (rc_encode_op codec) room x) (rs_store s)\<rparr>))"
proof -
  obtain f where f: "decode_message (rc_decode codec) b = Inr f" "rf_room f = room" "rf_from f = author"
    "rf_to f = None" "rf_message f = MsgOperation x" and v: "validate_operation (operation x) = Inr ()"
    using op unfolding carries_op_def by blast
  have "relay_step codec (Received c b True) s = set_conn c (k\<lparr>rn_phase := Persisting f b\<rparr>)
    (s\<lparr>rs_rooms := fmupd room (room_members room s) (rs_rooms s)\<rparr>)"
    by (rule receive_registered [OF mem k f(1-3)]) (simp add: f(5) v)
  then show ?thesis
    by (simp add: relay_run_def handled_def relay_persist_def relay_forward_alt f)
      (simp add: set_conn_def)
qed

text \<open>Claim C26. A published operation is stored once and fanned out: when a member of a
  room of an open server sends a valid operation, it is appended to the room's log, and
  every other connection that carries one member of the room is sent the frame exactly
  once.\<close>

theorem operation_stored_and_fanned_out:
  assumes "member_conn room author c s" and "carries_op codec room author b x"
    and "fmlookup (room_members room s) peer = Some d" and "peer \<noteq> author" and "d \<noteq> c"
    and "\<forall>q. fmlookup (room_members room s) q = Some d \<longrightarrow> q = peer"
    and "fmlookup (rs_conns s) d = Some kd" and "rn_phase kd \<noteq> Gone"
  shows "rs_store (relay_run codec (handled c b) s) =
      map_option (store_append_op (rc_encode_op codec) room x) (rs_store s) \<and>
    fmlookup (rs_conns (relay_run codec (handled c b) s)) d = Some (kd\<lparr>rn_sent := rn_sent kd @ [b]\<rparr>)"
proof -
  obtain k where k: "fmlookup (rs_conns s) c = Some k" using assms(1) by (auto simp: member_conn_def)
  let ?m = "room_members room s"
  have "(p \<noteq> author \<and> member = d) = ((p, member) = (peer, d))" if "(p, member) \<in> set (btree_entries ?m)" for p member
    using that assms(3,4,6) unfolding set_btree_entries prod.inject by blast
  then have "filter (\<lambda>(p, member). p \<noteq> author \<and> member = d) (btree_entries ?m) = filter (\<lambda>e. e = (peer, d)) (btree_entries ?m)"
    by (intro filter_cong) (auto simp del: prod.inject)
  moreover have "length (filter (\<lambda>e. e = (peer, d)) (btree_entries ?m)) = 1"
  proof -
    have "distinct (btree_entries ?m)" using distinct_map [of fst "btree_entries ?m"] by simp
    moreover have "(peer, d) \<in> set (btree_entries ?m)" using assms(3) by (simp add: set_btree_entries)
    moreover from this have "{e. e = (peer, d)} \<inter> set (btree_entries ?m) = {(peer, d)}" by blast
    ultimately show ?thesis by (simp only: distinct_length_filter) simp
  qed
  ultimately show ?thesis
    using assms(5,7,8) by (simp add: handled_op [OF assms(1) k assms(2)] fan_out_conns sent_more_def)
qed

text \<open>Two members of a room, and an operation one of them sends.\<close>

definition two_members :: relay_server where
  "two_members = \<lparr>rs_limits = server_limits_default, rs_auth = AuthOpen,
     rs_rooms = fmupd ''a'' (fmupd (PeerId 2) 1 (fmupd (PeerId 1) 0 fmempty)) fmempty,
     rs_conns = fmupd 0 \<lparr>rn_phase = Reading, rn_joined = [(''a'', PeerId 1)], rn_bound = None, rn_sent = []\<rparr>
       (fmupd 1 \<lparr>rn_phase = Reading, rn_joined = [(''a'', PeerId 2)], rn_bound = None, rn_sent = []\<rparr> fmempty),
     rs_store = Some (store_open fmempty)\<rparr>"

definition op_frame :: "tagged_operation \<Rightarrow> relay_frame" where
  "op_frame x = \<lparr>rf_room = ''a'', rf_from = PeerId 1, rf_to = None, rf_message = MsgOperation x, rf_join = None\<rparr>"

lemma two_members_conns:
  "member_conn ''a'' (PeerId 1) 0 two_members" "member_conn ''a'' (PeerId 2) 1 two_members"
  by (simp_all add: member_conn_def two_members_def room_members_def)

lemma one_byte_index:
  "n < length fs \<Longrightarrow> n < 256 \<Longrightarrow> decode_message (one_byte_decode fs) [of_nat n] = Inr (fs ! n)"
  by (simp add: decode_message_def bounded_decode_def MAX_WIRE_MESSAGE_BYTES_def one_byte_decode_def
      unat_of_nat take_bit_eq_mod)

theorem operation_stored_and_fanned_out_witness:
  "let codec = example_codec_of [op_frame (stored_op 1)] stored_ops;
       s = relay_run codec (handled 0 [0]) two_members
   in persisted_ops codec ''a'' s = [stored_op 1] \<and>
      (\<exists>k. fmlookup (rs_conns s) 1 = Some k \<and> rn_sent k = [[0]])"
proof -
  let ?codec = "example_codec_of [op_frame (stored_op 1)] stored_ops"
  let ?k = "\<lparr>rn_phase = Reading, rn_joined = [(''a'', PeerId 2)], rn_bound = None, rn_sent = []\<rparr>"
  have op: "carries_op ?codec ''a'' (PeerId 1) [0] (stored_op 1)"
    using one_byte_index [of 0 "[op_frame (stored_op 1)]"]
    by (simp add: carries_op_def example_codec_of_def op_frame_def stored_op_def)
  have members: "fmlookup (room_members ''a'' two_members) q = (if q = PeerId 2 then Some 1 else if q = PeerId 1 then Some 0 else None)"
    "fmlookup (rs_conns two_members) 1 = Some ?k" for q
    by (simp_all add: two_members_def room_members_def)
  have ok: "codec_ok (rc_encode_op ?codec) (rc_decode_op ?codec) [stored_op 1]"
    using one_byte_codec_ok by (auto simp: example_codec_of_def stored_ops_def codec_ok_def)
  have "rs_store (relay_run ?codec (handled 0 [0]) two_members) =
      map_option (store_append_op (rc_encode_op ?codec) ''a'' (stored_op 1)) (rs_store two_members) \<and>
    fmlookup (rs_conns (relay_run ?codec (handled 0 [0]) two_members)) 1 = Some (?k\<lparr>rn_sent := rn_sent ?k @ [[0]]\<rparr>)"
    by (rule operation_stored_and_fanned_out [OF two_members_conns(1) op _ _ _ _ members(2)])
      (simp_all add: members)
  moreover have "store_load_ops (rc_decode_op ?codec) (store_append_op (rc_encode_op ?codec) ''a'' (stored_op 1)
      (store_open fmempty)) ''a'' = [stored_op 1]"
    by (simp add: example_codec_of_def) code_simp
  ultimately show ?thesis by (simp add: Let_def persisted_ops_def two_members_def)
qed

section \<open>A late joiner\<close>

text \<open>What a published operation leaves as it was: the members, and which connections exist.\<close>

lemma member_conn_after:
  fixes s :: relay_server
  assumes "member_conn room author c s" and "carries_op codec room author b x"
  defines "t \<equiv> relay_run codec (handled c b) s"
  shows "member_conn room author c t"
    and "rs_store t = map_option (store_append_op (rc_encode_op codec) room x) (rs_store s)"
    and "room_members room t = room_members room s"
    and "fmlookup (rs_conns s) d = None \<Longrightarrow> fmlookup (rs_conns t) d = None"
proof -
  obtain k where k: "fmlookup (rs_conns s) c = Some k" "rs_auth s = AuthOpen"
    "fmlookup (room_members room s) author = Some c" using assms(1) by (auto simp: member_conn_def)
  note run = handled_op [OF assms(1) k(1) assms(2)]
  show members: "room_members room t = room_members room s"
    by (simp add: t_def run room_members_def)
  show "rs_store t = map_option (store_append_op (rc_encode_op codec) room x) (rs_store s)"
    by (simp add: t_def run)
  show "fmlookup (rs_conns s) d = None \<Longrightarrow> fmlookup (rs_conns t) d = None"
    using k(1) by (auto simp: t_def run fan_out_conns)
  show "member_conn room author c t"
    using k(2,3) members by (auto simp: t_def run member_conn_def fan_out_conns)
qed

lemma relay_run_append: "relay_run codec (xs @ ys) s = relay_run codec ys (relay_run codec xs s)"
  by (simp add: relay_run_def)

lemma publish_all:
  assumes "member_conn room author c s" and "list_all2 (carries_op codec room author) bs xs"
  shows "let t = relay_run codec (concat (map (handled c) bs)) s
    in room_members room t = room_members room s \<and>
      (fmlookup (rs_conns s) d = None \<longrightarrow> fmlookup (rs_conns t) d = None) \<and>
      rs_store t = map_option (fold (store_append_op (rc_encode_op codec) room) xs) (rs_store s)"
  using assms(2,1)
proof (induction arbitrary: s rule: list_all2_induct)
  case Nil
  then show ?case by (simp add: option.map_ident)
next
  case (Cons b bs x xs)
  note after = member_conn_after [OF Cons.prems Cons.hyps(1)]
  show ?case
    using Cons.IH [OF after(1)] after(3,4)
    by (simp add: relay_run_append after(2) Let_def option.map_comp comp_def)
qed

text \<open>A new connection whose first frame asks for a snapshot is registered and answered.\<close>

lemma handled_first_request:
  assumes open_server: "rs_auth s = AuthOpen" and new: "fmlookup (rs_conns s) d = None"
      "fmlookup (room_members room s) peer = None"
      "members_len (room_members room s) < sl_max_room_members (rs_limits s)"
    and f: "decode_message (rc_decode codec) b = Inr f" "rf_room f = room" "rf_from f = peer"
      "rf_message f = MsgRequestSnapshot"
    and stored: "persisted_ops codec room s = xs" "xs \<noteq> []"
    and reply: "rc_encode codec (relay_snapshot_frame f xs) = Inr r"
  shows "\<exists>k. fmlookup (rs_conns (relay_run codec (Accepted d # handled d b) s)) d = Some k \<and> rn_sent k = [r]"
proof -
  let ?k = "\<lparr>rn_phase = Reading, rn_joined = [], rn_bound = None, rn_sent = []\<rparr>"
  let ?s = "set_conn d (?k\<lparr>rn_joined := [(room, peer)], rn_phase := Persisting f b\<rparr>)
    (s\<lparr>rs_rooms := fmupd room (fmupd peer d (room_members room s)) (rs_rooms s)\<rparr>)"
  have "relay_step codec (Accepted d) s = set_conn d ?k s" using new(1) by (simp add: contains_key_iff)
  moreover have "relay_step codec (Received d b True) (set_conn d ?k s) = ?s"
    using open_server new(2,3) f
    by (simp add: relay_receive_def relay_authorize_def relay_join_def contains_key_iff Let_def)
  moreover have "persisted_ops codec room ?s = xs" using stored(1) by (simp add: persisted_ops_def)
  ultimately show ?thesis using stored(2)
    by (simp add: relay_run_def handled_def relay_persist_def f relay_reply_def reply relay_send_def Let_def)
qed

text \<open>Claim C27. A late joiner is brought up to date by the server alone. On an open server with a fresh
  unbounded store a member publishes at least one operation, all of them valid and together keeping the
  discipline of \<open>Session_Laws\<close>, with a codec that reads them back. Then a new connection is
  accepted, and its first frame, from a peer that is not in the room, while the room has space, asks
  for a snapshot. Each frame is granted by the rate limiter and handled before the next. Then
  the new connection has been sent one message, the snapshot of exactly those operations, and a
  replica built from that snapshot has the session of every replica that received them
  directly, in whatever order.\<close>

theorem late_joiner_catches_up:
  assumes "member_conn room author c s" and "rs_store s = Some (store_open fmempty)"
    and "list_all2 (carries_op codec room author) bs xs" and "xs \<noteq> []"
    and "codec_ok (rc_encode_op codec) (rc_decode_op codec) xs" and "deliverable xs"
    and "fmlookup (rs_conns s) d = None" and "fmlookup (room_members room s) joiner = None"
    and "members_len (room_members room s) < sl_max_room_members (rs_limits s)"
    and "decode_message (rc_decode codec) b = Inr f" and "rf_room f = room" and "rf_from f = joiner"
    and "rf_message f = MsgRequestSnapshot" and "rc_encode codec (relay_snapshot_frame f xs) = Inr r"
    and "set ys = set xs" and "apply_remote_all ys (timeline_new q) = Some e"
  shows "(\<exists>k. fmlookup (rs_conns (relay_run codec
        (concat (map (handled c) bs) @ Accepted d # handled d b) s)) d = Some k \<and> rn_sent k = [r]) \<and>
    (\<exists>t. from_snapshot (snapshot_from_ops xs) joiner = Some t \<and> tl_session t = tl_session e)"
proof
  let ?t = "relay_run codec (concat (map (handled c) bs)) s"
  have t: "room_members room ?t = room_members room s" "fmlookup (rs_conns ?t) d = None"
    "rs_store ?t = Some (fold (store_append_op (rc_encode_op codec) room) xs (store_open fmempty))"
    using publish_all [OF assms(1,3), of d] assms(2,7) by (simp_all add: Let_def)
  have "rs_auth ?t = AuthOpen" "rs_limits ?t = rs_limits s" using assms(1) by (simp_all add: member_conn_def)
  moreover have "persisted_ops codec room ?t = xs"
    using store_loads_log [OF assms(5), of _ room] t(3) by (simp add: persisted_ops_def)
  ultimately show "\<exists>k. fmlookup (rs_conns (relay_run codec
      (concat (map (handled c) bs) @ Accepted d # handled d b) s)) d = Some k \<and> rn_sent k = [r]"
    using handled_first_request [OF _ t(2) _ _ assms(10-13) _ assms(4,14)] assms(8,9) t(1)
    by (simp add: relay_run_append)
  have sorted: "set (sort_key op_rank xs) = set ys" by (simp add: assms(15))
  obtain t' where t': "apply_remote_all (sort_key op_rank xs) (timeline_new joiner) = Some t'"
    using deliver_to_new [of "sort_key op_rank xs" joiner] assms(6) by (auto simp: deliverable_def)
  have "deliverable (sort_key op_rank xs)" using assms(6) by (simp add: deliverable_def)
  from delivered_sessions_agree [OF this sorted t' assms(16)] t'
  show "\<exists>t. from_snapshot (snapshot_from_ops xs) joiner = Some t \<and> tl_session t = tl_session e"
    by (simp add: from_snapshot_def snapshot_from_ops_def)
qed

text \<open>One member publishes; the peer that joins later is in no room and has no connection before.\<close>

definition lone_member :: relay_server where
  "lone_member = \<lparr>rs_limits = server_limits_default, rs_auth = AuthOpen,
     rs_rooms = fmupd ''a'' (fmupd (PeerId 1) 0 fmempty) fmempty,
     rs_conns = fmupd 0 \<lparr>rn_phase = Reading, rn_joined = [(''a'', PeerId 1)], rn_bound = None, rn_sent = []\<rparr> fmempty,
     rs_store = Some (store_open fmempty)\<rparr>"

definition request_frame_of :: relay_frame where
  "request_frame_of = \<lparr>rf_room = ''a'', rf_from = PeerId 2, rf_to = None, rf_message = MsgRequestSnapshot, rf_join = None\<rparr>"

definition joiner_codec :: relay_codec where
  "joiner_codec = example_codec_of (map op_frame example_ops @
     [request_frame_of, relay_snapshot_frame request_frame_of example_ops]) example_ops"

lemma example_ops_carried:
  "list_all2 (carries_op joiner_codec ''a'' (PeerId 1)) [[0], [1], [2], [3]] example_ops"
proof -
  let ?fs = "map op_frame example_ops @ [request_frame_of, relay_snapshot_frame request_frame_of example_ops]"
  have len: "length ?fs = 6" by (simp add: example_ops_def)
  have "carries_op joiner_codec ''a'' (PeerId 1) [of_nat n] (example_ops ! n)" if "n < 4" for n
    using one_byte_index [of n ?fs] that len
    by (auto simp: carries_op_def joiner_codec_def example_codec_of_def op_frame_def nth_append example_ops_def
        example_op_def nth_Cons' validate_string_def MAX_STRING_BYTES_def track_data_new_def clip_data_new_def)
  from this [of 0] this [of 1] this [of 2] this [of 3] show ?thesis by (simp add: example_ops_def)
qed

theorem late_joiner_catches_up_witness:
  "\<exists>k. fmlookup (rs_conns (relay_run joiner_codec
      (concat (map (handled 0) [[0], [1], [2], [3]]) @ Accepted 1 # handled 1 [4]) lone_member)) 1 = Some k \<and>
    rn_sent k = [[5]]"
proof -
  let ?fs = "map op_frame example_ops @ [request_frame_of, relay_snapshot_frame request_frame_of example_ops]"
  have distinct: "distinct ?fs" and len: "length ?fs = 6"
    by (simp_all add: example_ops_def op_frame_def request_frame_of_def relay_snapshot_frame_def example_op_def)
  have request: "decode_message (rc_decode joiner_codec) [4] = Inr request_frame_of"
    using one_byte_index [of 4 ?fs] len
    by (simp add: joiner_codec_def example_codec_of_def nth_append example_ops_def)
  have reply: "rc_encode joiner_codec (relay_snapshot_frame request_frame_of example_ops) = Inr [5]"
    by (simp add: joiner_codec_def example_codec_of_def one_byte_encode_def example_ops_def op_frame_def
        request_frame_of_def relay_snapshot_frame_def)
  have codec: "codec_ok (rc_encode_op joiner_codec) (rc_decode_op joiner_codec) example_ops"
    by (simp add: joiner_codec_def example_codec_of_def codec_ok_def one_byte_encode_def one_byte_decode_def
        example_ops_def example_op_def)
  obtain e where "apply_remote_all example_ops (timeline_new (PeerId 7)) = Some e"
    using deliver_to_new [OF example_ops_deliverable] by blast
  have lone: "member_conn ''a'' (PeerId 1) 0 lone_member" "rs_store lone_member = Some (store_open fmempty)"
    "fmlookup (rs_conns lone_member) 1 = None" "fmlookup (room_members ''a'' lone_member) (PeerId 2) = None"
    "members_len (room_members ''a'' lone_member) < sl_max_room_members (rs_limits lone_member)"
    by (simp_all add: member_conn_def lone_member_def room_members_def server_limits_default_def)
  have f: "rf_room request_frame_of = ''a''" "rf_from request_frame_of = PeerId 2"
    "rf_message request_frame_of = MsgRequestSnapshot" by (simp_all add: request_frame_of_def)
  have "example_ops \<noteq> []" by (simp add: example_ops_def)
  from late_joiner_catches_up [OF lone(1,2) example_ops_carried this codec example_ops_deliverable lone(3-5)
      request f reply refl \<open>apply_remote_all example_ops (timeline_new (PeerId 7)) = Some e\<close>]
  show ?thesis by blast
qed

section \<open>A reconnecting peer\<close>

definition hello_a :: relay_frame where
  "hello_a = \<lparr>rf_room = ''a'', rf_from = PeerId 1, rf_to = Some (PeerId 2), rf_message = MsgClockSync (clock_sync_request (PeerId 1) 0),
     rf_join = None\<rparr>"

lemma handled_hello:
  assumes "rs_auth s = AuthOpen" and k: "fmlookup (rs_conns s) c = Some k" "rn_phase k = Reading"
    and "decode_message (rc_decode codec) b = Inr hello_a"
    and "fmlookup (room_members ''a'' s) (PeerId 2) = None"
    and "contains_key (room_members ''a'' s) (PeerId 1) \<or>
      members_len (room_members ''a'' s) < sl_max_room_members (rs_limits s)"
  shows "relay_run codec (handled c b) s =
    set_conn c (k\<lparr>rn_joined := (if contains_key (room_members ''a'' s) (PeerId 1) then rn_joined k
        else rn_joined k @ [(''a'', PeerId 1)])\<rparr>)
      (s\<lparr>rs_rooms := fmupd ''a'' (fmupd (PeerId 1) c (room_members ''a'' s)) (rs_rooms s)\<rparr>)"
proof -
  let ?j = "if contains_key (room_members ''a'' s) (PeerId 1) then rn_joined k else rn_joined k @ [(''a'', PeerId 1)]"
  have hello: "rf_room hello_a = ''a''" "rf_from hello_a = PeerId 1" "rf_to hello_a = Some (PeerId 2)"
    "rf_message hello_a = MsgClockSync (clock_sync_request (PeerId 1) 0)" by (simp_all add: hello_a_def)
  have "relay_step codec (Received c b True) s = set_conn c (k\<lparr>rn_joined := ?j, rn_phase := Persisting hello_a b\<rparr>)
      (s\<lparr>rs_rooms := fmupd ''a'' (fmupd (PeerId 1) c (room_members ''a'' s)) (rs_rooms s)\<rparr>)"
    using assms by (auto simp: relay_receive_def relay_authorize_def relay_join_def hello Let_def)
  moreover have "k\<lparr>rn_joined := ?j, rn_phase := Reading\<rparr> = k\<lparr>rn_joined := ?j\<rparr>" using k(2) by simp
  ultimately show ?thesis using assms(5)
    by (simp add: relay_run_def handled_def relay_persist_def relay_forward_alt hello)
qed

text \<open>A reconnecting peer drops out of its room: it speaks on a new connection
  before the old one is cleaned up; the new connection is not recorded as the one that
  joined, and the old one's cleanup removes the peer although its new connection is open.
  If the new connection closes first, the room keeps the peer with a dead channel.\<close>

theorem reconnect_drops_membership:
  "let run = (\<lambda>evs. relay_run (example_codec_of [hello_a] []) evs (relay_serve None));
       both = [Accepted 0] @ handled 0 [0] @ [Accepted 1] @ handled 1 [0];
       old_closed = run (both @ [HungUp 0, Advanced 0, Advanced 0]);
       new_closed = run (both @ [HungUp 1, Advanced 1])
   in fmlookup (room_members ''a'' (run both)) (PeerId 1) = Some 1 \<and>
      fmlookup (room_members ''a'' old_closed) (PeerId 1) = None \<and>
      map_option rn_phase (fmlookup (rs_conns old_closed) 1) = Some Reading \<and>
      fmlookup (room_members ''a'' new_closed) (PeerId 1) = Some 1 \<and>
      map_option rn_phase (fmlookup (rs_conns new_closed) 1) = Some Gone"
proof -
  let ?codec = "example_codec_of [hello_a] []"
  let ?conn = "\<lambda>j. \<lparr>rn_phase = Reading, rn_joined = j, rn_bound = None, rn_sent = []\<rparr>"
  let ?state = "\<lambda>rooms conns. \<lparr>rs_limits = server_limits_default, rs_auth = AuthOpen, rs_rooms = rooms,
    rs_conns = conns, rs_store = None\<rparr>"
  have decode: "decode_message (rc_decode ?codec) [0] = Inr hello_a"
    using one_byte_index [of 0 "[hello_a]"] by (simp add: example_codec_of_def)
  have start: "relay_step ?codec (Accepted 0) (relay_serve None) = ?state fmempty (fmupd 0 (?conn []) fmempty)"
    by (simp add: relay_serve_def relay_serve_with_limits_def relay_serve_full_def contains_key_iff set_conn_def)
  have first: "relay_run ?codec (handled 0 [0]) (?state fmempty (fmupd 0 (?conn []) fmempty)) =
      ?state (fmupd ''a'' (fmupd (PeerId 1) 0 fmempty) fmempty) (fmupd 0 (?conn [(''a'', PeerId 1)]) fmempty)"
    by (subst handled_hello [where k = "?conn []", OF _ _ _ decode])
      (simp_all add: room_members_def contains_key_iff set_conn_def server_limits_default_def)
  have second: "relay_run ?codec (handled 1 [0]) (?state (fmupd ''a'' (fmupd (PeerId 1) 0 fmempty) fmempty)
        (fmupd 1 (?conn []) (fmupd 0 (?conn [(''a'', PeerId 1)]) fmempty))) =
      ?state (fmupd ''a'' (fmupd (PeerId 1) 1 fmempty) fmempty)
        (fmupd 1 (?conn []) (fmupd 0 (?conn [(''a'', PeerId 1)]) fmempty))"
    by (subst handled_hello [where k = "?conn []", OF _ _ _ decode])
      (simp_all add: room_members_def contains_key_iff set_conn_def)
  have both: "relay_run ?codec ([Accepted 0] @ handled 0 [0] @ [Accepted 1] @ handled 1 [0]) (relay_serve None) =
      ?state (fmupd ''a'' (fmupd (PeerId 1) 1 fmempty) fmempty)
        (fmupd 1 (?conn []) (fmupd 0 (?conn [(''a'', PeerId 1)]) fmempty))"
  proof -
    have "relay_run ?codec [Accepted 0] (relay_serve None) = ?state fmempty (fmupd 0 (?conn []) fmempty)"
      using start by (simp add: relay_run_def)
    moreover have "relay_run ?codec [Accepted 1] (?state (fmupd ''a'' (fmupd (PeerId 1) 0 fmempty) fmempty)
          (fmupd 0 (?conn [(''a'', PeerId 1)]) fmempty)) =
        ?state (fmupd ''a'' (fmupd (PeerId 1) 0 fmempty) fmempty)
          (fmupd 1 (?conn []) (fmupd 0 (?conn [(''a'', PeerId 1)]) fmempty))"
      by (simp add: relay_run_def contains_key_iff set_conn_def)
    ultimately show ?thesis by (simp only: relay_run_append first second)
  qed
  show ?thesis unfolding Let_def relay_run_append [of _ "[Accepted 0] @ handled 0 [0] @ [Accepted 1] @ handled 1 [0]"] both
    by (simp add: relay_run_def relay_leave_def room_members_def set_conn_def)
qed

text \<open>A batch is forwarded, but neither validated nor stored.\<close>

lemma batch_not_stored:
  assumes "rf_message f = MsgBatch xs"
  shows "rs_store (relay_persist codec c k f b s) = rs_store s"
  using assms by (simp add: relay_persist_def)

end
