(* ===== verification/Signaling.thy ===== *)
theory Signaling
  imports Relay
begin

text \<open>
  The signaling server (\<open>tpt-av-sync-server/src/signaling.rs\<close>, \<open>serve_connection\<close>): rooms
  of peers that exchange WebRTC session descriptions as JSON text. A text message is
  handled in one critical section, so a step of the model is one message or the removal of
  one membership during cleanup; steps of any connections interleave. The JSON decoder,
  SHA-256 and the token bucket's decision are inputs. The lemmas bound the rooms, show who
  can receive under token admission, and that it does not restrict who can send.
\<close>

section \<open>Frames and state\<close>

datatype signal_payload =
    SigJoin (sig_token_proof: "u8 list option")
  | SigLeave
  | SigOffer string
  | SigAnswer string
  | SigIceCandidate string string

record signal_frame =
  sf_room :: string
  sf_from :: peer_id
  sf_to :: "peer_id option"
  sf_payload :: signal_payload

datatype signal_phase = SigServing | SigLeaving | SigGone

record signal_conn =
  sn_phase :: signal_phase
  sn_joined :: "(string \<times> peer_id) list"
  sn_sent :: "string list"

record signaling_server =
  sg_limits :: server_limits
  sg_auth :: room_auth
  sg_rooms :: "(string, (peer_id, nat) fmap) fmap"
  sg_conns :: "(nat, signal_conn) fmap"

definition signaling_serve_full :: "server_limits \<Rightarrow> room_auth \<Rightarrow> signaling_server" where
  "signaling_serve_full limits auth =
     \<lparr>sg_limits = limits, sg_auth = auth, sg_rooms = fmempty, sg_conns = fmempty\<rparr>"

definition signaling_serve_with_limits :: "server_limits \<Rightarrow> signaling_server" where
  "signaling_serve_with_limits limits = signaling_serve_full limits AuthOpen"

definition signaling_serve :: signaling_server where
  "signaling_serve = signaling_serve_with_limits server_limits_default"

definition signal_members :: "string \<Rightarrow> signaling_server \<Rightarrow> (peer_id, nat) fmap" where
  "signal_members room s = (case fmlookup (sg_rooms s) room of Some m \<Rightarrow> m | None \<Rightarrow> fmempty)"

section \<open>Steps\<close>

definition set_signal_conn :: "nat \<Rightarrow> signal_conn \<Rightarrow> signaling_server \<Rightarrow> signaling_server" where
  "set_signal_conn c k s = s\<lparr>sg_conns := fmupd c k (sg_conns s)\<rparr>"

definition signal_send :: "nat \<Rightarrow> string \<Rightarrow> signaling_server \<Rightarrow> signaling_server" where
  "signal_send c m s =
     (case fmlookup (sg_conns s) c of
        None \<Rightarrow> s
      | Some k \<Rightarrow> if sn_phase k = SigGone then s
                else set_signal_conn c (k\<lparr>sn_sent := sn_sent k @ [m]\<rparr>) s)"

text \<open>The join check: open rooms, or a proof under the room secret.\<close>

definition join_allowed :: "(u8 list \<Rightarrow> u8 list) \<Rightarrow> room_auth \<Rightarrow> string \<Rightarrow> u8 list option \<Rightarrow> bool" where
  "join_allowed sha256 auth room token_proof =
     (case auth of
        AuthOpen \<Rightarrow> True
      | AuthToken secret \<Rightarrow> (case token_proof of
            Some p \<Rightarrow> p = room_token_proof sha256 secret room | None \<Rightarrow> False))"

definition signal_join :: "nat \<Rightarrow> signal_conn \<Rightarrow> signal_frame \<Rightarrow> signaling_server \<Rightarrow> signaling_server" where
  "signal_join c k frame s =
     (let members = signal_members (sf_room frame) s;
          known = contains_key members (sf_from frame)
      in if \<not> known \<and> sl_max_room_members (sg_limits s) \<le> members_len members
         then set_signal_conn c (k\<lparr>sn_phase := SigLeaving\<rparr>)
           (s\<lparr>sg_rooms := fmupd (sf_room frame) members (sg_rooms s)\<rparr>)
         else set_signal_conn c (k\<lparr>sn_joined := sn_joined k @ [(sf_room frame, sf_from frame)]\<rparr>)
           (s\<lparr>sg_rooms := fmupd (sf_room frame) (fmupd (sf_from frame) c members) (sg_rooms s)\<rparr>))"

definition signal_fan_out ::
  "peer_id \<Rightarrow> string \<Rightarrow> (peer_id \<times> nat) list \<Rightarrow> signaling_server \<Rightarrow> signaling_server" where
  "signal_fan_out from m entries s =
     fold (\<lambda>(peer, member) s. if peer \<noteq> from then signal_send member m s else s) entries s"

definition signal_forward :: "signal_frame \<Rightarrow> string \<Rightarrow> signaling_server \<Rightarrow> signaling_server" where
  "signal_forward frame m s =
     (case sf_to frame of
        Some target \<Rightarrow>
          (case fmlookup (signal_members (sf_room frame) s) target of
             None \<Rightarrow> s | Some member \<Rightarrow> signal_send member m s)
      | None \<Rightarrow> signal_fan_out (sf_from frame) m (btree_entries (signal_members (sf_room frame) s)) s)"

definition signal_receive ::
  "(string \<Rightarrow> signal_frame result) \<Rightarrow> (u8 list \<Rightarrow> u8 list) \<Rightarrow> nat \<Rightarrow> signal_conn \<Rightarrow> string \<Rightarrow> bool \<Rightarrow>
   signaling_server \<Rightarrow> signaling_server" where
  "signal_receive decode sha256 c k m granted s =
     (if \<not> granted then set_signal_conn c (k\<lparr>sn_phase := SigLeaving\<rparr>) s
      else (case decode m of
          Inl _ \<Rightarrow> s
        | Inr frame \<Rightarrow>
            (case sf_payload frame of
               SigLeave \<Rightarrow> set_signal_conn c (k\<lparr>sn_phase := SigLeaving\<rparr>) s
             | SigJoin token_proof \<Rightarrow>
                 if join_allowed sha256 (sg_auth s) (sf_room frame) token_proof
                 then signal_join c k frame s
                 else set_signal_conn c (k\<lparr>sn_phase := SigLeaving\<rparr>) s
             | _ \<Rightarrow> signal_forward frame m s)))"

definition signal_leave :: "nat \<Rightarrow> signal_conn \<Rightarrow> signaling_server \<Rightarrow> signaling_server" where
  "signal_leave c k s =
     (case sn_joined k of
        [] \<Rightarrow> set_signal_conn c (k\<lparr>sn_phase := SigGone\<rparr>) s
      | (room, peer) # rest \<Rightarrow>
          set_signal_conn c (k\<lparr>sn_joined := rest\<rparr>)
            (case fmlookup (sg_rooms s) room of
               None \<Rightarrow> s
             | Some members \<Rightarrow> s\<lparr>sg_rooms := fmupd room (fmdrop peer members) (sg_rooms s)\<rparr>))"

datatype signal_event =
    SigAccepted nat
  | SigReceived nat string bool
  | SigHungUp nat
  | SigCleaned nat

fun signal_step ::
  "(string \<Rightarrow> signal_frame result) \<Rightarrow> (u8 list \<Rightarrow> u8 list) \<Rightarrow> signal_event \<Rightarrow> signaling_server \<Rightarrow> signaling_server" where
  "signal_step decode sha256 (SigAccepted c) s =
     (if contains_key (sg_conns s) c then s
      else set_signal_conn c \<lparr>sn_phase = SigServing, sn_joined = [], sn_sent = []\<rparr> s)"
| "signal_step decode sha256 (SigReceived c m granted) s =
     (case fmlookup (sg_conns s) c of
        None \<Rightarrow> s
      | Some k \<Rightarrow> if sn_phase k = SigServing then signal_receive decode sha256 c k m granted s else s)"
| "signal_step decode sha256 (SigHungUp c) s =
     (case fmlookup (sg_conns s) c of
        None \<Rightarrow> s
      | Some k \<Rightarrow> if sn_phase k = SigServing then set_signal_conn c (k\<lparr>sn_phase := SigLeaving\<rparr>) s else s)"
| "signal_step decode sha256 (SigCleaned c) s =
     (case fmlookup (sg_conns s) c of
        None \<Rightarrow> s
      | Some k \<Rightarrow> if sn_phase k = SigLeaving then signal_leave c k s else s)"

definition signal_run ::
  "(string \<Rightarrow> signal_frame result) \<Rightarrow> (u8 list \<Rightarrow> u8 list) \<Rightarrow> signal_event list \<Rightarrow> signaling_server \<Rightarrow> signaling_server" where
  "signal_run decode sha256 evs s = fold (signal_step decode sha256) evs s"

section \<open>The room cap\<close>

lemma set_signal_conn_fields [simp]:
  "sg_limits (set_signal_conn c k s) = sg_limits s" "sg_auth (set_signal_conn c k s) = sg_auth s"
  "sg_rooms (set_signal_conn c k s) = sg_rooms s" "sg_conns (set_signal_conn c k s) = fmupd c k (sg_conns s)"
  by (simp_all add: set_signal_conn_def)

lemma signal_send_fields [simp]:
  "sg_limits (signal_send c m s) = sg_limits s" "sg_auth (signal_send c m s) = sg_auth s"
  "sg_rooms (signal_send c m s) = sg_rooms s"
  by (simp_all add: signal_send_def split: option.split)

lemma signal_fan_out_fields [simp]:
  "sg_limits (signal_fan_out p m es s) = sg_limits s" "sg_auth (signal_fan_out p m es s) = sg_auth s"
  "sg_rooms (signal_fan_out p m es s) = sg_rooms s"
  by (induction es arbitrary: s) (auto simp: signal_fan_out_def)

lemma signal_forward_fields [simp]:
  "sg_limits (signal_forward f m s) = sg_limits s" "sg_auth (signal_forward f m s) = sg_auth s"
  "sg_rooms (signal_forward f m s) = sg_rooms s"
  by (simp_all add: signal_forward_def split: option.split)

lemma signal_members_cong: "sg_rooms t = sg_rooms s \<Longrightarrow> signal_members room t = signal_members room s"
  by (simp add: signal_members_def)

lemma signal_members_simps [simp]:
  "signal_members room (set_signal_conn c k s) = signal_members room s"
  "signal_members room (signal_send c m s) = signal_members room s"
  "signal_members room (signal_fan_out p m es s) = signal_members room s"
  "signal_members room (signal_forward f m s) = signal_members room s"
  "signal_members room (s\<lparr>sg_rooms := fmupd q ms (sg_rooms s)\<rparr>) = (if room = q then ms else signal_members room s)"
  by (simp_all add: signal_members_def)

lemma signal_step_config [simp]:
  "sg_limits (signal_step decode sha256 ev s) = sg_limits s" "sg_auth (signal_step decode sha256 ev s) = sg_auth s"
  by (cases ev; simp add: signal_receive_def signal_join_def signal_leave_def Let_def
      split: option.split sum.split signal_payload.split list.split)+

lemma signal_leave_members:
  "signal_members room (signal_leave c k s) = signal_members room s \<or>
    (\<exists>p. signal_members room (signal_leave c k s) = fmdrop p (signal_members room s))"
proof -
  have "signal_members r s = m" if "fmlookup (sg_rooms s) r = Some m" for r m
    using that by (simp add: signal_members_def)
  then show ?thesis by (auto simp: signal_leave_def split: list.split option.split)
qed

lemma signal_step_size:
  "members_len (signal_members room (signal_step decode sha256 ev s)) \<le>
    max (members_len (signal_members room s)) (sl_max_room_members (sg_limits s))"
proof (cases ev)
  case (SigReceived c m granted)
  then show ?thesis
    by (auto simp: signal_receive_def signal_join_def Let_def split: option.split sum.split signal_payload.split)
next
  case (SigCleaned c)
  have "members_len (signal_members room (signal_leave c k s)) \<le> members_len (signal_members room s)" for k
    using signal_leave_members [of room c k s] members_len_drop by fastforce
  with SigCleaned show ?thesis by (auto simp: le_max_iff_disj split: option.split)
qed (auto split: option.split)

interpretation signal_rooms: capped_rooms "signal_step decode sha256"
    "\<lambda>room s. members_len (signal_members room s)" "\<lambda>s. sl_max_room_members (sg_limits s)"
  for decode sha256
  by unfold_locales (simp_all only: signal_step_config signal_step_size)

lemma signaling_rooms_bounded:
  "members_len (signal_members room (signal_run decode sha256 evs (signaling_serve_full limits auth)))
    \<le> sl_max_room_members limits"
  using signal_rooms.run_capped [of room "signaling_serve_full limits auth" decode sha256 evs]
  by (simp add: signal_run_def signaling_serve_full_def signal_members_def)

section \<open>Who receives under token admission\<close>

definition signal_admitted ::
  "(string \<Rightarrow> signal_frame result) \<Rightarrow> (u8 list \<Rightarrow> u8 list) \<Rightarrow> string \<Rightarrow> signal_event list \<Rightarrow> nat \<Rightarrow> string \<Rightarrow> bool" where
  "signal_admitted decode sha256 secret evs c room \<longleftrightarrow>
     (\<exists>m f. SigReceived c m True \<in> set evs \<and> decode m = Inr f \<and> sf_room f = room \<and>
        sf_payload f = SigJoin (Some (room_token_proof sha256 secret room)))"

definition signal_ok ::
  "(string \<Rightarrow> signal_frame result) \<Rightarrow> (u8 list \<Rightarrow> u8 list) \<Rightarrow> string \<Rightarrow> signal_event list \<Rightarrow> signaling_server \<Rightarrow> bool" where
  "signal_ok decode sha256 secret evs s \<longleftrightarrow>
     (\<forall>c k m. fmlookup (sg_conns s) c = Some k \<and> m \<in> set (sn_sent k) \<longrightarrow>
        (\<exists>f. decode m = Inr f \<and> signal_admitted decode sha256 secret evs c (sf_room f))) \<and>
     (\<forall>room p c. fmlookup (signal_members room s) p = Some c \<longrightarrow> signal_admitted decode sha256 secret evs c room)"

lemma signal_ok_mono:
  assumes "signal_ok decode sha256 secret evs s" and "set evs \<subseteq> set evs'"
  shows "signal_ok decode sha256 secret evs' s"
proof -
  have "signal_admitted decode sha256 secret evs c room \<Longrightarrow> signal_admitted decode sha256 secret evs' c room" for c room
    using assms(2) unfolding signal_admitted_def by blast
  with assms(1) show ?thesis unfolding signal_ok_def by meson
qed

lemma signal_ok_set_conn:
  assumes "signal_ok decode sha256 secret evs s"
    and "sn_sent k' = [] \<or> (\<exists>k. fmlookup (sg_conns s) c = Some k \<and> sn_sent k' = sn_sent k)"
  shows "signal_ok decode sha256 secret evs (set_signal_conn c k' s)"
  using assms unfolding signal_ok_def by auto

lemma signal_ok_send:
  assumes "signal_ok decode sha256 secret evs s" and "decode m = Inr f"
    and "fmlookup (signal_members (sf_room f) s) p = Some c"
  shows "signal_ok decode sha256 secret evs (signal_send c m s)"
  using assms unfolding signal_ok_def by (auto simp: signal_send_def split: option.split)

lemma signal_ok_fan_out:
  assumes "signal_ok decode sha256 secret evs s" and "decode m = Inr f"
    and "\<forall>(p, c) \<in> set es. fmlookup (signal_members (sf_room f) s) p = Some c"
  shows "signal_ok decode sha256 secret evs (signal_fan_out from m es s)"
  using assms(1,3)
proof (induction es arbitrary: s)
  case (Cons e es)
  obtain p c where e: "e = (p, c)" by force
  let ?s = "if p \<noteq> from then signal_send c m s else s"
  have "signal_ok decode sha256 secret evs ?s"
    using Cons.prems signal_ok_send [of decode sha256 secret evs s, OF _ assms(2), of p c] by (simp add: e)
  from Cons.IH [OF this] Cons.prems(2) show ?case by (simp add: e signal_fan_out_def)
qed (simp add: signal_fan_out_def)

lemma signal_ok_forward:
  assumes "signal_ok decode sha256 secret evs s" and "decode m = Inr f"
  shows "signal_ok decode sha256 secret evs (signal_forward f m s)"
  using assms by (auto simp: signal_forward_def set_btree_entries split: option.split
      intro: signal_ok_send signal_ok_fan_out)

lemma signal_ok_join:
  assumes ok: "signal_ok decode sha256 secret evs s" and k: "fmlookup (sg_conns s) c = Some k"
    and adm: "signal_admitted decode sha256 secret evs c (sf_room f)"
  shows "signal_ok decode sha256 secret evs (signal_join c k f s)"
proof -
  let ?m = "signal_members (sf_room f) s"
  have rooms: "signal_ok decode sha256 secret evs (s\<lparr>sg_rooms := fmupd (sf_room f) m (sg_rooms s)\<rparr>)"
    if "\<And>p d. fmlookup m p = Some d \<Longrightarrow> signal_admitted decode sha256 secret evs d (sf_room f)" for m
    using ok that unfolding signal_ok_def by auto
  have old: "fmlookup ?m p = Some d \<Longrightarrow> signal_admitted decode sha256 secret evs d (sf_room f)" for p d
    using ok unfolding signal_ok_def by blast
  then have "signal_ok decode sha256 secret evs (s\<lparr>sg_rooms := fmupd (sf_room f) (fmupd (sf_from f) c ?m) (sg_rooms s)\<rparr>)"
    using adm by (intro rooms) (auto split: if_splits)
  with rooms [of ?m] old k show ?thesis
    by (auto simp: signal_join_def Let_def intro!: signal_ok_set_conn)
qed

lemma signal_ok_leave:
  assumes ok: "signal_ok decode sha256 secret evs s" and k: "fmlookup (sg_conns s) c = Some k"
  shows "signal_ok decode sha256 secret evs (signal_leave c k s)"
proof -
  have "signal_ok decode sha256 secret evs (s\<lparr>sg_rooms := fmupd r (fmdrop p m) (sg_rooms s)\<rparr>)"
    if "fmlookup (sg_rooms s) r = Some m" for r p m
    using ok that unfolding signal_ok_def by (auto simp: signal_members_def split: if_splits)
  with ok k show ?thesis
    by (auto simp: signal_leave_def split: list.split option.split intro!: signal_ok_set_conn)
qed

lemma signal_ok_step:
  assumes ok: "signal_ok decode sha256 secret evs s" and auth: "sg_auth s = AuthToken secret" and ev: "ev \<in> set evs"
  shows "signal_ok decode sha256 secret evs (signal_step decode sha256 ev s)"
proof (cases ev)
  case (SigReceived c m granted)
  have adm: "signal_admitted decode sha256 secret evs c (sf_room f)"
    if "decode m = Inr f" "sf_payload f = SigJoin tp" "join_allowed sha256 (sg_auth s) (sf_room f) tp" granted for f tp
    using that ev SigReceived auth by (auto simp: signal_admitted_def join_allowed_def split: option.splits)
  have "signal_ok decode sha256 secret evs (signal_receive decode sha256 c k m granted s)"
    if k: "fmlookup (sg_conns s) c = Some k" for k
    using k ok by (auto simp: signal_receive_def split: sum.split signal_payload.split
        intro!: signal_ok_set_conn signal_ok_join signal_ok_forward adm)
  with SigReceived ok show ?thesis by (auto split: option.split)
next
  case (SigCleaned c)
  then show ?thesis using ok by (auto split: option.split intro: signal_ok_leave)
qed (use ok in \<open>auto split: option.split intro!: signal_ok_set_conn\<close>)

text \<open>Claim C30. Under token admission a text is only ever sent to a connection that joined
  the text's room with a valid proof, whatever messages arrive and however the
  connections interleave.\<close>

theorem token_signals_reach_admitted:
  assumes "fmlookup (sg_conns (signal_run decode sha256 evs (signaling_serve_full limits (AuthToken secret)))) c = Some k"
    and "m \<in> set (sn_sent k)"
  shows "\<exists>f. decode m = Inr f \<and> signal_admitted decode sha256 secret evs c (sf_room f)"
proof -
  have "signal_ok decode sha256 secret evs (signal_run decode sha256 evs (signaling_serve_full limits (AuthToken secret))) \<and>
    sg_auth (signal_run decode sha256 evs (signaling_serve_full limits (AuthToken secret))) = AuthToken secret"
  proof (induction evs rule: rev_induct)
    case Nil
    show ?case by (simp add: signal_run_def signal_ok_def signaling_serve_full_def signal_members_def)
  next
    case (snoc ev evs)
    then have "signal_ok decode sha256 secret (evs @ [ev])
        (signal_run decode sha256 evs (signaling_serve_full limits (AuthToken secret)))"
      by (auto intro: signal_ok_mono)
    with snoc show ?case by (simp add: signal_run_def signal_ok_step)
  qed
  with assms show ?thesis unfolding signal_ok_def by blast
qed

text \<open>Token admission does not restrict who sends: a connection that never joined
  and proved nothing can send an offer, answer or candidate to any member of any room,
  under any sender id; the server delivers it.\<close>

theorem stranger_can_signal:
  assumes "fmlookup (sg_conns s) c = Some k" and "sn_phase k = SigServing" and "c \<noteq> d"
    and "decode m = Inr \<lparr>sf_room = room, sf_from = anyone, sf_to = Some target, sf_payload = SigOffer sdp\<rparr>"
    and "fmlookup (signal_members room s) target = Some d"
    and "fmlookup (sg_conns s) d = Some kd" and "sn_phase kd \<noteq> SigGone"
  shows "fmlookup (sg_conns (signal_step decode sha256 (SigReceived c m True) s)) d =
    Some (kd\<lparr>sn_sent := sn_sent kd @ [m]\<rparr>)"
  using assms by (simp add: signal_receive_def signal_forward_def signal_send_def)

text \<open>Two rooms' worth of frames, decoded by name.\<close>

definition example_signals :: "string \<Rightarrow> signal_frame result" where
  "example_signals m =
     (if m = ''join'' then Inr \<lparr>sf_room = ''a'', sf_from = PeerId 1, sf_to = None,
        sf_payload = SigJoin (Some (room_token_proof example_hash ''s3cret'' ''a''))\<rparr>
      else if m = ''offer'' then Inr \<lparr>sf_room = ''a'', sf_from = PeerId 7, sf_to = Some (PeerId 1), sf_payload = SigOffer ''sdp''\<rparr>
      else Inl (sync_error_serialization ''unknown frame''))"

definition example_room :: signaling_server where
  "example_room = signal_run example_signals example_hash
     [SigAccepted 0, SigReceived 0 ''join'' True, SigAccepted 1]
     (signaling_serve_full server_limits_default (AuthToken ''s3cret''))"

lemma example_room_eq:
  "sg_conns example_room = fmupd 1 \<lparr>sn_phase = SigServing, sn_joined = [], sn_sent = []\<rparr>
     (fmupd 0 \<lparr>sn_phase = SigServing, sn_joined = [(''a'', PeerId 1)], sn_sent = []\<rparr> fmempty)"
  "signal_members ''a'' example_room = fmupd (PeerId 1) 0 fmempty"
  by (simp_all add: example_room_def signal_run_def signaling_serve_full_def contains_key_iff
      signal_receive_def example_signals_def join_allowed_def signal_join_def signal_members_def Let_def
      server_limits_default_def set_signal_conn_def)

theorem stranger_can_signal_witness:
  "fmlookup (sg_conns (signal_step example_signals example_hash (SigReceived 1 ''offer'' True) example_room)) 0 =
    Some \<lparr>sn_phase = SigServing, sn_joined = [(''a'', PeerId 1)], sn_sent = [''offer'']\<rparr>"
  using stranger_can_signal [of example_room 1 _ 0 example_signals "''offer''" "''a''" "PeerId 7" "PeerId 1" "''sdp''"]
  by (simp add: example_room_eq example_signals_def)

theorem token_signals_reach_admitted_witness:
  "signal_admitted example_signals example_hash ''s3cret''
     [SigAccepted 0, SigReceived 0 ''join'' True, SigAccepted 1, SigReceived 1 ''offer'' True] 0 ''a''"
proof -
  let ?evs = "[SigAccepted 0, SigReceived 0 ''join'' True, SigAccepted 1, SigReceived 1 ''offer'' True]"
  have run: "signal_run example_signals example_hash ?evs (signaling_serve_full server_limits_default (AuthToken ''s3cret'')) =
      signal_step example_signals example_hash (SigReceived 1 ''offer'' True) example_room"
    by (simp only: example_room_def signal_run_def fold.simps comp_apply id_apply)
  have "fmlookup (sg_conns (signal_run example_signals example_hash ?evs
      (signaling_serve_full server_limits_default (AuthToken ''s3cret'')))) 0 =
      Some \<lparr>sn_phase = SigServing, sn_joined = [(''a'', PeerId 1)], sn_sent = [''offer'']\<rparr>"
    unfolding run by (simp add: example_room_eq example_signals_def signal_receive_def signal_forward_def signal_send_def)
  from token_signals_reach_admitted [OF this, of "''offer''"] show ?thesis by (simp add: example_signals_def)
qed

end
