(* ===== verification/Token_Bucket.thy ===== *)
theory Token_Bucket
  imports Server_Limits Floats
begin

text \<open>
  The per-connection rate limiter (\<open>TokenBucket\<close> of \<open>tpt-av-sync-server/src/limits.rs\<close>)
  with its double arithmetic. An \<open>Instant\<close> is a number of nanoseconds; a difference is a
  duration, rendered by \<open>Duration::as_secs_f64\<close> as whole seconds plus nanoseconds over
  \<open>10 ^ 9\<close>. The lemmas show that at whole-second gaps the bucket computes exactly what a
  counter of integers does, and bound what it grants.
\<close>

section \<open>The bucket\<close>

record token_bucket =
  tb_tokens :: f64
  tb_capacity :: f64
  tb_refill_per_sec :: f64
  tb_last_refill :: int

definition bucket_new :: "u32 \<Rightarrow> u32 \<Rightarrow> int \<Rightarrow> token_bucket" where
  "bucket_new capacity refill_per_sec now =
     \<lparr>tb_tokens = f64_of_u32 capacity, tb_capacity = f64_of_u32 capacity,
      tb_refill_per_sec = f64_of_u32 refill_per_sec, tb_last_refill = now\<rparr>"

definition bucket_try_take :: "int \<Rightarrow> token_bucket \<Rightarrow> bool \<times> token_bucket" where
  "bucket_try_take now b =
     (let elapsed = max 0 (now - tb_last_refill b);
          tokens = f64_min (f64_add (tb_tokens b) (f64_mul (as_secs_f64 elapsed) (tb_refill_per_sec b)))
            (tb_capacity b);
          b = b\<lparr>tb_last_refill := now, tb_tokens := tokens\<rparr>
      in if f64_less_eq (f64_of_int 1) tokens
         then (True, b\<lparr>tb_tokens := f64_sub tokens (f64_of_int 1)\<rparr>)
         else (False, b))"

text \<open>The verdicts on frames arriving at these instants.\<close>

fun bucket_run :: "int list \<Rightarrow> token_bucket \<Rightarrow> bool list" where
  "bucket_run [] b = []"
| "bucket_run (now # ts) b = (case bucket_try_take now b of (granted, b) \<Rightarrow> granted # bucket_run ts b)"

section \<open>Refinement of an integer counter\<close>

text \<open>The specification: a counter of tokens, refilled at whole seconds.\<close>

definition counter_take :: "int \<Rightarrow> int \<Rightarrow> int \<Rightarrow> int \<Rightarrow> bool \<times> int" where
  "counter_take capacity refill seconds tokens =
     (let tokens = min (tokens + seconds * refill) capacity
      in if 1 \<le> tokens then (True, tokens - 1) else (False, tokens))"

fun counter_run :: "int \<Rightarrow> int \<Rightarrow> int \<Rightarrow> int list \<Rightarrow> int \<Rightarrow> bool list" where
  "counter_run capacity refill before [] tokens = []"
| "counter_run capacity refill before (now # ts) tokens =
     (case counter_take capacity refill ((now - before) div 10 ^ 9) tokens of
        (granted, tokens) \<Rightarrow> granted # counter_run capacity refill now ts tokens)"

text \<open>Instants a whole number of seconds apart, in order, no gap over \<open>2 ^ 20\<close> seconds.\<close>

fun whole_seconds :: "int \<Rightarrow> int list \<Rightarrow> bool" where
  "whole_seconds before [] = True"
| "whole_seconds before (now # ts) \<longleftrightarrow>
     before \<le> now \<and> now - before < 2 ^ 20 * 10 ^ 9 \<and> (now - before) mod 10 ^ 9 = 0 \<and> whole_seconds now ts"

definition bucket_rel :: "int \<Rightarrow> int \<Rightarrow> int \<Rightarrow> token_bucket \<Rightarrow> bool" where
  "bucket_rel capacity refill tokens b \<longleftrightarrow>
     tb_tokens b = f64_of_int tokens \<and> tb_capacity b = f64_of_int capacity \<and>
     tb_refill_per_sec b = f64_of_int refill \<and>
     0 \<le> tokens \<and> tokens \<le> capacity \<and> capacity < 2 ^ 32 \<and> 0 \<le> refill \<and> refill < 2 ^ 32"

lemma bucket_rel_new:
  "bucket_rel (uint capacity) (uint refill) (uint capacity) (bucket_new capacity refill now)"
  using uint_lt2p [of capacity] uint_lt2p [of refill]
  by (simp add: bucket_rel_def bucket_new_def f64_of_u32_def)

lemma bucket_take_counter:
  assumes "bucket_rel capacity refill tokens b" and "0 \<le> s" and "s < 2 ^ 20"
    and "now = tb_last_refill b + s * 10 ^ 9"
  shows "\<exists>b'. bucket_try_take now b = (fst (counter_take capacity refill s tokens), b') \<and>
    bucket_rel capacity refill (snd (counter_take capacity refill s tokens)) b' \<and> tb_last_refill b' = now"
proof -
  note rel = assms(1) [unfolded bucket_rel_def]
  have "s * refill \<le> 2 ^ 20 * 2 ^ 32" using rel assms(2,3) by (intro mult_mono) simp_all
  then have ref: "s * refill \<le> 2 ^ 52" by simp
  have nn: "0 \<le> s * refill" using rel assms(2) by simp
  let ?t = "min (tokens + s * refill) capacity"
  have small: "small s" "small refill" "small (s * refill)" "small tokens" "small (tokens + s * refill)"
    "small capacity" "small ?t" "small 1"
    using rel assms(2,3) ref nn by (auto simp: small_def)
  have elapsed: "max 0 (now - tb_last_refill b) = s * 10 ^ 9" using assms(2,4) by simp
  have secs: "as_secs_f64 (max 0 (now - tb_last_refill b)) = f64_of_int s"
    unfolding elapsed by (rule as_secs_whole [OF assms(2,3)])
  have "f64_min (f64_add (tb_tokens b) (f64_mul (as_secs_f64 (max 0 (now - tb_last_refill b)))
      (tb_refill_per_sec b))) (tb_capacity b) = f64_of_int ?t"
    using rel small assms(2) by (simp add: secs f64_of_int_ops f64_of_int_max_min)
  then show ?thesis using rel small nn
    by (auto simp: bucket_try_take_def Let_def counter_take_def bucket_rel_def f64_of_int_ops)
qed

lemma bucket_run_counter:
  "bucket_rel capacity refill tokens b \<Longrightarrow> whole_seconds (tb_last_refill b) ts \<Longrightarrow>
    bucket_run ts b = counter_run capacity refill (tb_last_refill b) ts tokens"
proof (induction ts arbitrary: tokens b)
  case (Cons now ts)
  let ?s = "(now - tb_last_refill b) div 10 ^ 9"
  have now: "now = tb_last_refill b + ?s * 10 ^ 9" and s: "0 \<le> ?s" "?s < 2 ^ 20"
    using Cons.prems(2) mult_div_mod_eq [of "10 ^ 9" "now - tb_last_refill b"] by (auto simp: algebra_simps)
  obtain b' where "bucket_try_take now b = (fst (counter_take capacity refill ?s tokens), b')"
    "bucket_rel capacity refill (snd (counter_take capacity refill ?s tokens)) b'" "tb_last_refill b' = now"
    using bucket_take_counter [OF Cons.prems(1) s now] by blast
  then show ?case using Cons.IH [of "snd (counter_take capacity refill ?s tokens)" b'] Cons.prems(2)
    by (simp add: case_prod_unfold)
qed simp

text \<open>Claim C31. The floating-point rate limiter decides exactly as a counter of integers: over
  frames whose gaps are whole seconds (of at most 12 days) a fresh bucket grants and refuses the
  same frames, for every burst and refill rate a configuration can hold.\<close>

theorem bucket_refines_counter:
  assumes "whole_seconds now ts"
  shows "bucket_run ts (bucket_new capacity refill now) =
    counter_run (uint capacity) (uint refill) now ts (uint capacity)"
  using bucket_run_counter [OF bucket_rel_new] assms by (simp add: bucket_new_def)

theorem bucket_refines_counter_witness:
  "bucket_run [0, 0, 0, 2 * 10 ^ 9] (bucket_new 2 1 0) = [True, True, False, True]"
  by (subst bucket_refines_counter) (simp_all add: counter_take_def)

section \<open>The rate it grants\<close>

lemma counter_run_bound:
  assumes "0 \<le> tokens" and "0 \<le> refill" and "0 \<le> capacity" and "whole_seconds before ts"
    and "\<forall>t \<in> set ts. t \<le> stop" and "before \<le> stop"
  shows "int (count_list (counter_run capacity refill before ts tokens) True) \<le>
    tokens + refill * ((stop - before) div 10 ^ 9)"
  using assms
proof (induction ts arbitrary: tokens before)
  case Nil
  then show ?case by (simp add: pos_imp_zdiv_nonneg_iff)
next
  case (Cons now ts)
  let ?s = "(now - before) div 10 ^ 9"
  let ?c = "counter_take capacity refill ?s tokens"
  have now: "now = before + ?s * 10 ^ 9" and s: "0 \<le> ?s"
    using Cons.prems(4) mult_div_mod_eq [of "10 ^ 9" "now - before"] by (auto simp: algebra_simps)
  have "stop - before = (stop - now) + ?s * 10 ^ 9" using now by simp
  then have split: "(stop - before) div 10 ^ 9 = (stop - now) div 10 ^ 9 + ?s"
    by (simp only: div_mult_self1) simp
  have nn: "0 \<le> snd ?c" using Cons.prems(1-3) s by (simp add: counter_take_def Let_def)
  have "now \<le> stop" "\<forall>t \<in> set ts. t \<le> stop" "whole_seconds now ts" using Cons.prems(4,5) by simp_all
  then have "int (count_list (counter_run capacity refill now ts (snd ?c)) True) \<le>
      snd ?c + refill * ((stop - now) div 10 ^ 9)"
    using Cons.IH [OF nn Cons.prems(2,3)] by blast
  moreover have "of_bool (fst ?c) + snd ?c \<le> tokens + ?s * refill"
    by (auto simp: counter_take_def Let_def)
  ultimately show ?case unfolding split
    by (cases "fst ?c") (simp_all add: case_prod_unfold algebra_simps)
qed

text \<open>A rate-limited connection gets at most its burst plus the refill rate times the
  elapsed seconds: no pattern of arrivals at whole-second gaps lets more frames through.\<close>

theorem bucket_rate_bounded:
  assumes "whole_seconds now ts" and "\<forall>t \<in> set ts. t \<le> stop" and "now \<le> stop"
  shows "int (count_list (bucket_run ts (bucket_new capacity refill now)) True) \<le>
    uint capacity + uint refill * ((stop - now) div 10 ^ 9)"
  using counter_run_bound [of "uint capacity" "uint refill" "uint capacity" now ts stop] assms
    bucket_run_counter [OF bucket_rel_new [of capacity refill now], of ts]
  by (simp add: bucket_new_def)

theorem bucket_rate_bounded_witness:
  "int (count_list (bucket_run [0, 0, 0, 10 ^ 9, 10 ^ 9] (bucket_new 2 1 0)) True) \<le> 3"
  using bucket_rate_bounded [of 0 "[0, 0, 0, 10 ^ 9, 10 ^ 9]" "10 ^ 9" 2 1] by simp

end
