(* ===== verification/Clock_Sync.thy ===== *)
theory Clock_Sync
  imports Message Floats
begin

text \<open>
  Clock synchronisation (\<open>tpt-av-sync-playhead/src/clock.rs\<close>, \<open>latency.rs\<close>, \<open>drift.rs\<close>) and
  the time helpers (\<open>tpt-av-sync-utils/src/time.rs\<close>). A clock reading is an argument. The
  lemmas show that the four-timestamp measurement is exact on timestamps of up to 51 bits,
  that its error is at most half the round trip, and which sample the synchronizer keeps.
\<close>

section \<open>The four-timestamp measurement\<close>

definition measure_sync :: "clock_sync_message \<Rightarrow> (f64 \<times> f64) option" where
  "measure_sync m =
     (case (cs_t2 m, cs_t3 m, cs_t4 m) of
        (Some t2, Some t3, Some t4) \<Rightarrow>
          let t1 = f64_of_u64 (cs_t1 m); t2 = f64_of_u64 t2; t3 = f64_of_u64 t3; t4 = f64_of_u64 t4;
              rtt = f64_sub (f64_sub t4 t1) (f64_sub t3 t2);
              offset = f64_div (f64_add (f64_sub t2 t1) (f64_sub t3 t4)) (f64_of_int 2)
          in Some (offset, f64_max rtt (f64_of_int 0))
      | _ \<Rightarrow> None)"

record clock_synchronizer =
  sy_best_rtt_ms :: f64
  sy_best_offset_ms :: f64
  sy_has_sample :: bool

definition synchronizer_new :: clock_synchronizer where
  "synchronizer_new =
     \<lparr>sy_best_rtt_ms = f64_infinity False, sy_best_offset_ms = f64_of_int 0, sy_has_sample = False\<rparr>"

definition observe :: "f64 \<Rightarrow> f64 \<Rightarrow> clock_synchronizer \<Rightarrow> clock_synchronizer" where
  "observe offset_ms rtt_ms s =
     (let s = if \<not> sy_has_sample s \<or> f64_less rtt_ms (sy_best_rtt_ms s)
              then s\<lparr>sy_best_rtt_ms := rtt_ms, sy_best_offset_ms := offset_ms\<rparr> else s
      in s\<lparr>sy_has_sample := True\<rparr>)"

definition process_response ::
  "clock_sync_message \<Rightarrow> u64 \<Rightarrow> clock_synchronizer \<Rightarrow> bool \<times> clock_synchronizer" where
  "process_response response now_ms s =
     (if cs_message_type response \<noteq> Response then (False, s)
      else
        let completed = if cs_t4 response \<noteq> None then response else clock_sync_with_t4 now_ms response
        in case measure_sync completed of
             Some (offset, rtt) \<Rightarrow> (True, observe offset rtt s)
           | None \<Rightarrow> (False, s))"

definition sync_to_local :: "clock_synchronizer \<Rightarrow> f64 \<Rightarrow> f64" where
  "sync_to_local s remote_ms = f64_sub remote_ms (sy_best_offset_ms s)"

definition sync_to_remote :: "clock_synchronizer \<Rightarrow> f64 \<Rightarrow> f64" where
  "sync_to_remote s local_ms = f64_add local_ms (sy_best_offset_ms s)"

section \<open>Latency and drift estimators\<close>

record latency_estimator =
  le_ewma_rtt_ms :: f64
  le_alpha :: f64
  le_samples :: u32

definition latency_new :: "f64 \<Rightarrow> latency_estimator" where
  "latency_new alpha =
     \<lparr>le_ewma_rtt_ms = f64_of_int 0, le_alpha = f64_clamp alpha (f64_of_int 0) (f64_of_int 1), le_samples = 0\<rparr>"

text \<open>The literals \<open>0.25\<close> and \<open>0.2\<close>.\<close>

definition latency_default :: latency_estimator where
  "latency_default = latency_new 0x3FD0000000000000"

definition on_rtt_sample :: "f64 \<Rightarrow> latency_estimator \<Rightarrow> latency_estimator" where
  "on_rtt_sample rtt_ms l =
     l\<lparr>le_ewma_rtt_ms :=
          (if le_samples l = 0 then rtt_ms
           else f64_add (le_ewma_rtt_ms l) (f64_mul (le_alpha l) (f64_sub rtt_ms (le_ewma_rtt_ms l)))),
       le_samples := sat_add (le_samples l) 1\<rparr>"

definition latency_one_way_ms :: "latency_estimator \<Rightarrow> f64" where
  "latency_one_way_ms l = f64_div (le_ewma_rtt_ms l) (f64_of_int 2)"

definition latency_compensate :: "latency_estimator \<Rightarrow> f64 \<Rightarrow> f64" where
  "latency_compensate l remote_event_ms = f64_sub remote_event_ms (f64_div (le_ewma_rtt_ms l) (f64_of_int 2))"

record drift_compensator =
  dc_last_offset_ms :: "f64 option"
  dc_last_time_ms :: "f64 option"
  dc_skew_ppm_ewma :: f64
  dc_alpha :: f64
  dc_rate_samples :: u32

definition drift_new :: "f64 \<Rightarrow> drift_compensator" where
  "drift_new alpha =
     \<lparr>dc_last_offset_ms = None, dc_last_time_ms = None, dc_skew_ppm_ewma = f64_of_int 0,
      dc_alpha = f64_clamp alpha (f64_of_int 0) (f64_of_int 1), dc_rate_samples = 0\<rparr>"

definition drift_default :: drift_compensator where
  "drift_default = drift_new 0x3FC999999999999A"

definition drift_rate_sample :: "f64 \<Rightarrow> drift_compensator \<Rightarrow> drift_compensator" where
  "drift_rate_sample ppm d =
     d\<lparr>dc_skew_ppm_ewma :=
          (if dc_rate_samples d = 0 then ppm
           else f64_add (dc_skew_ppm_ewma d) (f64_mul (dc_alpha d) (f64_sub ppm (dc_skew_ppm_ewma d)))),
       dc_rate_samples := sat_add (dc_rate_samples d) 1\<rparr>"

definition on_offset_sample :: "f64 \<Rightarrow> f64 \<Rightarrow> drift_compensator \<Rightarrow> drift_compensator" where
  "on_offset_sample offset_ms now_ms d =
     (let d = (case (dc_last_offset_ms d, dc_last_time_ms d) of
           (Some last_offset, Some last_time) \<Rightarrow>
             let dt = f64_sub now_ms last_time
             in if f64_less (f64_of_int 0) dt
                then
                  let ppm = f64_mul (f64_div (f64_sub offset_ms last_offset) dt) (f64_of_int 1000000)
                  in if f64_less (f64_abs ppm) (f64_of_int 10000) then drift_rate_sample ppm d else d
                else d
         | _ \<Rightarrow> d)
      in d\<lparr>dc_last_offset_ms := Some offset_ms, dc_last_time_ms := Some now_ms\<rparr>)"

definition correct_elapsed_ms :: "drift_compensator \<Rightarrow> f64 \<Rightarrow> f64" where
  "correct_elapsed_ms d local_elapsed_ms =
     f64_mul local_elapsed_ms
       (f64_add (f64_of_int 1) (f64_div (dc_skew_ppm_ewma d) (f64_of_int 1000000)))"

section \<open>Time helpers\<close>

text \<open>
  \<open>now_unix_ms\<close>: the time since the epoch in nanoseconds, 0 for a clock set before it. A
  monotonic clock is its start (nanoseconds) and an offset; \<open>now_ms\<close> adds without a check, so
  a debug build panics on overflow (\<open>None\<close>).
\<close>

definition now_unix_ms :: "int \<Rightarrow> u64" where
  "now_unix_ms since_epoch_ns = (if since_epoch_ns < 0 then 0 else word_of_int (since_epoch_ns div 10 ^ 6))"

record monotonic_clock =
  mc_start :: int
  mc_offset_ms :: u64

definition monotonic_now_ms :: "int \<Rightarrow> monotonic_clock \<Rightarrow> u64 option" where
  "monotonic_now_ms now c =
     (let elapsed = word_of_int (max 0 (now - mc_start c) div 10 ^ 6) :: u64
      in if unat (mc_offset_ms c) + unat elapsed < 2 ^ 64 then Some (mc_offset_ms c + elapsed) else None)"

definition monotonic_elapsed_since :: "int \<Rightarrow> u64 \<Rightarrow> monotonic_clock \<Rightarrow> u64 option" where
  "monotonic_elapsed_since now earlier c = map_option (\<lambda>n. sat_sub n earlier) (monotonic_now_ms now c)"

record network_time =
  nt_offset_ms :: f64
  nt_rtt_ms :: f64

definition network_to_local :: "network_time \<Rightarrow> f64 \<Rightarrow> f64" where
  "network_to_local t remote_ms = f64_sub remote_ms (nt_offset_ms t)"

definition network_to_remote :: "network_time \<Rightarrow> f64 \<Rightarrow> f64" where
  "network_to_remote t local_ms = f64_add local_ms (nt_offset_ms t)"

section \<open>The measurement is exact\<close>

lemma small_stamps:
  assumes "a < 2 ^ 51" and "b < 2 ^ 51" and "c < 2 ^ 51" and "d < 2 ^ 51"
    and "0 \<le> a" and "0 \<le> b" and "0 \<le> c" and "0 \<le> d"
  shows "small a" "small b" "small c" "small d" "small 0" "small (d - a)" "small (c - b)" "small (b - a)"
    "small (c - d)" "small ((d - a) - (c - b))" "small ((b - a) + (c - d))"
  using assms by (simp_all add: small_def abs_less_iff)

lemma measure_sync_exact:
  assumes "cs_t2 m = Some t2" and "cs_t3 m = Some t3" and "cs_t4 m = Some t4"
    and "\<forall>t \<in> {cs_t1 m, t2, t3, t4}. uint t < 2 ^ 51"
  shows "measure_sync m =
    Some (f64_of_dyadic ((uint t2 - uint (cs_t1 m)) + (uint t3 - uint t4)) (- 1),
          f64_of_int (max 0 ((uint t4 - uint (cs_t1 m)) - (uint t3 - uint t2))))"
proof -
  let ?t1 = "uint (cs_t1 m)" and ?t2 = "uint t2" and ?t3 = "uint t3" and ?t4 = "uint t4"
  have t: "0 \<le> ?t1" "0 \<le> ?t2" "0 \<le> ?t3" "0 \<le> ?t4" by simp_all
  have "?t1 < 2 ^ 51" "?t2 < 2 ^ 51" "?t3 < 2 ^ 51" "?t4 < 2 ^ 51" using assms(4) by simp_all
  note stamps = small_stamps [OF this t]
  show ?thesis using assms(1-3)
    by (simp add: measure_sync_def f64_of_u64_def f64_exact stamps max.commute)
qed

text \<open>
  One exchange on a network: the requester sends at \<open>t\<close> on its clock, the request takes
  \<open>there\<close> milliseconds, the responder's clock is \<open>skew\<close> ahead and stamps the answer, which
  takes \<open>back\<close> milliseconds and is processed on arrival.
\<close>

record exchange =
  ex_at :: int
  ex_there :: int
  ex_back :: int

definition exchange_ok :: "int \<Rightarrow> exchange \<Rightarrow> bool" where
  "exchange_ok skew x \<longleftrightarrow>
     0 \<le> ex_at x \<and> 0 \<le> ex_there x \<and> 0 \<le> ex_back x \<and>
     0 \<le> ex_at x + ex_there x + skew \<and> ex_at x + ex_there x + skew < 2 ^ 50 \<and>
     ex_at x + ex_there x + ex_back x < 2 ^ 50"

definition exchange_response :: "peer_id \<Rightarrow> int \<Rightarrow> exchange \<Rightarrow> clock_sync_message" where
  "exchange_response p skew x =
     clock_sync_respond (clock_sync_request p (word_of_int (ex_at x)))
       (word_of_int (ex_at x + ex_there x + skew))"

definition exchange_arrival :: "exchange \<Rightarrow> u64" where
  "exchange_arrival x = word_of_int (ex_at x + ex_there x + ex_back x)"

definition exchange_rtt :: "exchange \<Rightarrow> int" where
  "exchange_rtt x = ex_there x + ex_back x"

definition exchange_offset :: "int \<Rightarrow> exchange \<Rightarrow> f64" where
  "exchange_offset skew x = f64_of_dyadic (2 * skew + (ex_there x - ex_back x)) (- 1)"

lemma uint_small_u64: "0 \<le> n \<Longrightarrow> n < 2 ^ 51 \<Longrightarrow> uint (word_of_int n :: u64) = n"
  by (simp add: uint_word_of_int)

lemma small_exchange:
  "exchange_ok skew x \<Longrightarrow> small (exchange_rtt x) \<and> small (2 * skew + (ex_there x - ex_back x))"
  unfolding exchange_ok_def exchange_rtt_def small_def by auto

lemma process_exchange:
  assumes "exchange_ok skew x"
  shows "process_response (exchange_response p skew x) (exchange_arrival x) s =
    (True, observe (exchange_offset skew x) (f64_of_int (exchange_rtt x)) s)"
proof -
  let ?m = "clock_sync_with_t4 (exchange_arrival x) (exchange_response p skew x)"
  let ?b = "ex_at x + ex_there x + skew" and ?c = "ex_at x + ex_there x + ex_back x"
  have ok: "0 \<le> ex_at x" "ex_at x < 2 ^ 51" "0 \<le> ?b" "?b < 2 ^ 51" "0 \<le> ?c" "?c < 2 ^ 51"
    using assms by (auto simp: exchange_ok_def)
  have t: "cs_t1 ?m = word_of_int (ex_at x)" "cs_t2 ?m = Some (word_of_int ?b)"
    "cs_t3 ?m = Some (word_of_int ?b)" "cs_t4 ?m = Some (word_of_int ?c)"
    by (simp_all add: clock_sync_with_t4_def exchange_response_def clock_sync_respond_def
        clock_sync_request_def exchange_arrival_def)
  note u = uint_small_u64 [OF ok(1,2)] uint_small_u64 [OF ok(3,4)] uint_small_u64 [OF ok(5,6)]
  have "\<forall>w \<in> {cs_t1 ?m, word_of_int ?b, word_of_int ?b, word_of_int ?c}. uint w < 2 ^ 51"
    unfolding t(1) using u ok by (simp del: of_int_add)
  from measure_sync_exact [OF t(2-4) this]
  have "measure_sync ?m = Some (f64_of_dyadic (2 * skew + (ex_there x - ex_back x)) (- 1),
      f64_of_int (max 0 (ex_there x + ex_back x)))"
    unfolding t(1) u by (simp add: algebra_simps)
  moreover have "max 0 (ex_there x + ex_back x) = exchange_rtt x"
    using assms by (simp add: exchange_ok_def exchange_rtt_def)
  moreover have "cs_t4 (exchange_response p skew x) = None" "cs_message_type (exchange_response p skew x) = Response"
    by (simp_all add: exchange_response_def clock_sync_respond_def)
  ultimately show ?thesis by (simp add: process_response_def exchange_offset_def)
qed

section \<open>The accepted sample\<close>

lemma f64_less_trans: "f64_less a b \<Longrightarrow> f64_less b c \<Longrightarrow> f64_less a c"
  unfolding f64_less_def by linarith

lemma f64_less_not_less_trans: "f64_less a b \<Longrightarrow> \<not> f64_less c b \<Longrightarrow> \<not> f64_is_nan c \<Longrightarrow> f64_less a c"
  unfolding f64_less_def by linarith

definition keeps_sample :: "(f64 \<times> f64) list \<Rightarrow> (f64 \<times> f64) list \<Rightarrow> clock_synchronizer \<Rightarrow> bool" where
  "keeps_sample before after s \<longleftrightarrow>
     sy_has_sample s \<and> (\<forall>p \<in> set before. f64_less (sy_best_rtt_ms s) (snd p)) \<and>
     (\<forall>p \<in> set after. \<not> f64_less (snd p) (sy_best_rtt_ms s))"

definition observe_all :: "(f64 \<times> f64) list \<Rightarrow> clock_synchronizer \<Rightarrow> clock_synchronizer" where
  "observe_all = fold (\<lambda>(offset_ms, rtt_ms). observe offset_ms rtt_ms)"

lemma observe_all_keeps:
  assumes "samples \<noteq> []" and "\<forall>p \<in> set samples. \<not> f64_is_nan (snd p)"
  shows "\<exists>before after. let s = observe_all samples synchronizer_new
    in samples = before @ (sy_best_offset_ms s, sy_best_rtt_ms s) # after \<and> keeps_sample before after s"
  using assms
proof (induction samples rule: rev_induct)
  case (snoc p samples)
  obtain offset rtt where p: "p = (offset, rtt)" by (cases p)
  define s where "s = observe_all samples synchronizer_new"
  have step: "observe_all (samples @ [p]) synchronizer_new = observe offset rtt s"
    by (simp add: observe_all_def p s_def)
  show ?case
  proof (cases "samples = []")
    case True
    then show ?thesis unfolding step Let_def
      by (intro exI [of _ "[]"])
        (simp add: p s_def observe_all_def observe_def synchronizer_new_def keeps_sample_def f64_less_def)
  next
    case False
    then obtain before after where
      s: "samples = before @ (sy_best_offset_ms s, sy_best_rtt_ms s) # after" "keeps_sample before after s"
      using snoc.IH snoc.prems(2) unfolding s_def Let_def by auto
    show ?thesis
    proof (cases "f64_less rtt (sy_best_rtt_ms s)")
      case True
      have "\<forall>q \<in> set samples. f64_less rtt (snd q)"
      proof
        fix q assume "q \<in> set samples"
        then consider "q \<in> set before" | "snd q = sy_best_rtt_ms s" | "q \<in> set after" using s(1) by auto
        then show "f64_less rtt (snd q)"
        proof cases
          case 3
          then have "q \<in> set samples" by (subst s(1)) simp
          then have "\<not> f64_is_nan (snd q)" using snoc.prems(2) by simp
          then show ?thesis using f64_less_not_less_trans [OF True] s(2) 3 by (simp add: keeps_sample_def)
        qed (use True s(2) f64_less_trans [OF True] in \<open>auto simp: keeps_sample_def\<close>)
      qed
      then show ?thesis unfolding step Let_def
        by (intro exI [of _ samples] exI [of _ "[]"]) (simp add: observe_def True p keeps_sample_def)
    next
      case False
      then have "observe offset rtt s = s" using s(2) by (simp add: observe_def keeps_sample_def Let_def)
      then show ?thesis unfolding step Let_def using s(2) False
        by (intro exI [of _ before] exI [of _ "after @ [p]"])
          (auto simp: s(1) [symmetric] append_Cons [symmetric] append_assoc [symmetric] p keeps_sample_def
            simp del: append_assoc append_Cons)
    qed
  qed
qed simp

text \<open>The synchronizer accepts the sample with the lowest round trip, and the earliest of
  equals: every sample before it was slower, none after it was faster, and offset and round
  trip stay a pair. NaN round trips, which no response can produce, are excluded.\<close>

theorem keeps_first_lowest_rtt:
  assumes "samples \<noteq> []" and "\<forall>p \<in> set samples. \<not> f64_is_nan (snd p)"
  shows "\<exists>before after.
    samples = before @ (sy_best_offset_ms (observe_all samples synchronizer_new),
       sy_best_rtt_ms (observe_all samples synchronizer_new)) # after \<and>
    keeps_sample before after (observe_all samples synchronizer_new)"
  using observe_all_keeps [OF assms] by (simp add: Let_def)

theorem keeps_first_lowest_rtt_witness:
  "sy_best_offset_ms (observe_all [(f64_of_int 400, f64_of_int 50), (f64_of_int 250, f64_of_int 10),
    (f64_of_int 300, f64_of_int 40)] synchronizer_new) = f64_of_int 250"
proof -
  let ?samples = "[(f64_of_int 400, f64_of_int 50), (f64_of_int 250, f64_of_int 10), (f64_of_int 300, f64_of_int 40)]"
  have small: "small 50" "small 10" "small 40" by (simp_all add: small_def)
  then have "?samples \<noteq> []" "\<forall>p \<in> set ?samples. \<not> f64_is_nan (snd p)" by simp_all
  from keeps_first_lowest_rtt [OF this] show ?thesis
    using small by (auto simp: keeps_sample_def f64_of_int_ops Cons_eq_append_conv)
qed

section \<open>The error of the accepted offset\<close>

definition sync_run :: "peer_id \<Rightarrow> int \<Rightarrow> exchange list \<Rightarrow> clock_synchronizer \<Rightarrow> clock_synchronizer" where
  "sync_run p skew = fold (\<lambda>x s. snd (process_response (exchange_response p skew x) (exchange_arrival x) s))"

lemma sync_run_observe:
  "\<forall>x \<in> set xs. exchange_ok skew x \<Longrightarrow>
    sync_run p skew xs s = observe_all (map (\<lambda>x. (exchange_offset skew x, f64_of_int (exchange_rtt x))) xs) s"
  by (induction xs arbitrary: s) (simp_all add: sync_run_def observe_all_def process_exchange)

lemma exchange_values:
  assumes "exchange_ok skew x"
  shows "f64_val (exchange_offset skew x) = of_int skew + of_int (ex_there x - ex_back x) / 2"
    "f64_val (f64_of_int (exchange_rtt x)) = of_int (exchange_rtt x)"
  using small_exchange [OF assms] unfolding small_def exchange_offset_def f64_of_int_def
  by (simp_all add: dyadic_val add_divide_distrib)

text \<open>Claim C20. The classic guarantee of the exchange: whatever the delays in each direction, after
  any exchanges with a peer the accepted offset is off the true skew of the clocks by at most half the
  accepted round trip, and no exchange had a shorter round trip. Requests, answers and
  responses are the code's, with timestamps of up to 50 bits.\<close>

theorem offset_error_at_most_half_rtt:
  assumes "xs \<noteq> []" and "\<forall>x \<in> set xs. exchange_ok skew x"
  shows "\<bar>f64_val (sy_best_offset_ms (sync_run p skew xs synchronizer_new)) - of_int skew\<bar> \<le>
      f64_val (sy_best_rtt_ms (sync_run p skew xs synchronizer_new)) / 2 \<and>
    (\<forall>x \<in> set xs. f64_val (sy_best_rtt_ms (sync_run p skew xs synchronizer_new)) \<le> of_int (exchange_rtt x))"
proof -
  let ?f = "\<lambda>x. (exchange_offset skew x, f64_of_int (exchange_rtt x))"
  define s where "s = sync_run p skew xs synchronizer_new"
  have ok: "\<And>x. x \<in> set xs \<Longrightarrow> small (exchange_rtt x)" using assms(2) small_exchange by blast
  have s: "s = observe_all (map ?f xs) synchronizer_new" unfolding s_def by (rule sync_run_observe [OF assms(2)])
  have "map ?f xs \<noteq> []" "\<forall>p \<in> set (map ?f xs). \<not> f64_is_nan (snd p)" using assms(1) ok by auto
  from observe_all_keeps [OF this]
  obtain before after where split: "map ?f xs = before @ (sy_best_offset_ms s, sy_best_rtt_ms s) # after"
    and keeps: "keeps_sample before after s"
    by (auto simp: s Let_def)
  have "(sy_best_offset_ms s, sy_best_rtt_ms s) \<in> set (map ?f xs)" unfolding split by simp
  then obtain x where x: "x \<in> set xs" "sy_best_offset_ms s = exchange_offset skew x"
    "sy_best_rtt_ms s = f64_of_int (exchange_rtt x)" by auto
  have okx: "exchange_ok skew x" using assms(2) x(1) by blast
  have "\<bar>f64_val (sy_best_offset_ms s) - of_int skew\<bar> \<le> f64_val (sy_best_rtt_ms s) / 2"
    unfolding x(2,3) exchange_values [OF okx]
    using okx by (simp add: exchange_ok_def exchange_rtt_def abs_le_iff field_simps)
  moreover have "f64_val (sy_best_rtt_ms s) \<le> of_int (exchange_rtt y)" if "y \<in> set xs" for y
  proof -
    have "?f y \<in> set (map ?f xs)" using that by simp
    then consider "?f y \<in> set before \<union> set after" | "f64_of_int (exchange_rtt y) = sy_best_rtt_ms s"
      unfolding split by auto
    then have "\<not> f64_less (f64_of_int (exchange_rtt y)) (f64_of_int (exchange_rtt x))"
      using keeps ok x(1) that by cases (auto simp: keeps_sample_def x(3) f64_of_int_ops)
    then show ?thesis using ok [OF that] ok [OF x(1)] exchange_values(2) [OF okx] by (simp add: x(3) f64_of_int_ops)
  qed
  ultimately show ?thesis unfolding s_def by blast
qed

theorem offset_error_at_most_half_rtt_witness:
  "\<bar>f64_val (sy_best_offset_ms (sync_run (PeerId 1) 250 [\<lparr>ex_at = 100, ex_there = 25, ex_back = 5\<rparr>] synchronizer_new)) - 250\<bar> \<le> 15"
  using offset_error_at_most_half_rtt [of "[\<lparr>ex_at = 100, ex_there = 25, ex_back = 5\<rparr>]" 250 "PeerId 1"]
  by (simp add: exchange_ok_def exchange_rtt_def)

end
