(* ===== verification/Float_Rounding.thy ===== *)
theory Float_Rounding
  imports Floats
begin

text \<open>
  Rounding in a quotient: a dyadic number divided by an integer and then rounded to the
  nearest integer, both in double arithmetic, is the quotient of the exact numbers rounded
  to the nearest integer, as long as the dividend has at most 50 bits.
\<close>

section \<open>Half integers\<close>

lemma f64_round_half:
  assumes "small h" and "0 \<le> h"
  shows "f64_round_half_away (f64_of_dyadic h (- 1)) = f64_of_int ((h + 1) div 2)"
proof -
  obtain k where k: "f64_decode (f64_of_dyadic h (- 1)) = Finite False (h * 2 ^ k) (- 1 - int k)"
    using decode_dyadic [of h "- 1"] assms by (auto simp: small_def not_less)
  have nat: "nat (int k + 1) = Suc k" by simp
  have "(h * 2 ^ k + 2 ^ k) div 2 ^ Suc k = ((h + 1) * 2 ^ k) div (2 * 2 ^ k)" by (simp add: distrib_right)
  also have "\<dots> = (h + 1) div 2" by simp
  finally have "f64_round_half_away (f64_of_dyadic h (- 1)) = f64_round False ((h + 1) div 2) 0 False"
    by (simp add: f64_round_half_away_def k nat)
  then show ?thesis using assms(2) by (simp add: f64_of_int_def f64_of_dyadic_def)
qed

section \<open>An inexact rounding is at most one unit off\<close>

text \<open>What rounding needs of the error: \<open>y / w\<close> is so near \<open>n / b\<close> that no boundary lies between.\<close>

lemma nearest_of_near:
  fixes b w y n :: int
  assumes "m * b \<le> n * w" and "n * w < (m + 1) * b" and "\<bar>y - m\<bar> \<le> s" and "4 * s * b \<le> w"
    and "0 < b" and "1 \<le> s" and "0 < w" and "(2 * n + b) mod (2 * b) \<noteq> 0"
  defines "f \<equiv> (2 * n + b) div (2 * b)"
  shows "f * (2 * w) \<le> 2 * y + w" and "2 * y + w < (f + 1) * (2 * w)"
proof -
  have mod: "0 < (2 * n + b) mod (2 * b)" "(2 * n + b) mod (2 * b) < 2 * b"
    using assms(5,8) pos_mod_sign [of "2 * b" "2 * n + b"] by (auto intro: le_neq_trans)
  have eq: "2 * n + b = f * (2 * b) + (2 * n + b) mod (2 * b)"
    by (simp only: f_def div_mult_mod_eq)
  have "(f * (2 * b) + 1) * w \<le> (2 * n + b) * w" "(2 * n + b + 1) * w \<le> ((f + 1) * (2 * b)) * w"
    using eq mod assms(7) by (intro mult_right_mono; simp add: algebra_simps)+
  then have f: "f * (2 * w) * b + w \<le> 2 * (n * w) + w * b" "2 * (n * w) + w * b + w \<le> (f + 1) * (2 * w) * b"
    by (simp_all add: algebra_simps)
  have "(m - s) * b \<le> y * b" "y * b \<le> (m + s) * b" "1 * b \<le> s * b"
    using assms(3,5,6) by (intro mult_right_mono; linarith)+
  then have "2 * (n * w) - 4 * (s * b) < 2 * (y * b)" "2 * (y * b) < 2 * (n * w) + 4 * (s * b)"
    using assms(1,2,5) unfolding left_diff_distrib distrib_right by linarith+
  then have y: "2 * (n * w) - 4 * s * b < 2 * (y * b)" "2 * (y * b) < 2 * (n * w) + 4 * s * b"
    by (simp_all only: mult.assoc)
  have "f * (2 * w) * b \<le> (2 * y + w) * b" "(2 * y + w) * b < (f + 1) * (2 * w) * b"
    using f y assms(4) by (simp_all add: algebra_simps)
  with assms(5) show "f * (2 * w) \<le> 2 * y + w" "2 * y + w < (f + 1) * (2 * w)" by simp_all
qed

lemma f64_pack_carry: "f64_pack negative (2 ^ 53) q = f64_pack negative (2 ^ 52) (q + 1)"
  by (simp add: f64_pack_def algebra_simps)

lemma decode_round_near:
  assumes "2 ^ (sh + 52) \<le> m" and "m < 2 ^ (sh + 53)" and "0 < sh"
    and "- 1074 \<le> e + int sh" and "e + int sh \<le> 970"
  obtains d r where "f64_decode (f64_round negative m e sticky) = Finite negative d (e + int r)"
    "2 ^ 52 \<le> d" "sh \<le> r" "\<bar>d * 2 ^ r - m\<bar> \<le> 2 ^ sh"
proof -
  have m: "0 < m" using assms(1) by (rule less_le_trans [rotated]) simp
  have "bit_len m \<le> sh + 53" by (rule bit_len_le [OF m assms(2)])
  moreover have "sh + 53 \<le> bit_len m"
  proof (rule ccontr)
    assume "\<not> ?thesis"
    then have "(2 :: int) ^ bit_len m \<le> 2 ^ (sh + 52)" by (intro power_increasing) simp_all
    then show False using bit_len_bounds [OF m] assms(1) by linarith
  qed
  ultimately have len: "bit_len m = sh + 53" by simp
  let ?d = "m div 2 ^ sh"
  define up where "up \<longleftrightarrow> 2 ^ (sh - 1) < m mod 2 ^ sh \<or> m mod 2 ^ sh = 2 ^ (sh - 1) \<and> (sticky \<or> odd ?d)"
  define d where "d = (if up then ?d + 1 else ?d)"
  have q: "max (e + int (bit_len m) - 53) (- 1074) = e + int sh" using len assms(4) by simp
  have "nat (int sh - 1) = sh - 1" by simp
  then have round: "f64_round negative m e sticky = f64_pack negative d (e + int sh)"
    using m assms(3) unfolding f64_round_def q by (simp add: Let_def d_def up_def)
  have split: "m = ?d * 2 ^ sh + m mod 2 ^ sh" "0 \<le> m mod 2 ^ sh" "m mod 2 ^ sh < 2 ^ sh"
    by (simp_all only: div_mult_mod_eq) simp_all
  have lo: "2 ^ 52 \<le> ?d" using assms(1) using zdiv_mono1 [OF assms(1), of "2 ^ sh"] by (simp add: power_add)
  have "m < 2 ^ 53 * 2 ^ sh" using assms(2) by (simp add: power_add mult.commute)
  then have "?d * 2 ^ sh < 2 ^ 53 * 2 ^ sh" using split by linarith
  then have hi: "?d < 2 ^ 53" by simp
  obtain rest where rest: "m = ?d * 2 ^ sh + rest" "0 \<le> rest" "rest < 2 ^ sh" using split by blast
  then have "d * 2 ^ sh - m = (if up then 2 ^ sh else 0) - rest" by (simp add: d_def distrib_right)
  with rest(2,3) have near: "\<bar>d * 2 ^ sh - m\<bar> \<le> 2 ^ sh" by (cases up) simp_all
  show ?thesis
  proof (cases "d = 2 ^ 53")
    case True
    then have "f64_round negative m e sticky = f64_pack negative (2 ^ 52) (e + int sh + 1)"
      using round f64_pack_carry by simp
    then have "f64_decode (f64_round negative m e sticky) = Finite negative (2 ^ 52) (e + int (Suc sh))"
      using decode_pack [of "2 ^ 52" "e + int sh + 1" negative] assms(4,5) by (simp add: algebra_simps)
    then show ?thesis using near True by (intro that [of "2 ^ 52" "Suc sh"]) simp_all
  next
    case False
    then have "d < 2 ^ 53" "2 ^ 52 \<le> d" using lo hi by (auto simp: d_def)
    then have "f64_decode (f64_round negative m e sticky) = Finite negative d (e + int sh)"
      unfolding round using assms(4,5) by (intro decode_pack) simp_all
    then show ?thesis using near \<open>2 ^ 52 \<le> d\<close> by (intro that [of d sh]) simp_all
  qed
qed

section \<open>The rounded quotient\<close>

lemma bit_len_split:
  fixes m :: int
  assumes "2 ^ 53 \<le> m"
  obtains sh where "2 ^ (sh + 52) \<le> m" "m < 2 ^ (sh + 53)" "0 < sh"
proof -
  have m: "0 < m" using assms by simp
  note bounds = bit_len_bounds [OF m]
  have "(2 :: int) ^ 53 < 2 ^ bit_len m" using assms bounds by linarith
  then have "53 < bit_len m" by (rule power_less_imp_less_exp [rotated]) simp
  then have "bit_len m = (bit_len m - 53) + 53" "bit_len m - 1 = (bit_len m - 53) + 52" "0 < bit_len m - 53" by simp_all
  then show ?thesis using bounds that [of "bit_len m - 53"] by metis
qed

lemma round_near:
  fixes d f :: int
  assumes "f64_decode x = Finite False d (- int p + int r)" and "2 ^ 52 \<le> d"
    and "f * (2 * 2 ^ p) \<le> 2 * (d * 2 ^ r) + 2 ^ p" and "2 * (d * 2 ^ r) + 2 ^ p < (f + 1) * (2 * 2 ^ p)"
    and "0 \<le> f" and "f < 2 ^ 52"
  shows "f64_round_half_away x = f64_of_int f"
proof -
  have "r < p"
  proof (rule ccontr)
    assume "\<not> ?thesis"
    then have "(2 :: int) ^ p \<le> 2 ^ r" by (intro power_increasing) simp_all
    then have "2 ^ 52 * 2 ^ p \<le> d * 2 ^ r" using assms(2) by (intro mult_mono) simp_all
    then have "(2 ^ 53 + 1) * 2 ^ p \<le> 2 * (d * 2 ^ r) + 2 ^ p" by (simp add: distrib_right)
    also have "\<dots> < (2 * (f + 1)) * 2 ^ p" using assms(4) by (simp add: algebra_simps)
    finally have "2 ^ 53 + 1 < 2 * (f + 1)" by (rule mult_right_less_imp_less) simp
    then show False using assms(6) by simp
  qed
  define t where "t = p - r - 1"
  have p: "p = Suc t + r" "- int p + int r = - int (Suc t)" using \<open>r < p\<close> by (simp_all add: t_def)
  have "f * 2 ^ Suc t * (2 * 2 ^ r) \<le> (d + 2 ^ t) * (2 * 2 ^ r)" "(d + 2 ^ t) * (2 * 2 ^ r) < (f + 1) * 2 ^ Suc t * (2 * 2 ^ r)"
    using assms(3,4) unfolding p(1) by (simp_all add: power_add algebra_simps)
  then have "f * 2 ^ Suc t \<le> d + 2 ^ t" "d + 2 ^ t < (f + 1) * 2 ^ Suc t"
    by (simp_all only: mult_le_cancel_right mult_less_cancel_right) (simp_all add: not_less)
  then have div: "(d + 2 ^ t) div 2 ^ Suc t = f"
    by (intro int_div_pos_eq [of _ _ _ "d + 2 ^ t - f * 2 ^ Suc t"]) (simp_all add: distrib_right mult.commute)
  have "f64_round_half_away x = f64_round False ((d + 2 ^ t) div 2 ^ Suc t) 0 False"
    unfolding f64_round_half_away_def assms(1) p(2) by (simp add: nat_add_distrib)
  then show ?thesis unfolding div using assms(5) by (simp add: f64_of_int_def f64_of_dyadic_def)
qed

lemma round_quotient:
  assumes "0 < n" and "n \<le> 2 ^ 50" and "0 < b" and "b < 2 ^ 53" and "s \<le> 50"
    and "(2 * n + 2 ^ s * b) mod (2 * (2 ^ s * b)) \<noteq> 0"
  shows "f64_round_half_away (f64_div (f64_of_dyadic n (- int s)) (f64_of_int b)) =
    f64_of_int ((2 * n + 2 ^ s * b) div (2 * (2 ^ s * b)))"
proof -
  let ?B = "2 ^ s * b"
  define f where "f = (2 * n + ?B) div (2 * ?B)"
  obtain j where j: "f64_decode (f64_of_dyadic n (- int s)) = Finite False (n * 2 ^ j) (- int s - int j)" "n * 2 ^ j < 2 ^ 53"
    using decode_dyadic [of n "- int s"] assms(1,2,5) by (auto simp: not_less)
  obtain k where k: "f64_decode (f64_of_int b) = Finite False (b * 2 ^ k) (- int k)" "b * 2 ^ k < 2 ^ 53"
    using decode_dyadic [of b 0] assms(3,4) by (auto simp: f64_of_int_def not_less)
  have "(1 :: int) * 2 ^ j \<le> n * 2 ^ j" "(1 :: int) * 2 ^ k \<le> b * 2 ^ k"
    using assms(1,3) by (intro mult_right_mono; simp)+
  with j(2) k(2) have "(2 :: int) ^ j < 2 ^ 53" "(2 :: int) ^ k < 2 ^ 53" by linarith+
  then have jk: "j < 53" "k < 53"
    using power_less_imp_less_exp [of "2 :: int" j 53] power_less_imp_less_exp [of "2 :: int" k 53] by simp_all
  define p where "p = s + j + 120 - k"
  have p: "p + k = s + j + 120" "p \<le> 222" using jk assms(5) by (simp_all add: p_def)
  define m where "m = n * 2 ^ j * 2 ^ 120 div (b * 2 ^ k)"
  have bk: "0 < b * 2 ^ k" using assms(3) by simp
  have div: "f64_div (f64_of_dyadic n (- int s)) (f64_of_int b) =
      f64_round False m (- int p) (n * 2 ^ j * 2 ^ 120 mod (b * 2 ^ k) \<noteq> 0)"
  proof -
    have "- int s - int j - (- int k) - 120 = - int p" using p(1) by linarith
    moreover have "b * 2 ^ k \<noteq> 0" using bk by linarith
    ultimately show ?thesis unfolding f64_div_def j(1) k(1) m_def prod.case decoded.case by simp
  qed
  have pow: "n * 2 ^ j * 2 ^ 120 * 2 ^ s = n * 2 ^ p * 2 ^ k"
  proof -
    have "n * 2 ^ j * 2 ^ 120 * 2 ^ s = n * 2 ^ (s + j + 120)" by (simp only: power_add ac_simps)
    also have "\<dots> = n * 2 ^ p * 2 ^ k" unfolding p(1) [symmetric] by (simp only: power_add ac_simps)
    finally show ?thesis .
  qed
  have num: "m * (b * 2 ^ k) \<le> n * 2 ^ j * 2 ^ 120" "n * 2 ^ j * 2 ^ 120 < (m + 1) * (b * 2 ^ k)"
    using div_mult_mod_eq [of "n * 2 ^ j * 2 ^ 120" "b * 2 ^ k"] pos_mod_bound [OF bk, of "n * 2 ^ j * 2 ^ 120"]
      pos_mod_sign [OF bk, of "n * 2 ^ j * 2 ^ 120"]
    unfolding m_def [symmetric] distrib_right by linarith+
  have k2: "(0 :: int) < 2 ^ k" "(0 :: int) < 2 ^ s" by simp_all
  have "m * ?B * 2 ^ k \<le> n * 2 ^ p * 2 ^ k" "n * 2 ^ p * 2 ^ k < (m + 1) * ?B * 2 ^ k"
    using mult_right_mono [OF num(1), of "2 ^ s"] mult_strict_right_mono [OF num(2) k2(2)]
    unfolding pow by (simp_all only: ac_simps) simp_all
  then have mB: "m * ?B \<le> n * 2 ^ p" "n * 2 ^ p < (m + 1) * ?B"
    using k2(1) by (simp_all only: mult_le_cancel_right mult_less_cancel_right)
  have "2 ^ 120 \<le> n * 2 ^ j * 2 ^ 120" using assms(1) mult_mono [of 1 n 1 "2 ^ j :: int"] by simp
  also have "\<dots> < (m + 1) * (b * 2 ^ k)" by (rule num(2))
  finally have big: "2 ^ 120 < (m + 1) * (b * 2 ^ k)" .
  have "2 ^ 53 \<le> m"
  proof (rule ccontr)
    assume "\<not> ?thesis"
    then have "(m + 1) * (b * 2 ^ k) \<le> 2 ^ 53 * (b * 2 ^ k)" using bk by (intro mult_right_mono) simp_all
    also have "\<dots> \<le> 2 ^ 53 * 2 ^ 53" using k(2) by (intro mult_left_mono) simp_all
    finally show False using big by simp
  qed
  then obtain sh where sh: "2 ^ (sh + 52) \<le> m" "m < 2 ^ (sh + 53)" "0 < sh" by (rule bit_len_split)
  have B: "0 < ?B" using assms(3) by simp
  have "2 ^ (sh + 52) * ?B \<le> m * ?B" using sh(1) B by (intro mult_right_mono) simp_all
  also have "\<dots> \<le> n * 2 ^ p" by (rule mB)
  also have "\<dots> \<le> 2 ^ 50 * 2 ^ p" using assms(2) by (intro mult_right_mono) simp_all
  finally have fine: "4 * 2 ^ sh * ?B \<le> 2 ^ p" by (simp add: power_add ac_simps)
  have "(2 :: int) ^ sh * 1 \<le> 2 ^ sh * ?B" using B by (intro mult_left_mono) simp_all
  moreover have "(0 :: int) < 2 ^ sh" by simp
  ultimately have "(2 :: int) ^ sh \<le> 2 ^ p" using fine unfolding mult.assoc mult_1_right by linarith
  then have "sh \<le> p" by simp
  then have exps: "- 1074 \<le> - int p + int sh" "- int p + int sh \<le> 970" using p(2) by simp_all
  obtain d r where dec: "f64_decode (f64_div (f64_of_dyadic n (- int s)) (f64_of_int b)) = Finite False d (- int p + int r)"
    and d: "2 ^ 52 \<le> d" "sh \<le> r" "\<bar>d * 2 ^ r - m\<bar> \<le> 2 ^ sh"
    unfolding div by (rule decode_round_near [OF sh exps])
  have "(1 :: int) \<le> 2 ^ sh" "(0 :: int) < 2 ^ p" by simp_all
  note near = nearest_of_near [OF mB d(3) fine B this assms(6), folded f_def]
  have f0: "0 \<le> f" using B assms(1) by (simp add: f_def pos_imp_zdiv_nonneg_iff)
  have "f * (2 * ?B) \<le> 2 * n + ?B"
    using div_mult_mod_eq [of "2 * n + ?B" "2 * ?B"] pos_mod_sign [of "2 * ?B" "2 * n + ?B"] B
    unfolding f_def [symmetric] by linarith
  also have "\<dots> < (n + 1) * (2 * ?B)"
  proof -
    have "n * 1 \<le> n * ?B" using assms(1) B by (intro mult_left_mono) linarith+
    moreover have "(n + 1) * (2 * ?B) = 2 * (n * ?B) + 2 * ?B" by (simp add: algebra_simps)
    ultimately show ?thesis using B by linarith
  qed
  finally have "f < n + 1" using B by (simp add: mult_less_cancel_right)
  with assms(2) have "f < 2 ^ 52" by simp
  with f0 show ?thesis unfolding f_def [symmetric] by (rule round_near [OF dec d(1) near])
qed

text \<open>The general statement: also zero and exact halves.\<close>

lemma f64_round_div [f64_exact]:
  assumes "0 \<le> n" and "n \<le> 2 ^ 50" and "0 < b" and "b < 2 ^ 53" and "s \<le> 50"
  shows "f64_round_half_away (f64_div (f64_of_dyadic n (- int s)) (f64_of_int b)) =
    f64_of_int ((2 * n + 2 ^ s * b) div (2 * (2 ^ s * b)))"
proof -
  let ?B = "2 ^ s * b"
  have B: "0 < ?B" using assms(3) by simp
  consider "n = 0" | "0 < n" "(2 * n + ?B) mod (2 * ?B) \<noteq> 0" | "0 < n" "(2 * n + ?B) mod (2 * ?B) = 0"
    using assms(1) by linarith
  then show ?thesis
  proof cases
    case 1
    have "f64_div (f64_of_dyadic 0 (- int s)) (f64_of_int b) = f64_of_int 0"
      using div_dyadic [of 0 b "- int s" 0] assms(3-5) by (simp add: f64_of_int_def f64_of_dyadic_zero)
    moreover have "?B div (2 * ?B) = 0" using B by (intro div_pos_pos_trivial) linarith+
    ultimately show ?thesis using f64_round_of_int [of 0] 1 by (simp add: small_def)
  next
    case 2
    with assms(2-5) show ?thesis by (intro round_quotient)
  next
    case 3
    define f where "f = (2 * n + ?B) div (2 * ?B)"
    have f: "2 * n + ?B = f * (2 * ?B)" using 3(2) div_mult_mod_eq [of "2 * n + ?B" "2 * ?B"] by (simp add: f_def)
    define h where "h = 2 * f - 1"
    have n: "2 * n = h * b * 2 ^ s" using f by (simp add: h_def algebra_simps)
    have "0 < h * b * 2 ^ s" using 3(1) n by linarith
    then have hb: "0 < h * b" "0 < h" using assms(3) by (simp_all add: zero_less_mult_iff)
    have "h * b * 1 \<le> h * b * 2 ^ s" "h * 1 \<le> h * b" using hb assms(3) by (intro mult_left_mono; simp)+
    with n assms(2) have small: "h * b \<le> 2 ^ 51" "h \<le> 2 ^ 51" by simp_all
    have "f64_of_dyadic n (- int s) = f64_of_dyadic (h * b) (- 1)"
      using f64_of_dyadic_shift [of n 1 "- 1 - int s"] f64_of_dyadic_shift [of "h * b" s "- 1 - int s"] n
      by (simp add: mult.commute)
    then have "f64_div (f64_of_dyadic n (- int s)) (f64_of_int b) = f64_of_dyadic h (- 1)"
      using div_dyadic [of h b "- 1" 0] small hb assms(3,4) by (simp add: f64_of_int_def)
    moreover have "(h + 1) div 2 = f" by (simp add: h_def)
    ultimately show ?thesis using f64_round_half [of h] small hb by (simp add: small_def f_def)
  qed
qed

end
