(* ===== verification/Playhead.thy ===== *)
theory Playhead
  imports Clock_Sync Float_Rounding
begin

text \<open>
  Playhead synchronisation (\<open>tpt-av-sync-playhead/src/sync.rs\<close>). The injected clock is an
  argument: an operation that reads it takes the reading (\<open>process_clock_sync\<close> reads it
  twice for a response). The lemmas show how far the position a follower reports is from the
  master's playhead, for clocks of any resolution of \<open>2 ^ - k\<close> milliseconds, whose stamps the code
  cuts or rounds to whole milliseconds.
\<close>

section \<open>The engine\<close>

record remote_track =
  rt_position :: u64
  rt_at_local_ms :: f64
  rt_playing :: bool

record playhead_sync =
  ps_peer_id :: peer_id
  ps_local_position :: u64
  ps_playing :: bool
  ps_is_master :: bool
  ps_master_peer :: "peer_id option"
  ps_sample_rate :: u32
  ps_clock :: clock_synchronizer
  ps_latency :: latency_estimator
  ps_drift :: drift_compensator
  ps_last_offset_sample_at :: "f64 option"
  ps_remotes :: "peer_id \<rightharpoonup> remote_track"

definition playhead_with_clock :: "peer_id \<Rightarrow> u32 \<Rightarrow> playhead_sync" where
  "playhead_with_clock p sample_rate =
     \<lparr>ps_peer_id = p, ps_local_position = 0, ps_playing = False, ps_is_master = False,
      ps_master_peer = None, ps_sample_rate = sample_rate, ps_clock = synchronizer_new,
      ps_latency = latency_default, ps_drift = drift_default, ps_last_offset_sample_at = None,
      ps_remotes = Map.empty\<rparr>"

definition set_local_position :: "u64 \<Rightarrow> playhead_sync \<Rightarrow> playhead_sync" where
  "set_local_position position s = s\<lparr>ps_local_position := position\<rparr>"

definition set_playing :: "bool \<Rightarrow> playhead_sync \<Rightarrow> playhead_sync" where
  "set_playing playing s = s\<lparr>ps_playing := playing\<rparr>"

definition set_master :: "bool \<Rightarrow> playhead_sync \<Rightarrow> playhead_sync" where
  "set_master is_master s =
     (let s = s\<lparr>ps_is_master := is_master\<rparr>
      in if is_master then s\<lparr>ps_master_peer := Some (ps_peer_id s)\<rparr> else s)"

definition follow_master :: "peer_id \<Rightarrow> playhead_sync \<Rightarrow> playhead_sync" where
  "follow_master p s = s\<lparr>ps_master_peer := Some p\<rparr>"

definition playhead_store_update :: "peer_id \<Rightarrow> u64 \<Rightarrow> u64 \<Rightarrow> bool \<Rightarrow> playhead_sync \<Rightarrow> playhead_sync" where
  "playhead_store_update p position timestamp_ms playing s =
     s\<lparr>ps_remotes := (ps_remotes s)(p \<mapsto>
         \<lparr>rt_position = position, rt_at_local_ms = sync_to_local (ps_clock s) (f64_of_u64 timestamp_ms),
          rt_playing = playing\<rparr>)\<rparr>"

definition receive_playhead_update :: "peer_id \<Rightarrow> u64 \<Rightarrow> u64 \<Rightarrow> playhead_sync \<Rightarrow> playhead_sync" where
  "receive_playhead_update p position timestamp_ms s =
     playhead_store_update p position timestamp_ms
       (case ps_remotes s p of Some t \<Rightarrow> rt_playing t | None \<Rightarrow> True) s"

definition receive_update :: "playhead_update \<Rightarrow> playhead_sync \<Rightarrow> playhead_sync" where
  "receive_update u s =
     playhead_store_update (ph_peer_id u) (ph_position u) (ph_timestamp_ms u) (ph_playing u) s"

definition synchronized_position :: "f64 \<Rightarrow> playhead_sync \<Rightarrow> u64" where
  "synchronized_position now s =
     (if ps_is_master s then ps_local_position s
      else case ps_master_peer s of
        None \<Rightarrow> ps_local_position s
      | Some master \<Rightarrow>
          (case ps_remotes s master of
             None \<Rightarrow> ps_local_position s
           | Some track \<Rightarrow>
               if \<not> rt_playing track then rt_position track
               else
                 let elapsed_ms = f64_max (f64_sub now (rt_at_local_ms track)) (f64_of_int 0);
                     corrected = correct_elapsed_ms (ps_drift s) elapsed_ms;
                     advance = u64_of_f64 (f64_round_half_away
                       (f64_div (f64_mul corrected (f64_of_u32 (ps_sample_rate s))) (f64_of_int 1000)))
                 in sat_add (rt_position track) advance))"

definition generate_update :: "f64 \<Rightarrow> playhead_sync \<Rightarrow> playhead_update" where
  "generate_update now s =
     \<lparr>ph_peer_id = ps_peer_id s, ph_position = ps_local_position s,
      ph_timestamp_ms = u64_of_f64 (f64_max (f64_round_half_away now) (f64_of_int 0)),
      ph_playing = ps_playing s\<rparr>"

definition now_ms_u64 :: "f64 \<Rightarrow> u64" where
  "now_ms_u64 now =
     (if f64_is_finite now \<and> f64_less_eq (f64_of_int 0) now then u64_of_f64 now else 0)"

definition process_clock_sync ::
  "f64 \<Rightarrow> f64 \<Rightarrow> clock_sync_message \<Rightarrow> playhead_sync \<Rightarrow> clock_sync_message option \<times> playhead_sync" where
  "process_clock_sync now now_again m s =
     (case cs_message_type m of
        Request \<Rightarrow> (Some (clock_sync_respond m (now_ms_u64 now)), s)
      | Response \<Rightarrow>
          (case process_response m (now_ms_u64 now_again) (ps_clock s) of
             (True, clock) \<Rightarrow>
               (None, s\<lparr>ps_clock := clock,
                  ps_latency := on_rtt_sample (sy_best_rtt_ms clock) (ps_latency s),
                  ps_drift := on_offset_sample (sy_best_offset_ms clock) now (ps_drift s),
                  ps_last_offset_sample_at := Some now\<rparr>)
           | (False, clock) \<Rightarrow> (None, s\<lparr>ps_clock := clock\<rparr>)))"

definition send_clock_sync_request :: "f64 \<Rightarrow> playhead_sync \<Rightarrow> clock_sync_message" where
  "send_clock_sync_request now s = clock_sync_request (ps_peer_id s) (now_ms_u64 now)"

definition observe_clock_sample :: "f64 \<Rightarrow> f64 \<Rightarrow> f64 \<Rightarrow> playhead_sync \<Rightarrow> playhead_sync" where
  "observe_clock_sample offset_ms rtt_ms at_local_ms s =
     s\<lparr>ps_clock := observe offset_ms rtt_ms (ps_clock s),
       ps_latency := on_rtt_sample rtt_ms (ps_latency s),
       ps_drift := on_offset_sample offset_ms at_local_ms (ps_drift s),
       ps_last_offset_sample_at := Some at_local_ms\<rparr>"

definition one_way_latency_ms :: "playhead_sync \<Rightarrow> f64" where
  "one_way_latency_ms s = f64_div (le_ewma_rtt_ms (ps_latency s)) (f64_of_int 2)"

section \<open>Reading the position\<close>

text \<open>A clock reading of \<open>n\<close> ticks, \<open>2 ^ k\<close> of which are a millisecond.\<close>

definition tick_time :: "nat \<Rightarrow> int \<Rightarrow> f64" where
  "tick_time k n = f64_of_dyadic n (- int k)"

lemma tick_zero: "f64_of_int 0 = tick_time k 0"
  by (simp add: tick_time_def f64_of_int_def f64_of_dyadic_zero)

lemma tick_whole: "f64_of_int n = tick_time 0 n"
  by (simp add: tick_time_def f64_of_int_def)

lemma tick_finer: "tick_time k n = tick_time (k + j) (n * 2 ^ j)"
  by (simp add: tick_time_def f64_of_dyadic_shift)

lemma tick_ops:
  assumes "small a" and "small b" and "k \<le> 50"
  shows "f64_sub (tick_time k a) (tick_time k b) = tick_time k (a - b)"
    "f64_less (tick_time k a) (tick_time k b) \<longleftrightarrow> a < b"
    "f64_max (tick_time k a) (tick_time k b) = tick_time k (max a b)"
proof -
  note val = dyadic_val(1) [of a "- int k"] dyadic_val(1) [of b "- int k"]
  show less: "f64_less (tick_time k a) (tick_time k b) \<longleftrightarrow> a < b"
    using assms by (simp add: tick_time_def small_def f64_less_dyadic)
  show "f64_max (tick_time k a) (tick_time k b) = tick_time k (max a b)"
    using less assms val by (auto simp: f64_max_def tick_time_def small_def finite_not_nan max_def)
qed (use assms in \<open>simp add: tick_time_def small_def sub_dyadic\<close>)

lemma correct_elapsed_unskewed:
  assumes "dc_skew_ppm_ewma d = f64_of_int 0" and "0 \<le> e" and "small e" and "k \<le> 50"
  shows "correct_elapsed_ms d (tick_time k e) = tick_time k e"
proof -
  have "f64_div (f64_of_int 0) (f64_of_int 1000000) = f64_of_int 0"
    using f64_of_int_div [of 0 1000000] by (simp add: small_def)
  moreover have "f64_add (f64_of_int 1) (f64_of_int 0) = f64_of_int 1"
    using f64_of_int_ops(1) [of 1 0] by (simp add: small_def)
  moreover have "f64_mul (tick_time k e) (f64_of_int 1) = tick_time k e"
    using mul_dyadic [of e 1 "- int k" 0] assms(2-4) by (simp add: tick_time_def small_def f64_of_int_def)
  ultimately show ?thesis by (simp add: correct_elapsed_ms_def assms(1))
qed

text \<open>The position advances by the elapsed time in frames, rounded to the nearest frame.\<close>

definition advance_frames :: "nat \<Rightarrow> int \<Rightarrow> int" where
  "advance_frames k e = (2 * e + 2 ^ k * 1000) div (2 * (2 ^ k * 1000))"

text \<open>The nearest integer to \<open>e / M\<close>, halves up.\<close>

lemma nearest_frame:
  fixes e M :: int
  assumes "0 < M"
  shows "\<bar>2 * M * ((2 * e + M) div (2 * M)) - 2 * e\<bar> \<le> M"
proof -
  have M: "0 < 2 * M" using assms by simp
  have "(2 * e + M) div (2 * M) * (2 * M) + (2 * e + M) mod (2 * M) = 2 * e + M" by (rule div_mult_mod_eq)
  moreover have "2 * M * ((2 * e + M) div (2 * M)) = (2 * e + M) div (2 * M) * (2 * M)" by (rule mult.commute)
  ultimately show ?thesis
    using pos_mod_sign [OF M, of "2 * e + M"] pos_mod_bound [OF M, of "2 * e + M"] by linarith
qed

lemma advance_frames_bounds:
  assumes "0 \<le> e" and "e \<le> 2 ^ 50"
  shows "0 \<le> advance_frames k e" "advance_frames k e < 2 ^ 50"
proof -
  define M :: int where "M = 2 ^ k * 1000"
  have "(1 :: int) \<le> 2 ^ k" by simp
  then have M: "1000 \<le> M" by (simp only: M_def)
  have "\<bar>2 * M * advance_frames k e - 2 * e\<bar> \<le> M"
    using nearest_frame [of M e] M by (simp add: advance_frames_def flip: M_def)
  moreover have "2 * e + M < (2 * M) * 2 ^ 50" using assms(2) M by simp
  ultimately have "(2 * M) * advance_frames k e < (2 * M) * 2 ^ 50" by linarith
  then show "advance_frames k e < 2 ^ 50" by (rule mult_left_less_imp_less) (use M in simp)
  show "0 \<le> advance_frames k e" using assms(1) by (simp add: advance_frames_def pos_imp_zdiv_nonneg_iff)
qed

lemma synchronized_position_exact:
  assumes "\<not> ps_is_master s" and "ps_master_peer s = Some p" and "ps_remotes s p = Some track"
    and "rt_playing track" and "rt_at_local_ms track = tick_time k a" and "small a"
    and "small n" and "small (n - a)" and "k \<le> 50"
    and "dc_skew_ppm_ewma (ps_drift s) = f64_of_int 0"
    and "max 0 (n - a) * uint (ps_sample_rate s) \<le> 2 ^ 50"
  shows "synchronized_position (tick_time k n) s =
    sat_add (rt_position track) (word_of_int (advance_frames k (max 0 (n - a) * uint (ps_sample_rate s))))"
proof -
  define e where "e = max 0 (n - a)"
  let ?r = "uint (ps_sample_rate s)"
  have e: "0 \<le> e" "small e" using assms(8) by (auto simp: e_def small_def)
  have er: "0 \<le> e * ?r" "e * ?r \<le> 2 ^ 50" using e assms(11) by (simp_all add: e_def)
  have elapsed: "f64_max (f64_sub (tick_time k n) (rt_at_local_ms track)) (f64_of_int 0) = tick_time k e"
    using tick_ops(3) [of "n - a" 0 k] assms(6-9)
    by (simp add: assms(5) tick_zero [of k] tick_ops e_def max.commute small_def)
  have "f64_mul (tick_time k e) (f64_of_u32 (ps_sample_rate s)) = tick_time k (e * ?r)"
    using mul_dyadic [of e ?r "- int k" 0] e small_uint32 [of "ps_sample_rate s"] assms(9)
    by (simp add: f64_of_u32_def f64_of_int_def tick_time_def small_def)
  moreover have "f64_round_half_away (f64_div (tick_time k (e * ?r)) (f64_of_int 1000)) =
      f64_of_int (advance_frames k (e * ?r))"
    using f64_round_div [of "e * ?r" 1000 k] er assms(9) by (simp add: tick_time_def advance_frames_def)
  moreover have "u64_of_f64 (f64_of_int (advance_frames k (e * ?r))) = word_of_int (advance_frames k (e * ?r))"
    by (rule u64_of_f64_of_int) (use advance_frames_bounds [OF er, of k] in \<open>simp_all add: small_def abs_less_iff\<close>)
  ultimately show ?thesis using assms(1-4,9,10) e
    by (simp add: synchronized_position_def elapsed correct_elapsed_unskewed Let_def flip: e_def)
qed

section \<open>One round of clock synchronisation between two engines\<close>

text \<open>The times of the exchange and the skew are in ticks. The follower's two readings of its clock
  for a response are both the arrival.\<close>

definition playhead_round :: "nat \<Rightarrow> int \<Rightarrow> exchange \<Rightarrow> playhead_sync \<Rightarrow> playhead_sync \<Rightarrow> playhead_sync" where
  "playhead_round k skew x master s =
     (let request = send_clock_sync_request (tick_time k (ex_at x)) s;
          there = tick_time k (ex_at x + ex_there x + skew);
          back = tick_time k (ex_at x + ex_there x + ex_back x)
      in case fst (process_clock_sync there there request master) of
           Some response \<Rightarrow> snd (process_clock_sync back back response s)
         | None \<Rightarrow> s)"

text \<open>A stamp is the reading cut to whole milliseconds.\<close>

lemma now_ms_of_ticks:
  assumes "0 \<le> n" and "n < 2 ^ 51" and "k \<le> 50"
  shows "now_ms_u64 (tick_time k n) = word_of_int (n div 2 ^ k)"
proof -
  obtain j where j: "f64_decode (tick_time k n) = Finite False (n * 2 ^ j) (- int k - int j)"
    using decode_dyadic [of n "- int k"] assms by (auto simp: tick_time_def not_less)
  have finite: "f64_is_finite (tick_time k n)" "\<not> f64_is_nan (f64_of_int 0)"
    by (simp_all add: f64_is_finite_def j small_def)
  have "\<not> f64_less (tick_time k n) (tick_time k 0)" using assms by (simp add: tick_ops small_def)
  then have "f64_less_eq (f64_of_int 0) (tick_time k n)"
    using finite finite_not_nan [OF finite(1)] unfolding tick_zero [of k] by (simp add: f64_less_eq_def f64_less_def)
  moreover have "int_part (n * 2 ^ j) (- int k - int j) = n div 2 ^ k"
  proof (cases "k + j = 0")
    case False
    then have "\<not> 0 \<le> - int k - int j" "nat (int j + int k) = k + j" by linarith+
    then show ?thesis by (simp add: int_part_def power_add)
  qed (simp add: int_part_def)
  moreover have "n div 2 ^ k \<le> n div 1" using assms(1) by (intro zdiv_mono2) simp_all
  then have "n div 2 ^ k < 2 ^ 64" using assms(2) by simp
  ultimately show ?thesis using finite(1) by (simp add: now_ms_u64_def u64_of_f64_def j)
qed

text \<open>What the stamps of an exchange say, as an exchange in milliseconds that arrives at once.\<close>

definition stamped :: "nat \<Rightarrow> exchange \<Rightarrow> exchange" where
  "stamped k x =
     \<lparr>ex_at = ex_at x div 2 ^ k, ex_there = 0,
      ex_back = (ex_at x + ex_there x + ex_back x) div 2 ^ k - ex_at x div 2 ^ k\<rparr>"

definition stamped_skew :: "nat \<Rightarrow> int \<Rightarrow> exchange \<Rightarrow> int" where
  "stamped_skew k skew x = (ex_at x + ex_there x + skew) div 2 ^ k - ex_at x div 2 ^ k"

definition measured_offset :: "nat \<Rightarrow> int \<Rightarrow> exchange \<Rightarrow> f64" where
  "measured_offset k skew x = exchange_offset (stamped_skew k skew x) (stamped k x)"

definition measured_rtt :: "nat \<Rightarrow> exchange \<Rightarrow> int" where
  "measured_rtt k x = exchange_rtt (stamped k x)"

lemma stamped_ok:
  assumes "exchange_ok skew x"
  shows "exchange_ok (stamped_skew k skew x) (stamped k x)"
proof -
  have stamp: "0 \<le> n div 2 ^ k \<and> n div 2 ^ k < 2 ^ 50" if "0 \<le> n" "n < 2 ^ 50" for n :: int
    using that zdiv_mono2 [of n 1 "2 ^ k"] by (simp add: pos_imp_zdiv_nonneg_iff)
  have "ex_at x div 2 ^ k \<le> (ex_at x + ex_there x + ex_back x) div 2 ^ k"
    using assms by (intro zdiv_mono1) (simp_all add: exchange_ok_def)
  then show ?thesis using assms stamp by (simp add: exchange_ok_def stamped_def stamped_skew_def)
qed

lemma playhead_round_eq:
  fixes s :: playhead_sync
  assumes "exchange_ok skew x" and "k \<le> 50"
  defines "clock \<equiv> observe (measured_offset k skew x) (f64_of_int (measured_rtt k x)) (ps_clock s)"
  shows "playhead_round k skew x master s = s\<lparr>ps_clock := clock,
    ps_latency := on_rtt_sample (sy_best_rtt_ms clock) (ps_latency s),
    ps_drift := on_offset_sample (sy_best_offset_ms clock)
      (tick_time k (ex_at x + ex_there x + ex_back x)) (ps_drift s),
    ps_last_offset_sample_at := Some (tick_time k (ex_at x + ex_there x + ex_back x))\<rparr>"
proof -
  let ?b = "ex_at x + ex_there x + skew" and ?c = "ex_at x + ex_there x + ex_back x"
  have ok: "0 \<le> ex_at x" "ex_at x < 2 ^ 51" "0 \<le> ?b" "?b < 2 ^ 51" "0 \<le> ?c" "?c < 2 ^ 51"
    using assms(1) by (auto simp: exchange_ok_def)
  note u = now_ms_of_ticks [OF ok(1,2) assms(2)] now_ms_of_ticks [OF ok(3,4) assms(2)] now_ms_of_ticks [OF ok(5,6) assms(2)]
  let ?response = "exchange_response (ps_peer_id s) (stamped_skew k skew x) (stamped k x)"
  have "fst (process_clock_sync (tick_time k ?b) (tick_time k ?b)
      (send_clock_sync_request (tick_time k (ex_at x)) s) master) = Some ?response"
    unfolding process_clock_sync_def send_clock_sync_request_def u exchange_response_def
    by (simp add: clock_sync_request_def stamped_def stamped_skew_def)
  then have round: "playhead_round k skew x master s =
      snd (process_clock_sync (tick_time k ?c) (tick_time k ?c) ?response s)"
    by (simp add: playhead_round_def Let_def)
  have "exchange_arrival (stamped k x) = now_ms_u64 (tick_time k ?c)"
    unfolding u by (simp add: exchange_arrival_def stamped_def)
  then have "process_response ?response (now_ms_u64 (tick_time k ?c)) (ps_clock s) = (True, clock)"
    using process_exchange [OF stamped_ok [OF assms(1)], of "ps_peer_id s" k "ps_clock s"]
    by (simp add: clock_def measured_offset_def measured_rtt_def)
  moreover have "cs_message_type ?response = Response" by (simp add: exchange_response_def clock_sync_respond_def)
  ultimately show ?thesis by (simp add: round process_clock_sync_def)
qed

section \<open>A follower once its first sample is its best\<close>

text \<open>
  After a first exchange \<open>x\<close> and any with no shorter measured round trip: the accepted sample is
  still \<open>x\<close>'s, the drift estimator has been fed that one offset again and again, and its skew is 0.
\<close>

definition follows_sample :: "nat \<Rightarrow> int \<Rightarrow> exchange \<Rightarrow> playhead_sync \<Rightarrow> bool" where
  "follows_sample k skew x s \<longleftrightarrow>
     sy_has_sample (ps_clock s) \<and> sy_best_offset_ms (ps_clock s) = measured_offset k skew x \<and>
     sy_best_rtt_ms (ps_clock s) = f64_of_int (measured_rtt k x) \<and>
     dc_last_offset_ms (ps_drift s) = Some (measured_offset k skew x) \<and>
     (\<exists>t. 0 \<le> t \<and> t < 2 ^ 51 \<and> dc_last_time_ms (ps_drift s) = Some (tick_time k t)) \<and>
     dc_skew_ppm_ewma (ps_drift s) = f64_of_int 0 \<and> dc_alpha (ps_drift s) = dc_alpha drift_default"

lemma alpha_default: "f64_mul (dc_alpha drift_default) (f64_of_int 0) = f64_of_int 0"
  by code_simp

lemma drift_rate_zero:
  assumes "dc_skew_ppm_ewma d = f64_of_int 0" and "dc_alpha d = dc_alpha drift_default"
  shows "dc_skew_ppm_ewma (drift_rate_sample (f64_of_int 0) d) = f64_of_int 0"
  using assms alpha_default f64_of_int_ops(1,2) [of 0 0] by (simp add: drift_rate_sample_def small_def)

lemma drift_same_offset:
  assumes "dc_last_offset_ms d = Some (f64_of_dyadic h (- 1))" and "small h" and "k \<le> 50"
    and "dc_last_time_ms d = Some (tick_time k t)" and "0 \<le> t" and "t < 2 ^ 51" and "0 \<le> t'" and "t' < 2 ^ 51"
    and "dc_skew_ppm_ewma d = f64_of_int 0" and "dc_alpha d = dc_alpha drift_default"
  shows "dc_skew_ppm_ewma (on_offset_sample (f64_of_dyadic h (- 1)) (tick_time k t') d) = f64_of_int 0"
proof -
  have small: "small t" "small t'" "small (t' - t)" "small 0" using assms(5-8) by (simp_all add: small_def abs_less_iff)
  have same: "f64_sub (f64_of_dyadic h (- 1)) (f64_of_dyadic h (- 1)) = f64_of_int 0"
    using assms(2) by (simp add: sub_dyadic small_def f64_of_int_def f64_of_dyadic_zero)
  have dt: "f64_sub (tick_time k t') (tick_time k t) = tick_time k (t' - t)" using assms(3) by (simp add: tick_ops small)
  have less: "f64_less (f64_of_int 0) (tick_time k (t' - t)) \<longleftrightarrow> 0 < t' - t"
    using assms(3) small unfolding tick_zero [of k] by (simp add: tick_ops)
  show ?thesis
  proof (cases "0 < t' - t")
    case True
    have "f64_div (f64_of_int 0) (tick_time k (t' - t)) = f64_of_int 0"
      using div_dyadic [of 0 "t' - t" 0 "- int k"] small True assms(3)
      by (simp add: small_def tick_time_def f64_of_int_def f64_of_dyadic_zero)
    moreover have "f64_mul (f64_of_int 0) (f64_of_int 1000000) = f64_of_int 0"
      using f64_of_int_ops(3) [of 0 1000000] by (simp add: small_def)
    ultimately show ?thesis using drift_rate_zero [OF assms(9,10)] assms(9)
      by (simp add: on_offset_sample_def assms(1,4) dt same Let_def)
  next
    case False
    then show ?thesis using assms(9) less by (simp add: on_offset_sample_def assms(1,4) dt Let_def)
  qed
qed

lemma drift_sample_keeps:
  "dc_alpha (on_offset_sample offset_ms now_ms d) = dc_alpha d"
  "dc_last_offset_ms (on_offset_sample offset_ms now_ms d) = Some offset_ms"
  "dc_last_time_ms (on_offset_sample offset_ms now_ms d) = Some now_ms"
  by (simp_all add: on_offset_sample_def drift_rate_sample_def Let_def split: option.split)

lemma first_round_follows:
  assumes "exchange_ok skew x" and "k \<le> 50" and "ps_clock s = synchronizer_new" and "ps_drift s = drift_default"
  shows "follows_sample k skew x (playhead_round k skew x master s)"
proof -
  have "dc_last_offset_ms drift_default = None" "dc_skew_ppm_ewma drift_default = f64_of_int 0"
    by (simp_all add: drift_default_def drift_new_def)
  then have "dc_skew_ppm_ewma (on_offset_sample o' t drift_default) = f64_of_int 0" for o' t
    by (simp add: on_offset_sample_def)
  moreover have "0 \<le> ex_at x + ex_there x + ex_back x" "ex_at x + ex_there x + ex_back x < 2 ^ 51"
    using assms(1) by (auto simp: exchange_ok_def)
  ultimately show ?thesis using assms(3,4)
    by (auto simp: follows_sample_def playhead_round_eq [OF assms(1,2)] drift_sample_keeps observe_def synchronizer_new_def)
qed

lemma small_measured:
  assumes "exchange_ok skew x"
  shows "small (measured_rtt k x)"
    "small (2 * stamped_skew k skew x + (ex_there (stamped k x) - ex_back (stamped k x)))"
  using small_exchange [OF stamped_ok [OF assms]] by (simp_all add: measured_rtt_def)

lemma later_round_follows:
  assumes "follows_sample k skew x s" and "exchange_ok skew x" and "exchange_ok skew' y"
    and "measured_rtt k x \<le> measured_rtt k y" and "k \<le> 50"
  shows "follows_sample k skew x (playhead_round k skew' y master s)"
    "ps_clock (playhead_round k skew' y master s) = ps_clock s"
proof -
  note small = small_measured [OF assms(2), of k] small_measured [OF assms(3), of k]
  have "\<not> f64_less (f64_of_int (measured_rtt k y)) (f64_of_int (measured_rtt k x))"
    using small assms(4) by (simp add: f64_of_int_ops)
  then have keep: "observe (measured_offset k skew' y) (f64_of_int (measured_rtt k y)) (ps_clock s) = ps_clock s"
    using assms(1) by (simp add: observe_def follows_sample_def Let_def)
  then show "ps_clock (playhead_round k skew' y master s) = ps_clock s"
    by (simp add: playhead_round_eq [OF assms(3,5)])
  let ?t = "ex_at y + ex_there y + ex_back y"
  have t: "0 \<le> ?t" "?t < 2 ^ 51" using assms(3) by (auto simp: exchange_ok_def)
  obtain t' where "0 \<le> t'" "t' < 2 ^ 51" "dc_last_time_ms (ps_drift s) = Some (tick_time k t')"
    using assms(1) by (auto simp: follows_sample_def)
  then have "dc_skew_ppm_ewma (on_offset_sample (measured_offset k skew x) (tick_time k ?t) (ps_drift s)) = f64_of_int 0"
    using drift_same_offset [OF _ small(2) assms(5) _ _ _ t] assms(1)
    by (simp add: follows_sample_def measured_offset_def exchange_offset_def)
  then show "follows_sample k skew x (playhead_round k skew' y master s)"
    using assms(1) t by (auto simp: playhead_round_eq [OF assms(3,5)] keep follows_sample_def drift_sample_keeps)
qed

text \<open>The follower after rounds \<open>(skew, exchange)\<close>, the skew of the clocks free to change between them.\<close>

definition playhead_rounds :: "nat \<Rightarrow> playhead_sync \<Rightarrow> (int \<times> exchange) list \<Rightarrow> playhead_sync \<Rightarrow> playhead_sync" where
  "playhead_rounds k master = fold (\<lambda>(skew, x). playhead_round k skew x master)"

definition slower_rounds :: "nat \<Rightarrow> exchange \<Rightarrow> (int \<times> exchange) list \<Rightarrow> bool" where
  "slower_rounds k x rounds \<longleftrightarrow>
     list_all (\<lambda>(skew, y). exchange_ok skew y \<and> measured_rtt k x \<le> measured_rtt k y) rounds"

definition new_follower :: "peer_id \<Rightarrow> u32 \<Rightarrow> playhead_sync \<Rightarrow> playhead_sync" where
  "new_follower p sample_rate master = follow_master (ps_peer_id master) (playhead_with_clock p sample_rate)"

lemma playhead_round_frame:
  "exchange_ok skew x \<Longrightarrow> k \<le> 50 \<Longrightarrow>
    ps_is_master (playhead_round k skew x master s) = ps_is_master s \<and>
    ps_master_peer (playhead_round k skew x master s) = ps_master_peer s \<and>
    ps_sample_rate (playhead_round k skew x master s) = ps_sample_rate s"
  by (simp add: playhead_round_eq)

lemma slower_rounds_follow:
  "follows_sample k skew x s \<Longrightarrow> exchange_ok skew x \<Longrightarrow> k \<le> 50 \<Longrightarrow> slower_rounds k x rounds \<Longrightarrow>
    follows_sample k skew x (playhead_rounds k master rounds s) \<and>
    ps_is_master (playhead_rounds k master rounds s) = ps_is_master s \<and>
    ps_master_peer (playhead_rounds k master rounds s) = ps_master_peer s \<and>
    ps_sample_rate (playhead_rounds k master rounds s) = ps_sample_rate s"
proof (induction rounds arbitrary: s)
  case (Cons r rounds)
  obtain skew' y where r: "r = (skew', y)" by (cases r)
  with Cons.prems(4) have y: "exchange_ok skew' y" "measured_rtt k x \<le> measured_rtt k y" "slower_rounds k x rounds"
    by (simp_all add: slower_rounds_def)
  show ?case
    using Cons.IH [OF later_round_follows(1) [OF Cons.prems(1,2) y(1,2) Cons.prems(3)] Cons.prems(2,3) y(3), of master]
      playhead_round_frame [OF y(1) Cons.prems(3), of master s]
    by (simp add: playhead_rounds_def r)
qed (simp add: playhead_rounds_def)

lemma new_follower_follows:
  fixes master :: playhead_sync and p :: peer_id and sample_rate :: u32
  assumes "exchange_ok skew x" and "k \<le> 50" and "slower_rounds k x rounds"
  defines "s \<equiv> playhead_rounds k master ((skew, x) # rounds) (new_follower p sample_rate master)"
  shows "follows_sample k skew x s" "\<not> ps_is_master s" "ps_master_peer s = Some (ps_peer_id master)"
    "ps_sample_rate s = sample_rate"
proof -
  let ?f = "new_follower p sample_rate master"
  have "ps_clock ?f = synchronizer_new" "ps_drift ?f = drift_default"
    and f: "\<not> ps_is_master ?f" "ps_master_peer ?f = Some (ps_peer_id master)" "ps_sample_rate ?f = sample_rate"
    by (simp_all add: new_follower_def follow_master_def playhead_with_clock_def)
  from slower_rounds_follow [OF first_round_follows [OF assms(1,2) this(1,2)] assms(1-3), of master master]
    playhead_round_frame [OF assms(1,2), of master ?f] f
  show "follows_sample k skew x s" "\<not> ps_is_master s" "ps_master_peer s = Some (ps_peer_id master)"
    "ps_sample_rate s = sample_rate"
    by (simp_all add: s_def playhead_rounds_def)
qed

text \<open>Claim C21. The drift estimator is blind while the first sample stays the best: it is fed the
  accepted offset, not the new measurement, so whatever the later exchanges measure (the skew
  between the clocks may have any value in each) the reported drift is 0 ppm and the offset
  is the one measured first, unless a measured round trip is shorter than the first. The clocks
  have any resolution of \<open>2 ^ - k\<close> milliseconds.\<close>

theorem drift_blind_after_best_sample:
  assumes "exchange_ok skew x" and "k \<le> 50" and "slower_rounds k x rounds"
  shows "dc_skew_ppm_ewma (ps_drift (playhead_rounds k master ((skew, x) # rounds)
      (new_follower p sample_rate master))) = f64_of_int 0 \<and>
    sy_best_offset_ms (ps_clock (playhead_rounds k master ((skew, x) # rounds)
      (new_follower p sample_rate master))) = measured_offset k skew x"
  using new_follower_follows(1) [OF assms] by (simp add: follows_sample_def)

text \<open>Clocks that tick twice per millisecond and drift apart by a quarter of a second in half an hour.\<close>

theorem drift_blind_after_best_sample_witness:
  "dc_skew_ppm_ewma (ps_drift (playhead_rounds 1 (playhead_with_clock (PeerId 1) 48000)
      [(0, \<lparr>ex_at = 1, ex_there = 5, ex_back = 5\<rparr>), (500, \<lparr>ex_at = 3600001, ex_there = 5, ex_back = 5\<rparr>)]
      (new_follower (PeerId 2) 48000 (playhead_with_clock (PeerId 1) 48000)))) = f64_of_int 0"
  using drift_blind_after_best_sample [of 0 "\<lparr>ex_at = 1, ex_there = 5, ex_back = 5\<rparr>" 1
      "[(500, \<lparr>ex_at = 3600001, ex_there = 5, ex_back = 5\<rparr>)]" "playhead_with_clock (PeerId 1) 48000" "PeerId 2" 48000]
  by (simp add: exchange_ok_def slower_rounds_def measured_rtt_def stamped_def exchange_rtt_def)

section \<open>How far the follower's position is off\<close>

lemma scaled_error:
  fixes q a r M :: real
  assumes "\<bar>2 * M * q - 2 * a\<bar> \<le> 2 * r + M" and "0 < M"
  shows "\<bar>q - a / M\<bar> \<le> r / M + 1 / 2"
proof -
  have "q - a / M = (2 * M * q - 2 * a) / (2 * M)" "r / M + 1 / 2 = (2 * r + M) / (2 * M)"
    using assms(2) by (simp_all add: field_simps)
  moreover have "\<bar>(2 * M * q - 2 * a) / (2 * M)\<bar> = \<bar>2 * M * q - 2 * a\<bar> / (2 * M)" using assms(2) by simp
  ultimately show ?thesis using divide_right_mono [OF assms(1), of "2 * M"] assms(2) by simp
qed

lemma rounded_advance:
  fixes i d r rate :: int
  assumes "\<bar>d\<bar> \<le> r" and "0 \<le> i" and "0 \<le> rate"
  shows "\<bar>real_of_int (advance_frames k (max 0 (i + d) * rate)) - real_of_int (i * rate) / (2 ^ k * 1000)\<bar> \<le>
    real_of_int (r * rate) / (2 ^ k * 1000) + 1 / 2"
proof -
  define M :: int where "M = 2 ^ k * 1000"
  let ?e = "max 0 (i + d) * rate"
  have M: "0 < M" "real_of_int M = 2 ^ k * 1000" by (simp_all add: M_def)
  have "\<bar>max 0 (i + d) - i\<bar> \<le> r" using assms(1,2) by (cases "0 \<le> i + d") (simp_all add: abs_le_iff)
  then have "\<bar>max 0 (i + d) - i\<bar> * rate \<le> r * rate" using assms(3) by (rule mult_right_mono)
  moreover have "\<bar>?e - i * rate\<bar> = \<bar>max 0 (i + d) - i\<bar> * rate"
    using assms(3) by (simp add: abs_mult flip: left_diff_distrib)
  ultimately have "\<bar>?e - i * rate\<bar> \<le> r * rate" by linarith
  with nearest_frame [OF M(1), of ?e]
  have "\<bar>2 * M * ((2 * ?e + M) div (2 * M)) - 2 * (i * rate)\<bar> \<le> 2 * (r * rate) + M" by linarith
  then have "\<bar>real_of_int (2 * M * ((2 * ?e + M) div (2 * M)) - 2 * (i * rate))\<bar> \<le> real_of_int (2 * (r * rate) + M)"
    by (simp only: of_int_abs [symmetric] of_int_le_iff)
  then have "\<bar>2 * real_of_int M * real_of_int ((2 * ?e + M) div (2 * M)) - 2 * real_of_int (i * rate)\<bar> \<le>
      2 * real_of_int (r * rate) + real_of_int M"
    by (simp only: of_int_diff of_int_mult of_int_add of_int_numeral)
  from scaled_error [OF this] M(1) show ?thesis
    unfolding advance_frames_def M_def [symmetric] M(2) [symmetric] by simp
qed

text \<open>\<open>round()\<close> of a reading, in whole milliseconds.\<close>

definition nearest_ms :: "nat \<Rightarrow> int \<Rightarrow> int" where
  "nearest_ms k t = (2 * t + 2 ^ k) div (2 * 2 ^ k)"

lemma f64_round_tick:
  assumes "0 \<le> t" and "small t" and "k \<le> 50"
  shows "f64_round_half_away (tick_time k t) = f64_of_int (nearest_ms k t)"
proof -
  obtain j where j: "f64_decode (tick_time k t) = Finite False (t * 2 ^ j) (- int k - int j)"
    using decode_dyadic [of t "- int k"] assms by (auto simp: tick_time_def small_def not_less)
  show ?thesis
  proof (cases "k + j")
    case 0
    then show ?thesis using j by (simp add: f64_round_half_away_def nearest_ms_def tick_whole)
  next
    case (Suc l)
    have e: "\<not> 0 \<le> - int k - int j" "nat (int j + int k - 1) = l" "nat (int j + int k) = Suc l" using Suc by linarith+
    have "(t * 2 ^ j + 2 ^ l) div 2 ^ Suc l = (2 * (t * 2 ^ j + 2 ^ l)) div (2 * 2 ^ Suc l)"
      by (rule div_mult_mult1 [symmetric]) simp
    also have "2 * (t * 2 ^ j + 2 ^ l) = (2 * t + 2 ^ k) * 2 ^ j"
      using Suc by (simp add: distrib_right flip: power_Suc power_add)
    also have "2 * 2 ^ Suc l = (2 * 2 ^ k) * (2 :: int) ^ j" by (simp flip: Suc power_add)
    finally have "(t * 2 ^ j + 2 ^ l) div 2 ^ Suc l = nearest_ms k t"
      by (simp add: nearest_ms_def)
    then have "f64_round_half_away (tick_time k t) = f64_round False (nearest_ms k t) 0 False"
      using e by (simp add: f64_round_half_away_def j)
    moreover have "0 \<le> nearest_ms k t" using assms(1) by (simp add: nearest_ms_def pos_imp_zdiv_nonneg_iff)
    ultimately show ?thesis by (simp add: f64_of_int_def f64_of_dyadic_def)
  qed
qed

lemma nearest_ms_bounds:
  assumes "0 \<le> t" and "t < 2 ^ 50"
  shows "0 \<le> nearest_ms k t" "nearest_ms k t < 2 ^ 51" "\<bar>2 * (2 ^ k * nearest_ms k t) - 2 * t\<bar> \<le> (if k = 0 then 0 else 2 ^ k)"
proof -
  show pos: "0 \<le> nearest_ms k t" using assms(1) by (simp add: nearest_ms_def pos_imp_zdiv_nonneg_iff)
  have near: "\<bar>2 * 2 ^ k * nearest_ms k t - 2 * t\<bar> \<le> 2 ^ k"
    using nearest_frame [of "2 ^ k" t] by (simp add: nearest_ms_def)
  then have "\<bar>2 * (2 ^ k * nearest_ms k t) - 2 * t\<bar> \<le> 2 ^ k" by (simp only: mult.assoc)
  then show "\<bar>2 * (2 ^ k * nearest_ms k t) - 2 * t\<bar> \<le> (if k = 0 then 0 else 2 ^ k)"
    by (cases "k = 0") (simp_all add: nearest_ms_def)
  show "nearest_ms k t < 2 ^ 51"
  proof (cases "1 \<le> nearest_ms k t")
    case True
    have "(1 :: int) \<le> 2 ^ k" by simp
    then have "1 * nearest_ms k t \<le> 2 ^ k * nearest_ms k t" using pos by (rule mult_right_mono)
    moreover have "2 ^ k * 1 \<le> 2 ^ k * nearest_ms k t" using True by (rule mult_left_mono) simp
    moreover have "t < 1125899906842624" using assms(2) by simp
    ultimately have "nearest_ms k t < 2251799813685248" using near unfolding mult.assoc by linarith
    then show ?thesis by simp
  qed simp
qed

lemma generate_update_stamp:
  assumes "0 \<le> t" and "t < 2 ^ 50" and "k \<le> 50"
  shows "ph_timestamp_ms (generate_update (tick_time k t) s) = word_of_int (nearest_ms k t)"
proof -
  note n = nearest_ms_bounds(1,2) [OF assms(1,2), of k]
  have t: "small t" "small (nearest_ms k t)" "small 0" using assms n by (simp_all add: small_def)
  then show ?thesis using assms(1,3) n f64_of_int_max_min(1) [of "nearest_ms k t" 0]
    by (simp add: generate_update_def f64_round_tick u64_of_f64_of_int)
qed

text \<open>How much the whole-millisecond stamps of the exchange and of the update can lose, in half ticks.\<close>

definition stamp_loss :: "nat \<Rightarrow> int" where
  "stamp_loss k = (if k = 0 then 0 else 3 * 2 ^ k - 2)"

text \<open>The measured offset in half milliseconds, and how far it is from the skew.\<close>

definition measured_halves :: "nat \<Rightarrow> int \<Rightarrow> exchange \<Rightarrow> int" where
  "measured_halves k skew x = 2 * stamped_skew k skew x + (ex_there (stamped k x) - ex_back (stamped k x))"

lemma stamp_remainder:
  fixes a :: int
  shows "2 ^ k * (a div 2 ^ k) \<le> a" "a \<le> 2 ^ k * (a div 2 ^ k) + 2 ^ k - 1"
proof -
  have "(0 :: int) < 2 ^ k" by simp
  from mult_div_mod_eq [of "2 ^ k" a] pos_mod_bound [OF this, of a] pos_mod_sign [OF this, of a]
  show "2 ^ k * (a div 2 ^ k) \<le> a" "a \<le> 2 ^ k * (a div 2 ^ k) + 2 ^ k - 1" by linarith+
qed

lemma measured_halves_error:
  assumes "exchange_ok skew x"
  shows "\<bar>2 ^ k * measured_halves k skew x - 2 * skew\<bar> \<le> exchange_rtt x + 2 * 2 ^ k - 2"
    and "\<bar>2 ^ k * measured_halves k skew x\<bar> \<le> 2 ^ 51"
proof -
  let ?a = "ex_at x" and ?b = "ex_at x + ex_there x + skew" and ?c = "ex_at x + ex_there x + ex_back x"
  define K a b c :: int where defs: "K = 2 ^ k" "a = K * (?a div K)" "b = K * (?b div K)" "c = K * (?c div K)"
  have "measured_halves k skew x = 2 * (?b div K) - ?a div K - ?c div K"
    by (simp add: measured_halves_def stamped_skew_def stamped_def defs(1))
  then have halves: "K * measured_halves k skew x = 2 * b - a - c"
    by (simp add: defs(2-4) right_diff_distrib)
  have rem: "a \<le> ?a" "?a \<le> a + K - 1" "b \<le> ?b" "?b \<le> b + K - 1" "c \<le> ?c" "?c \<le> c + K - 1"
    using stamp_remainder [where k = k and a = ?a] stamp_remainder [where k = k and a = ?b]
      stamp_remainder [where k = k and a = ?c] unfolding defs by blast+
  have x: "0 \<le> ex_there x" "0 \<le> ex_back x" "0 \<le> ?a" "0 \<le> ?b" "?a < 2 ^ 50" "?b < 2 ^ 50" "?c < 2 ^ 50"
    using assms by (simp_all add: exchange_ok_def)
  have pos: "0 \<le> a" "0 \<le> b" "0 \<le> c" using x by (simp_all add: defs pos_imp_zdiv_nonneg_iff)
  have "\<bar>K * measured_halves k skew x - 2 * skew\<bar> \<le> ex_there x + ex_back x + 2 * K - 2"
    unfolding halves using rem x(1,2) by linarith
  then show "\<bar>2 ^ k * measured_halves k skew x - 2 * skew\<bar> \<le> exchange_rtt x + 2 * 2 ^ k - 2"
    by (simp only: exchange_rtt_def defs(1))
  have "\<bar>K * measured_halves k skew x\<bar> \<le> 2 ^ 51"
    unfolding halves using rem x(5-7) pos by simp
  then show "\<bar>2 ^ k * measured_halves k skew x\<bar> \<le> 2 ^ 51" by (simp only: defs(1))
qed

text \<open>The master's update as the follower tracks it, and the follower's reading of it.\<close>

lemma follower_reading:
  fixes t n skew :: int and x :: exchange and k :: nat
  defines "d \<equiv> 2 ^ k * measured_halves k skew x - 2 * skew + (2 * t - 2 * (2 ^ k * nearest_ms k t))"
  assumes "exchange_ok skew x" and "k \<le> 40" and "slower_rounds k x rounds" and "ps_playing master"
    and "0 \<le> t" and "t < 2 ^ 50" and "0 \<le> n" and "n < 2 ^ 50"
    and "max 0 (2 * (n + skew - t) + d) * uint sample_rate \<le> 2 ^ 50"
  shows "synchronized_position (tick_time k n) (receive_update (generate_update (tick_time k t) master)
      (playhead_rounds k master ((skew, x) # rounds) (new_follower p sample_rate master))) =
    sat_add (ps_local_position master)
      (word_of_int (advance_frames (Suc k) (max 0 (2 * (n + skew - t) + d) * uint sample_rate)))"
proof -
  let ?s = "playhead_rounds k master ((skew, x) # rounds) (new_follower p sample_rate master)"
  let ?u = "generate_update (tick_time k t) master"
  let ?h = "measured_halves k skew x" and ?m = "nearest_ms k t" and ?K = "(2 :: int) ^ k"
  let ?track = "\<lparr>rt_position = ps_local_position master,
    rt_at_local_ms = tick_time (Suc k) (?K * (2 * ?m - ?h)), rt_playing = True\<rparr>"
  have k: "k \<le> 50" "Suc k \<le> 50" using assms(3) by simp_all
  note f = new_follower_follows [OF assms(2) k(1) assms(4), of master p sample_rate]
  note m = nearest_ms_bounds [OF assms(6,7), of k]
  have K: "?K \<le> 2 ^ 40" using assms(3) by (intro power_increasing) simp_all
  have h: "small ?h" using small_measured(2) [OF assms(2), of k] by (simp add: measured_halves_def)
  have u: "ph_peer_id ?u = ps_peer_id master" "ph_position ?u = ps_local_position master" "ph_playing ?u"
    using assms(5) by (simp_all add: generate_update_def)
  have "uint (word_of_int ?m :: u64) = ?m" by (rule uint_small_u64 [OF m(1,2)])
  then have "f64_of_u64 (ph_timestamp_ms ?u) = tick_time 1 (2 * ?m)"
    unfolding generate_update_stamp [OF assms(6,7) k(1)] f64_of_u64_def using tick_finer [of 0 ?m 1]
    by (simp add: tick_whole mult.commute)
  moreover have "measured_offset k skew x = tick_time 1 ?h"
    by (simp add: measured_offset_def exchange_offset_def measured_halves_def tick_time_def)
  moreover have "small (2 * ?m)" using m(1,2) by (simp add: small_def)
  ultimately have "sync_to_local (ps_clock ?s) (f64_of_u64 (ph_timestamp_ms ?u)) = tick_time 1 (2 * ?m - ?h)"
    using f(1) h by (simp add: sync_to_local_def follows_sample_def tick_ops)
  also have "\<dots> = tick_time (Suc k) (?K * (2 * ?m - ?h))" using tick_finer [of 1 "2 * ?m - ?h" k] by (simp add: mult.commute)
  finally have s: "receive_update ?u ?s = ?s\<lparr>ps_remotes := (ps_remotes ?s)(ps_peer_id master \<mapsto> ?track)\<rparr>"
    using u by (simp add: receive_update_def playhead_store_update_def)
  have e: "2 * n - ?K * (2 * ?m - ?h) = 2 * (n + skew - t) + d" by (simp add: d_def algebra_simps)
  have "\<bar>?K * ?h\<bar> \<le> 2251799813685248" using measured_halves_error(2) [OF assms(2), of k] by simp
  moreover have "\<bar>2 * (?K * ?m) - 2 * t\<bar> \<le> 1099511627776" using m(3) K by (simp split: if_splits)
  moreover have "t < 1125899906842624" "n < 1125899906842624" using assms(7,9) by simp_all
  moreover have "?K * (2 * ?m - ?h) = 2 * (?K * ?m) - ?K * ?h" by (simp add: right_diff_distrib)
  ultimately have "\<bar>?K * (2 * ?m - ?h)\<bar> < 9007199254740992" "\<bar>2 * n - ?K * (2 * ?m - ?h)\<bar> < 9007199254740992"
    "\<bar>2 * n\<bar> < 9007199254740992"
    using assms(6,8) by linarith+
  then have small: "small (?K * (2 * ?m - ?h))" "small (2 * n - ?K * (2 * ?m - ?h))" "small (2 * n)"
    by (simp_all only: small_def) simp_all
  have now: "tick_time k n = tick_time (Suc k) (2 * n)" using tick_finer [of k n 1] by (simp add: mult.commute)
  show ?thesis unfolding s now e [symmetric]
  proof (subst synchronized_position_exact [of _ "ps_peer_id master" ?track])
    show "max 0 (2 * n - ?K * (2 * ?m - ?h)) *
        uint (ps_sample_rate (?s\<lparr>ps_remotes := (ps_remotes ?s)(ps_peer_id master \<mapsto> ?track)\<rparr>)) \<le> 2 ^ 50"
      unfolding e using assms(10) f(4) by simp
  qed (use f small k in \<open>simp_all add: follows_sample_def\<close>)
qed

lemma uint_sat_add_small:
  assumes "uint a < 2 ^ 63" and "0 \<le> n" and "n < 2 ^ 50"
  shows "uint (sat_add (a :: u64) (word_of_int n)) = uint a + n"
proof -
  have n: "uint (word_of_int n :: u64) = n" using assms by (simp add: uint_word_of_int)
  have "uint (a + word_of_int n) = uint a + n" using assms by (simp add: uint_word_ariths n)
  then show ?thesis using assms(2) by (simp add: sat_add_def word_le_def)
qed

text \<open>Claim C19. Two engines end to end, with clocks of any resolution of \<open>2 ^ - k\<close> milliseconds (times and
  skew are counted in such ticks): a follower that has exchanged clock messages with its playing master
  (skew constant, no later measured round trip shorter than the first) and has received one update reports, at any
  later reading, a position off the master's own playhead by at most half the first round trip in
  frames, plus the frames of the 1.5 milliseconds that the stamps cut off (none when the clocks
  read whole milliseconds), plus half a frame of rounding. Every step is the code's, doubles
  included; readings are below \<open>2 ^ 50\<close> ticks, the elapsed ticks times the sample rate below
  \<open>2 ^ 49\<close> and the position below \<open>2 ^ 63\<close>.\<close>

theorem follower_position_error:
  assumes "k \<le> 40" and "exchange_ok skew x" and "slower_rounds k x rounds" and "ps_playing master"
    and "0 \<le> t" and "t < 2 ^ 50" and "0 \<le> n" and "n < 2 ^ 50" and "t \<le> n + skew"
    and "(2 * (n + skew - t) + exchange_rtt x + stamp_loss k) * uint sample_rate \<le> 2 ^ 50"
    and "uint (ps_local_position master) < 2 ^ 63"
  shows "\<bar>real_of_int (uint (synchronized_position (tick_time k n)
        (receive_update (generate_update (tick_time k t) master)
          (playhead_rounds k master ((skew, x) # rounds) (new_follower p sample_rate master))))) -
      (of_int (uint (ps_local_position master)) + of_int ((n + skew - t) * uint sample_rate) / (2 ^ k * 1000))\<bar>
    \<le> of_int ((exchange_rtt x + stamp_loss k) * uint sample_rate) / (2 ^ k * 2000) + 1 / 2"
proof -
  let ?r = "uint sample_rate" and ?i = "2 * (n + skew - t)"
  define d where "d = 2 ^ k * measured_halves k skew x - 2 * skew + (2 * t - 2 * (2 ^ k * nearest_ms k t))"
  let ?e = "max 0 (?i + d) * ?r" and ?R = "exchange_rtt x + stamp_loss k"
  have "stamp_loss k = 2 * 2 ^ k - 2 + (if k = 0 then 0 else 2 ^ k)" by (simp add: stamp_loss_def)
  then have d: "\<bar>d\<bar> \<le> ?R"
    using measured_halves_error(1) [OF assms(2), of k] nearest_ms_bounds(3) [OF assms(5,6), of k]
    unfolding d_def by linarith
  have i: "0 \<le> ?i" using assms(9) by simp
  have "max 0 (?i + d) \<le> ?i + ?R" using d i by linarith
  then have "?e \<le> (?i + ?R) * ?r" by (rule mult_right_mono) simp
  also have "\<dots> \<le> 2 ^ 50" using assms(10) by (simp only: add.assoc)
  finally have e: "0 \<le> ?e" "?e \<le> 2 ^ 50" by simp_all
  have pos: "uint (sat_add (ps_local_position master) (word_of_int (advance_frames (Suc k) ?e))) =
      uint (ps_local_position master) + advance_frames (Suc k) ?e"
    by (rule uint_sat_add_small [OF assms(11) advance_frames_bounds [OF e]])
  have units: "real_of_int (?i * ?r) / (2 ^ Suc k * 1000) = of_int ((n + skew - t) * ?r) / (2 ^ k * 1000)"
    "real_of_int (?R * ?r) / (2 ^ Suc k * 1000) = of_int (?R * ?r) / (2 ^ k * 2000)"
    by (simp_all add: field_simps)
  from rounded_advance [OF d i, of ?r "Suc k"]
  have "\<bar>real_of_int (advance_frames (Suc k) ?e) - of_int ((n + skew - t) * ?r) / (2 ^ k * 1000)\<bar> \<le>
      of_int (?R * ?r) / (2 ^ k * 2000) + 1 / 2" unfolding units by simp
  then show ?thesis
    unfolding follower_reading [OF assms(2,1,3-8), folded d_def, OF e(2)] pos of_int_add add_diff_cancel_left .
qed

text \<open>Clocks that tick four times per millisecond, read between milliseconds.\<close>

theorem follower_position_error_witness:
  "\<bar>real_of_int (uint (synchronized_position (tick_time 2 7001)
        (receive_update (generate_update (tick_time 2 4001)
            (set_playing True (set_local_position 480000 (playhead_with_clock (PeerId 1) 48000))))
          (playhead_rounds 2 (set_playing True (set_local_position 480000 (playhead_with_clock (PeerId 1) 48000)))
            [(1001, \<lparr>ex_at = 3, ex_there = 40, ex_back = 120\<rparr>)]
            (new_follower (PeerId 2) 48000
              (set_playing True (set_local_position 480000 (playhead_with_clock (PeerId 1) 48000)))))))) - 528012\<bar>
    \<le> 1020 + 1 / 2"
  using follower_position_error [of 2 1001 "\<lparr>ex_at = 3, ex_there = 40, ex_back = 120\<rparr>" "[]"
      "set_playing True (set_local_position 480000 (playhead_with_clock (PeerId 1) 48000))" 4001 7001 48000 "PeerId 2"]
  by (simp add: exchange_ok_def slower_rounds_def exchange_rtt_def stamp_loss_def set_playing_def set_local_position_def)

end
