(* ===== verification/Websocket.thy ===== *)
theory Websocket
  imports Tcp
begin

text \<open>
  The WebSocket transport (\<open>tpt-av-sync-net/src/websocket.rs\<close>). A connection is the state
  of its task: waiting for the remote \<open>Hello\<close>, waiting for the answer to a challenge,
  serving, failed or closed; one item of the socket's stream is one step. The codec, the
  signature library and the nonce are arguments; \<open>wc_out\<close> is what the connection wrote.
  Control messages the library answers (pongs) are left out. The lemmas show that anonymous
  peers get connected and that a peer that presents an identity never is.
\<close>

section \<open>Connections\<close>

datatype ws_item = WsBinary "u8 list" | WsPing | WsClose | WsOther | WsError | WsEnd

datatype ws_phase =
    WsAwaitHello
  | WsAwaitResponse peer_id peer_identity_proof
  | WsServing peer_id
  | WsFailed sync_error
  | WsClosed

record ws_conn =
  wc_phase :: ws_phase
  wc_nonce :: "u8 list"
  wc_out :: "u8 list list"
  wc_writing :: bool

record websocket =
  ws_local :: peer_id
  ws_identity :: "peer_identity option"
  ws_require_remote_identity :: bool
  ws_conns :: "(nat, ws_conn) fmap"
  ws_peers :: "(peer_id, nat) fmap"
  ws_inbox :: "(peer_id \<times> sync_message) list"

definition ws_serve :: "peer_id \<Rightarrow> websocket" where
  "ws_serve me =
     \<lparr>ws_local = me, ws_identity = None, ws_require_remote_identity = False, ws_conns = fmempty,
      ws_peers = fmempty, ws_inbox = []\<rparr>"

definition ws_serve_authenticated :: "peer_identity \<Rightarrow> websocket" where
  "ws_serve_authenticated ident =
     (ws_serve (id_peer_id ident))\<lparr>ws_identity := Some ident, ws_require_remote_identity := True\<rparr>"

definition ws_hello :: "ed25519 \<Rightarrow> websocket \<Rightarrow> wire_frame" where
  "ws_hello ed t =
     WireHello (case ws_identity t of Some i \<Rightarrow> id_peer_id i | None \<Rightarrow> ws_local t) PROTOCOL_VERSION
       (map_option (hello_proof ed) (ws_identity t))"

definition set_ws_conn :: "nat \<Rightarrow> ws_conn \<Rightarrow> websocket \<Rightarrow> websocket" where
  "set_ws_conn c k t = t\<lparr>ws_conns := fmupd c k (ws_conns t)\<rparr>"

text \<open>An accepted or dialled socket: the hello is sent, or the handshake has failed.\<close>

definition ws_open ::
  "ed25519 \<Rightarrow> (wire_frame \<Rightarrow> u8 list result) \<Rightarrow> nat \<Rightarrow> u8 list \<Rightarrow> bool \<Rightarrow> websocket \<Rightarrow> websocket" where
  "ws_open ed encode c nonce writing t =
     (let k = \<lparr>wc_phase = WsAwaitHello, wc_nonce = nonce, wc_out = [], wc_writing = writing\<rparr>
      in case encode (ws_hello ed t) of
           Inl e \<Rightarrow> set_ws_conn c (k\<lparr>wc_phase := WsFailed (sync_error_serialization (show_sync_error e))\<rparr>) t
         | Inr hello \<Rightarrow>
             if writing then set_ws_conn c (k\<lparr>wc_out := [hello]\<rparr>) t
             else set_ws_conn c (k\<lparr>wc_phase := WsFailed (sync_error_transport (show_io_error OtherIo))\<rparr>) t)"

definition ws_connect_authenticated ::
  "ed25519 \<Rightarrow> (wire_frame \<Rightarrow> u8 list result) \<Rightarrow> nat \<Rightarrow> u8 list \<Rightarrow> bool \<Rightarrow> peer_identity \<Rightarrow> websocket \<Rightarrow> websocket" where
  "ws_connect_authenticated ed encode c nonce writing ident t =
     ws_open ed encode c nonce writing (t\<lparr>ws_identity := Some ident, ws_require_remote_identity := True\<rparr>)"

definition ws_verify_remote_hello ::
  "ed25519 \<Rightarrow> (u8 list \<Rightarrow> u8 list) \<Rightarrow> bool \<Rightarrow> u16 \<Rightarrow> peer_id \<Rightarrow> peer_identity_proof option \<Rightarrow> unit result" where
  "ws_verify_remote_hello ed sha256 require_identity protocol claimed remote =
     (if protocol \<noteq> PROTOCOL_VERSION
      then Inl (sync_error_transport (''protocol mismatch: peer speaks v'' @ show_nat (unat protocol) @
        '', we speak v'' @ show_nat (unat PROTOCOL_VERSION)))
      else (case remote of
          Some p \<Rightarrow> (case proof_verify ed sha256 p claimed of
              Inl e \<Rightarrow> Inl (sync_error_transport (''peer identity rejected: '' @ show_identity_error e))
            | Inr _ \<Rightarrow> Inr ())
        | None \<Rightarrow> if require_identity
            then Inl (sync_error_transport ''peer did not present an identity (authenticated mode)'')
            else Inr ()))"

section \<open>One item of the stream\<close>

definition ws_register :: "nat \<Rightarrow> ws_conn \<Rightarrow> peer_id \<Rightarrow> websocket \<Rightarrow> websocket" where
  "ws_register c k peer t =
     set_ws_conn c (k\<lparr>wc_phase := WsServing peer\<rparr>) (t\<lparr>ws_peers := fmupd peer c (ws_peers t)\<rparr>)"

definition ws_fail :: "nat \<Rightarrow> ws_conn \<Rightarrow> sync_error \<Rightarrow> websocket \<Rightarrow> websocket" where
  "ws_fail c k e t = set_ws_conn c (k\<lparr>wc_phase := WsFailed e\<rparr>) t"

definition ws_challenge ::
  "(wire_frame \<Rightarrow> u8 list result) \<Rightarrow> nat \<Rightarrow> ws_conn \<Rightarrow> peer_id \<Rightarrow> peer_identity_proof \<Rightarrow> websocket \<Rightarrow> websocket" where
  "ws_challenge encode c k peer p t =
     (case encode (WireChallenge (wc_nonce k)) of
        Inl e \<Rightarrow> ws_fail c k (sync_error_serialization (show_sync_error e)) t
      | Inr challenge \<Rightarrow>
          if wc_writing k
          then set_ws_conn c (k\<lparr>wc_phase := WsAwaitResponse peer p, wc_out := wc_out k @ [challenge]\<rparr>) t
          else ws_fail c k (sync_error_transport (show_io_error OtherIo)) t)"

definition ws_on_hello ::
  "ed25519 \<Rightarrow> (u8 list \<Rightarrow> u8 list) \<Rightarrow> (wire_frame \<Rightarrow> u8 list result) \<Rightarrow> (u8 list \<Rightarrow> wire_frame result) \<Rightarrow>
   nat \<Rightarrow> ws_conn \<Rightarrow> ws_item \<Rightarrow> websocket \<Rightarrow> websocket" where
  "ws_on_hello ed sha256 encode decode c k item t =
     (case item of
        WsBinary bytes \<Rightarrow>
          (case decode bytes of
             Inr (WireHello peer protocol identity) \<Rightarrow>
               (case ws_verify_remote_hello ed sha256 (ws_require_remote_identity t) protocol peer identity of
                  Inl e \<Rightarrow> ws_fail c k e t
                | Inr _ \<Rightarrow>
                    (case identity of
                       None \<Rightarrow> ws_register c k peer t
                     | Some p \<Rightarrow> ws_challenge encode c k peer p t))
           | _ \<Rightarrow> t)
      | WsError \<Rightarrow> ws_fail c k (sync_error_transport (show_io_error OtherIo)) t
      | WsClose \<Rightarrow> ws_fail c k Disconnected t
      | WsEnd \<Rightarrow> ws_fail c k Disconnected t
      | _ \<Rightarrow> t)"

definition ws_on_response ::
  "ed25519 \<Rightarrow> (u8 list \<Rightarrow> wire_frame result) \<Rightarrow> nat \<Rightarrow> ws_conn \<Rightarrow> peer_id \<Rightarrow> peer_identity_proof \<Rightarrow>
   ws_item \<Rightarrow> websocket \<Rightarrow> websocket" where
  "ws_on_response ed decode c k peer p item t =
     (case item of
        WsBinary bytes \<Rightarrow>
          (case decode bytes of
             Inr (WireChallengeResponse signature) \<Rightarrow>
               (case verify_challenge_response ed p (wc_nonce k) signature of
                  Inl _ \<Rightarrow> ws_fail c k (sync_error_transport ''challenge response rejected'') t
                | Inr _ \<Rightarrow> ws_register c k peer t)
           | _ \<Rightarrow> t)
      | WsError \<Rightarrow> ws_fail c k (sync_error_transport (show_io_error OtherIo)) t
      | WsEnd \<Rightarrow> ws_fail c k Disconnected t
      | _ \<Rightarrow> t)"

text \<open>The reader task; at its end the peer's entry goes, whichever connection it names.\<close>

definition ws_on_message ::
  "(u8 list \<Rightarrow> wire_frame result) \<Rightarrow> nat \<Rightarrow> ws_conn \<Rightarrow> peer_id \<Rightarrow> ws_item \<Rightarrow> websocket \<Rightarrow> websocket" where
  "ws_on_message decode c k peer item t =
     (case item of
        WsBinary bytes \<Rightarrow>
          if length bytes \<le> MAX_WIRE_MESSAGE_BYTES
          then (case decode bytes of
                  Inr (WireMessage m) \<Rightarrow> t\<lparr>ws_inbox := ws_inbox t @ [(peer, m)]\<rparr>
                | _ \<Rightarrow> t)
          else t
      | WsPing \<Rightarrow> t
      | WsOther \<Rightarrow> t
      | _ \<Rightarrow> set_ws_conn c (k\<lparr>wc_phase := WsClosed\<rparr>) (t\<lparr>ws_peers := fmdrop peer (ws_peers t)\<rparr>))"

definition ws_receive ::
  "ed25519 \<Rightarrow> (u8 list \<Rightarrow> u8 list) \<Rightarrow> (wire_frame \<Rightarrow> u8 list result) \<Rightarrow> (u8 list \<Rightarrow> wire_frame result) \<Rightarrow>
   nat \<Rightarrow> ws_item \<Rightarrow> websocket \<Rightarrow> websocket" where
  "ws_receive ed sha256 encode decode c item t =
     (case fmlookup (ws_conns t) c of
        None \<Rightarrow> t
      | Some k \<Rightarrow>
          (case wc_phase k of
             WsAwaitHello \<Rightarrow> ws_on_hello ed sha256 encode decode c k item t
           | WsAwaitResponse peer p \<Rightarrow> ws_on_response ed decode c k peer p item t
           | WsServing peer \<Rightarrow> ws_on_message decode c k peer item t
           | _ \<Rightarrow> t))"

text \<open>The writer task ends when the sink fails.\<close>

definition ws_writer_fails :: "nat \<Rightarrow> websocket \<Rightarrow> websocket" where
  "ws_writer_fails c t =
     (case fmlookup (ws_conns t) c of
        None \<Rightarrow> t | Some k \<Rightarrow> set_ws_conn c (k\<lparr>wc_writing := False\<rparr>) t)"

section \<open>The transport interface\<close>

definition ws_send_frame ::
  "(wire_frame \<Rightarrow> u8 list result) \<Rightarrow> peer_id \<Rightarrow> wire_frame \<Rightarrow> websocket \<Rightarrow> unit result \<times> websocket" where
  "ws_send_frame encode peer f t =
     (case encode f of
        Inl e \<Rightarrow> (Inl (sync_error_serialization (show_sync_error e)), t)
      | Inr bytes \<Rightarrow>
          (case fmlookup (ws_peers t) peer of
             None \<Rightarrow> (Inl (PeerNotFound peer), t)
           | Some c \<Rightarrow>
               (case fmlookup (ws_conns t) c of
                  Some k \<Rightarrow>
                    if wc_writing k then (Inr (), set_ws_conn c (k\<lparr>wc_out := wc_out k @ [bytes]\<rparr>) t)
                    else (Inl (sync_error_transport ''peer write channel closed''), t)
                | None \<Rightarrow> (Inl (sync_error_transport ''peer write channel closed''), t))))"

definition ws_send_to ::
  "(wire_frame \<Rightarrow> u8 list result) \<Rightarrow> peer_id \<Rightarrow> sync_message \<Rightarrow> websocket \<Rightarrow> unit result \<times> websocket" where
  "ws_send_to encode peer m t = ws_send_frame encode peer (WireMessage m) t"

definition ws_transport_peers :: "websocket \<Rightarrow> peer_id list" where
  "ws_transport_peers t = btree_keys (ws_peers t)"

definition ws_broadcast ::
  "(wire_frame \<Rightarrow> u8 list result) \<Rightarrow> sync_message \<Rightarrow> websocket \<Rightarrow> unit result \<times> websocket" where
  "ws_broadcast encode m t =
     (if ws_transport_peers t = [] then (Inl (sync_error_transport ''no connected peers''), t)
      else (Inr (), fold (\<lambda>peer t. snd (ws_send_frame encode peer (WireMessage m) t)) (ws_transport_peers t) t))"

definition ws_try_recv :: "websocket \<Rightarrow> (peer_id \<times> sync_message) option result \<times> websocket" where
  "ws_try_recv t =
     (case ws_inbox t of
        [] \<Rightarrow> (Inr None, t)
      | x # rest \<Rightarrow> (Inr (Some x), t\<lparr>ws_inbox := rest\<rparr>))"

section \<open>Two endpoints\<close>

text \<open>
  A link joins connection 0 of two endpoints: what one wrote the other reads in order
  (\<open>wl_at_a\<close> and \<open>wl_at_b\<close> count the items read so far). Both ends may send messages, read
  control messages, lose the connection or their writer at any time.
\<close>

record ws_link =
  wl_a :: websocket
  wl_b :: websocket
  wl_at_a :: nat
  wl_at_b :: nat

definition ws_written :: "websocket \<Rightarrow> u8 list list" where
  "ws_written t = (case fmlookup (ws_conns t) 0 of None \<Rightarrow> [] | Some k \<Rightarrow> wc_out k)"

definition is_binary :: "ws_item \<Rightarrow> bool" where
  "is_binary item \<longleftrightarrow> (case item of WsBinary _ \<Rightarrow> True | _ \<Rightarrow> False)"

inductive ws_link_step ::
  "ed25519 \<Rightarrow> (u8 list \<Rightarrow> u8 list) \<Rightarrow> (wire_frame \<Rightarrow> u8 list result) \<Rightarrow> (u8 list \<Rightarrow> wire_frame result) \<Rightarrow>
   ws_link \<Rightarrow> ws_link \<Rightarrow> bool"
  for ed sha256 encode decode where
  read_a: "wl_at_a l < length (ws_written (wl_b l)) \<Longrightarrow>
    ws_link_step ed sha256 encode decode l (l\<lparr>wl_at_a := Suc (wl_at_a l),
      wl_a := ws_receive ed sha256 encode decode 0 (WsBinary (ws_written (wl_b l) ! wl_at_a l)) (wl_a l)\<rparr>)"
| read_b: "wl_at_b l < length (ws_written (wl_a l)) \<Longrightarrow>
    ws_link_step ed sha256 encode decode l (l\<lparr>wl_at_b := Suc (wl_at_b l),
      wl_b := ws_receive ed sha256 encode decode 0 (WsBinary (ws_written (wl_a l) ! wl_at_b l)) (wl_b l)\<rparr>)"
| other_a: "\<not> is_binary item \<Longrightarrow>
    ws_link_step ed sha256 encode decode l (l\<lparr>wl_a := ws_receive ed sha256 encode decode 0 item (wl_a l)\<rparr>)"
| other_b: "\<not> is_binary item \<Longrightarrow>
    ws_link_step ed sha256 encode decode l (l\<lparr>wl_b := ws_receive ed sha256 encode decode 0 item (wl_b l)\<rparr>)"
| send_a: "ws_link_step ed sha256 encode decode l (l\<lparr>wl_a := snd (ws_send_to encode p m (wl_a l))\<rparr>)"
| send_b: "ws_link_step ed sha256 encode decode l (l\<lparr>wl_b := snd (ws_send_to encode p m (wl_b l))\<rparr>)"
| stop_a: "ws_link_step ed sha256 encode decode l (l\<lparr>wl_a := ws_writer_fails 0 (wl_a l)\<rparr>)"
| stop_b: "ws_link_step ed sha256 encode decode l (l\<lparr>wl_b := ws_writer_fails 0 (wl_b l)\<rparr>)"

definition ws_connected ::
  "ed25519 \<Rightarrow> (wire_frame \<Rightarrow> u8 list result) \<Rightarrow> u8 list \<Rightarrow> u8 list \<Rightarrow> websocket \<Rightarrow> websocket \<Rightarrow> ws_link" where
  "ws_connected ed encode nonce_a nonce_b a b =
     \<lparr>wl_a = ws_open ed encode 0 nonce_a True a, wl_b = ws_open ed encode 0 nonce_b True b,
      wl_at_a = 0, wl_at_b = 0\<rparr>"

definition ws_link_reachable ::
  "ed25519 \<Rightarrow> (u8 list \<Rightarrow> u8 list) \<Rightarrow> (wire_frame \<Rightarrow> u8 list result) \<Rightarrow> (u8 list \<Rightarrow> wire_frame result) \<Rightarrow>
   ws_link \<Rightarrow> ws_link \<Rightarrow> bool" where
  "ws_link_reachable ed sha256 encode decode = (ws_link_step ed sha256 encode decode)\<^sup>*\<^sup>*"

section \<open>Nobody answers a challenge\<close>

text \<open>What an endpoint with an identity writes: never an answer, and every hello shows the identity.\<close>

definition unanswering :: "wire_frame \<Rightarrow> bool" where
  "unanswering f \<longleftrightarrow>
     (case f of WireHello _ _ identity \<Rightarrow> identity \<noteq> None | WireChallengeResponse _ \<Rightarrow> False | _ \<Rightarrow> True)"

definition writes_unanswering :: "(u8 list \<Rightarrow> wire_frame result) \<Rightarrow> websocket \<Rightarrow> bool" where
  "writes_unanswering decode t \<longleftrightarrow>
     (\<forall>k. fmlookup (ws_conns t) 0 = Some k \<longrightarrow>
       (\<forall>bytes \<in> set (wc_out k). \<exists>f. decode bytes = Inr f \<and> unanswering f))"

definition waits :: "websocket \<Rightarrow> bool" where
  "waits t \<longleftrightarrow> ws_peers t = fmempty \<and>
     (\<forall>k p. fmlookup (ws_conns t) 0 = Some k \<longrightarrow> wc_phase k \<noteq> WsServing p)"

lemma set_ws_conn_fields [simp]:
  "ws_conns (set_ws_conn c k t) = fmupd c k (ws_conns t)" "ws_peers (set_ws_conn c k t) = ws_peers t"
  "ws_inbox (set_ws_conn c k t) = ws_inbox t" "ws_identity (set_ws_conn c k t) = ws_identity t"
  by (simp_all add: set_ws_conn_def)

lemmas ws_handlers = ws_receive_def ws_on_hello_def ws_on_response_def ws_on_message_def ws_challenge_def
  ws_register_def ws_fail_def

definition codec_reads_back :: "(wire_frame \<Rightarrow> u8 list result) \<Rightarrow> (u8 list \<Rightarrow> wire_frame result) \<Rightarrow> bool" where
  "codec_reads_back encode decode \<longleftrightarrow> (\<forall>f bytes. encode f = Inr bytes \<longrightarrow> decode bytes = Inr f)"

lemma writes_receive:
  assumes "codec_reads_back encode decode" and "writes_unanswering decode t"
  shows "writes_unanswering decode (ws_receive ed sha256 encode decode c item t)"
  using assms
  by (auto simp: ws_handlers writes_unanswering_def codec_reads_back_def unanswering_def
      split: option.splits ws_phase.splits ws_item.splits sum.splits wire_frame.splits if_splits)

lemma waits_receive:
  assumes "waits t" and "\<And>bytes. item = WsBinary bytes \<Longrightarrow> \<exists>f. decode bytes = Inr f \<and> unanswering f"
  shows "waits (ws_receive ed sha256 encode decode 0 item t)"
  using assms
  by (auto simp: ws_handlers waits_def unanswering_def
      split: option.splits ws_phase.splits ws_item.splits sum.splits wire_frame.splits if_splits)

lemma writes_send:
  assumes "codec_reads_back encode decode" and "writes_unanswering decode t"
  shows "writes_unanswering decode (snd (ws_send_to encode p m t))"
  using assms
  by (auto simp: ws_send_to_def ws_send_frame_def writes_unanswering_def codec_reads_back_def unanswering_def
      split: option.splits sum.splits)

lemma waits_send: "waits t \<Longrightarrow> waits (snd (ws_send_to encode p m t))"
  by (auto simp: waits_def ws_send_to_def ws_send_frame_def split: sum.split)

lemma writer_fails_keeps:
  "writes_unanswering decode t \<Longrightarrow> writes_unanswering decode (ws_writer_fails c t)"
  "waits t \<Longrightarrow> waits (ws_writer_fails c t)"
  by (auto simp: ws_writer_fails_def writes_unanswering_def waits_def split: option.split)

lemma written_unanswering:
  assumes "writes_unanswering decode t" and "n < length (ws_written t)"
  shows "\<exists>f. decode (ws_written t ! n) = Inr f \<and> unanswering f"
  using assms by (auto simp: ws_written_def writes_unanswering_def split: option.splits)

lemma ws_link_invariant:
  assumes "codec_reads_back encode decode"
    and "(ws_link_step ed sha256 encode decode)\<^sup>*\<^sup>* l l'" and "writes_unanswering decode (wl_b l)" and "waits (wl_a l)"
  shows "writes_unanswering decode (wl_b l') \<and> waits (wl_a l')"
  using assms(2-4)
proof (induction rule: rtranclp_induct)
  case (step l l')
  from step.hyps(2) step.IH [OF step.prems] show ?case
  proof cases
    case read_a
    then show ?thesis using step.IH [OF step.prems] written_unanswering by (auto intro!: waits_receive)
  qed (auto simp: is_binary_def intro!: waits_receive writes_receive writes_send waits_send writer_fails_keeps assms(1))
qed simp

text \<open>Claim C38. A WebSocket peer that presents an identity is never admitted: each end challenges
  the other's identity and no code answers a challenge, so in every reachable state of
  a link whose end \<open>b\<close> has an identity, end \<open>a\<close> has not entered it in its table and delivered nothing;
  with identities on both ends both wait for ever.\<close>

theorem ws_identity_never_admitted:
  assumes "codec_reads_back encode decode" and "ws_identity b = Some ident" and "ws_peers a = fmempty"
    and "ws_link_reachable ed sha256 encode decode (ws_connected ed encode nonce_a nonce_b a b) l"
  shows "ws_transport_peers (wl_a l) = [] \<and>
    fst (ws_broadcast encode m (wl_a l)) = Inl (sync_error_transport ''no connected peers'')"
proof -
  let ?l = "ws_connected ed encode nonce_a nonce_b a b"
  have "writes_unanswering decode (wl_b ?l)" using assms(1,2)
    by (auto simp: ws_connected_def ws_open_def ws_hello_def writes_unanswering_def codec_reads_back_def
        unanswering_def Let_def split: sum.splits)
  moreover have "waits (wl_a ?l)" using assms(3)
    by (auto simp: ws_connected_def ws_open_def waits_def Let_def split: sum.splits)
  ultimately have "waits (wl_a l)"
    using ws_link_invariant [OF assms(1)] assms(4) unfolding ws_link_reachable_def by blast
  then show ?thesis
    by (simp add: waits_def ws_broadcast_def ws_transport_peers_def btree_keys_def sorted_list_of_fset.rep_eq)
qed

text \<open>A codec for the listed frames.\<close>

definition listed_encode :: "wire_frame list \<Rightarrow> wire_frame \<Rightarrow> u8 list result" where
  "listed_encode fs f =
     (if f \<in> set fs then one_byte_encode fs f else Inl (sync_error_serialization ''unknown frame''))"

lemma listed_codec: "length fs < 256 \<Longrightarrow> codec_reads_back (listed_encode fs) (one_byte_decode fs)"
  using one_byte_wire_codec
  by (fastforce simp: codec_reads_back_def listed_encode_def wire_codec_ok_def split: if_splits sum.splits)

abbreviation example_ends :: ws_link where
  "example_ends \<equiv> ws_connected example_ed25519 (listed_encode example_frames) [5] [5]
     (ws_serve_authenticated (example_identity 1)) (ws_serve_authenticated (example_identity 2))"

lemma example_ends_written: "length (ws_written (wl_b example_ends)) = 1"
proof -
  have "ws_hello example_ed25519 (ws_serve_authenticated (example_identity 2)) \<in> set example_frames"
    by (simp add: ws_hello_def ws_serve_authenticated_def example_frames_def acceptor_frames_def)
  then show ?thesis
    by (simp add: ws_connected_def ws_open_def ws_written_def listed_encode_def one_byte_encode_def)
qed

theorem ws_identity_never_admitted_witness:
  "\<exists>l. ws_link_reachable example_ed25519 example_hash (listed_encode example_frames)
      (one_byte_decode example_frames) example_ends l \<and> wl_at_a l = 1 \<and> ws_transport_peers (wl_a l) = []"
proof -
  let ?l = "example_ends\<lparr>wl_at_a := Suc (wl_at_a example_ends),
    wl_a := ws_receive example_ed25519 example_hash (listed_encode example_frames) (one_byte_decode example_frames) 0
      (WsBinary (ws_written (wl_b example_ends) ! wl_at_a example_ends)) (wl_a example_ends)\<rparr>"
  have at: "wl_at_a example_ends = 0" by (simp add: ws_connected_def)
  have "length example_frames < 256" by (simp add: example_frames_def dialer_frames_def acceptor_frames_def)
  note codec = listed_codec [OF this]
  have reach: "ws_link_reachable example_ed25519 example_hash (listed_encode example_frames)
      (one_byte_decode example_frames) example_ends ?l"
    unfolding ws_link_reachable_def
    by (intro r_into_rtranclp ws_link_step.read_a) (simp add: at example_ends_written)
  have "ws_identity (ws_serve_authenticated (example_identity 2)) = Some (example_identity 2)"
    "ws_peers (ws_serve_authenticated (example_identity 1)) = fmempty"
    by (simp_all add: ws_serve_authenticated_def ws_serve_def)
  from ws_identity_never_admitted [OF codec this reach] reach at show ?thesis by (intro exI [of _ ?l]) simp
qed

section \<open>Anonymous peers\<close>

lemma ws_open_anonymous:
  assumes "encode (ws_hello ed (ws_serve r)) = Inr h"
  shows "ws_open ed encode 0 nonce True (ws_serve r) =
    set_ws_conn 0 \<lparr>wc_phase = WsAwaitHello, wc_nonce = nonce, wc_out = [h], wc_writing = True\<rparr> (ws_serve r)"
  using assms by (simp add: ws_open_def)

lemma ws_admits_anonymous:
  assumes "decode h = Inr (WireHello q PROTOCOL_VERSION None)" and "wc_phase k = WsAwaitHello"
  shows "ws_receive ed sha256 encode decode 0 (WsBinary h) (set_ws_conn 0 k (ws_serve r)) =
    ws_register 0 k q (set_ws_conn 0 k (ws_serve r))"
  using assms by (simp add: ws_receive_def ws_on_hello_def ws_verify_remote_hello_def ws_serve_def set_ws_conn_def)

text \<open>Two anonymous ends that read each other's hello admit each other.\<close>

theorem ws_anonymous_handshake:
  assumes "codec_reads_back encode decode" and "encode (ws_hello ed (ws_serve p)) = Inr hp"
    and "encode (ws_hello ed (ws_serve q)) = Inr hq"
  shows "\<exists>l. ws_link_reachable ed sha256 encode decode
      (ws_connected ed encode nonce_a nonce_b (ws_serve p) (ws_serve q)) l \<and>
    ws_transport_peers (wl_a l) = [q] \<and> ws_transport_peers (wl_b l) = [p]"
proof -
  define ka where "ka = \<lparr>wc_phase = WsAwaitHello, wc_nonce = nonce_a, wc_out = [hp], wc_writing = True\<rparr>"
  define kb where "kb = \<lparr>wc_phase = WsAwaitHello, wc_nonce = nonce_b, wc_out = [hq], wc_writing = True\<rparr>"
  define a b where "a = set_ws_conn 0 ka (ws_serve p)" and "b = set_ws_conn 0 kb (ws_serve q)"
  define a' b' where "a' = ws_register 0 ka q a" and "b' = ws_register 0 kb p b"
  have hello: "ws_hello ed (ws_serve r) = WireHello r PROTOCOL_VERSION None" for r
    by (simp add: ws_hello_def ws_serve_def)
  have dec: "decode hp = Inr (WireHello p PROTOCOL_VERSION None)" "decode hq = Inr (WireHello q PROTOCOL_VERSION None)"
    using assms by (auto simp: codec_reads_back_def hello)
  have start: "ws_connected ed encode nonce_a nonce_b (ws_serve p) (ws_serve q) =
      \<lparr>wl_a = a, wl_b = b, wl_at_a = 0, wl_at_b = 0\<rparr>"
    by (simp only: ws_connected_def ws_open_anonymous [of encode ed p, OF assms(2)]
        ws_open_anonymous [of encode ed q, OF assms(3)] a_def b_def ka_def kb_def)
  have written: "ws_written b = [hq]" "ws_written a' = [hp]"
    by (simp_all add: ws_written_def a'_def b_def ws_register_def ka_def kb_def)
  have reads: "ws_receive ed sha256 encode decode 0 (WsBinary hq) a = a'"
    "ws_receive ed sha256 encode decode 0 (WsBinary hp) b = b'"
    unfolding a_def a'_def b_def b'_def using dec by (simp_all add: ws_admits_anonymous ka_def kb_def)
  have step_a: "ws_link_step ed sha256 encode decode \<lparr>wl_a = a, wl_b = b, wl_at_a = 0, wl_at_b = 0\<rparr>
      \<lparr>wl_a = a', wl_b = b, wl_at_a = 1, wl_at_b = 0\<rparr>"
    using ws_link_step.read_a [of "\<lparr>wl_a = a, wl_b = b, wl_at_a = 0, wl_at_b = 0\<rparr>" ed sha256 encode decode] by (simp add: written reads)
  have step_b: "ws_link_step ed sha256 encode decode \<lparr>wl_a = a', wl_b = b, wl_at_a = 1, wl_at_b = 0\<rparr>
      \<lparr>wl_a = a', wl_b = b', wl_at_a = 1, wl_at_b = 1\<rparr>"
    using ws_link_step.read_b [of "\<lparr>wl_a = a', wl_b = b, wl_at_a = 1, wl_at_b = 0\<rparr>" ed sha256 encode decode] by (simp add: written reads)
  have "ws_link_reachable ed sha256 encode decode
      (ws_connected ed encode nonce_a nonce_b (ws_serve p) (ws_serve q)) \<lparr>wl_a = a', wl_b = b', wl_at_a = 1, wl_at_b = 1\<rparr>"
    unfolding ws_link_reachable_def start
    by (rule converse_rtranclp_into_rtranclp, rule step_a, rule r_into_rtranclp, rule step_b)
  moreover have "ws_transport_peers a' = [q]" "ws_transport_peers b' = [p]"
    by (simp_all add: a'_def b'_def a_def b_def ws_register_def ws_serve_def ws_transport_peers_def btree_keys_def
        sorted_list_of_fset.rep_eq)
  ultimately show ?thesis by force
qed

end
