(* ===== verification/Webrtc.thy ===== *)
theory Webrtc
  imports Tcp "HOL-Library.Multiset"
begin

text \<open>
  The WebRTC transport (\<open>tpt-av-sync-net/src/webrtc.rs\<close>): signaling envelopes, the buffers
  for early ICE candidates and early frames, and the transport interface. The WebRTC library
  is an argument: the record \<open>rtc_api\<close> says how each of its calls comes out. The lemmas
  show when buffered candidates are applied, that a candidate before the offer is refused,
  and what the two threads that share the frame buffer can do to a frame.
\<close>

section \<open>State\<close>

datatype signal_envelope =
    EnvOffer (env_from: peer_id) (env_to: peer_id) string
  | EnvAnswer (env_from: peer_id) (env_to: peer_id) string
  | EnvIceCandidate (env_from: peer_id) (env_to: peer_id) string string

record ice_candidate_init =
  ici_candidate :: string
  ici_sdp_mid :: "string option"

text \<open>
  One peer's connection. \<open>rc_remote\<close>, \<open>rc_candidates\<close> and \<open>rc_sent\<close> are the library's side: the
  remote description is set, the candidates it was given, the frames handed to the channel.
\<close>

record rtc_conn =
  rc_channel :: bool
  rc_pending_candidates :: "ice_candidate_init list"
  rc_pending_writes :: "u8 list list"
  rc_open :: bool
  rc_remote :: bool
  rc_candidates :: "ice_candidate_init list"
  rc_sent :: "u8 list list"

record webrtc =
  wr_local :: peer_id
  wr_peers :: "(peer_id, rtc_conn) fmap"
  wr_inbox :: "(peer_id \<times> sync_message) list"
  wr_outgoing :: "signal_envelope list"

record rtc_api =
  ra_new_peer_connection :: "string + unit"
  ra_parse_sdp :: "string \<Rightarrow> string + unit"
  ra_set_remote :: "string \<Rightarrow> string + unit"
  ra_create_description :: "string + unit"
  ra_set_local :: "string + unit"
  ra_local_sdp :: "string option"
  ra_create_channel :: "string + unit"
  ra_add_candidate :: "ice_candidate_init \<Rightarrow> string + unit"
  ra_channel_send :: "u8 list \<Rightarrow> string + unit"
  ra_nested_block_on :: bool

definition webrtc_new :: "peer_id \<Rightarrow> webrtc" where
  "webrtc_new me = \<lparr>wr_local = me, wr_peers = fmempty, wr_inbox = [], wr_outgoing = []\<rparr>"

definition rtc_conn_new :: rtc_conn where
  "rtc_conn_new =
     \<lparr>rc_channel = False, rc_pending_candidates = [], rc_pending_writes = [], rc_open = False,
      rc_remote = False, rc_candidates = [], rc_sent = []\<rparr>"

definition rtc_is_ready :: "peer_id \<Rightarrow> webrtc \<Rightarrow> bool" where
  "rtc_is_ready peer t = (case fmlookup (wr_peers t) peer of Some k \<Rightarrow> rc_open k | None \<Rightarrow> False)"

definition rtc_emit :: "signal_envelope \<Rightarrow> webrtc \<Rightarrow> webrtc" where
  "rtc_emit env t = t\<lparr>wr_outgoing := wr_outgoing t @ [env]\<rparr>"

definition take_outgoing_signal :: "webrtc \<Rightarrow> signal_envelope option \<times> webrtc" where
  "take_outgoing_signal t =
     (case wr_outgoing t of [] \<Rightarrow> (None, t) | env # rest \<Rightarrow> (Some env, t\<lparr>wr_outgoing := rest\<rparr>))"

definition set_rtc_conn :: "peer_id \<Rightarrow> rtc_conn \<Rightarrow> webrtc \<Rightarrow> webrtc" where
  "set_rtc_conn peer k t = t\<lparr>wr_peers := fmupd peer k (wr_peers t)\<rparr>"

definition peers_entry :: "peer_id \<Rightarrow> webrtc \<Rightarrow> rtc_conn result" where
  "peers_entry peer t = (case fmlookup (wr_peers t) peer of Some k \<Rightarrow> Inr k | None \<Rightarrow> Inl (PeerNotFound peer))"

section \<open>Signaling\<close>

text \<open>A failed library call: the code's message with the library's behind it.\<close>

definition lib_error :: "string \<Rightarrow> string \<Rightarrow> sync_error" where
  "lib_error what e = sync_error_transport (what @ '': '' @ e)"

definition create_peer_connection :: "rtc_api \<Rightarrow> peer_id \<Rightarrow> webrtc \<Rightarrow> unit result \<times> webrtc" where
  "create_peer_connection api peer t =
     (case ra_new_peer_connection api of
        Inl e \<Rightarrow> (Inl (lib_error ''peer connection'' e), t)
      | Inr _ \<Rightarrow> (Inr (), set_rtc_conn peer rtc_conn_new t))"

text \<open>A candidate the library refuses is lost.\<close>

definition add_candidate :: "rtc_api \<Rightarrow> ice_candidate_init \<Rightarrow> rtc_conn \<Rightarrow> rtc_conn" where
  "add_candidate api i k =
     (case ra_add_candidate api i of Inl _ \<Rightarrow> k | Inr _ \<Rightarrow> k\<lparr>rc_candidates := rc_candidates k @ [i]\<rparr>)"

definition flush_candidates :: "rtc_api \<Rightarrow> peer_id \<Rightarrow> webrtc \<Rightarrow> webrtc" where
  "flush_candidates api peer t =
     (case peers_entry peer t of
        Inl _ \<Rightarrow> t
      | Inr k \<Rightarrow>
          set_rtc_conn peer
            (fold (add_candidate api) (rc_pending_candidates k) (k\<lparr>rc_pending_candidates := []\<rparr>)) t)"

definition set_remote_description ::
  "rtc_api \<Rightarrow> peer_id \<Rightarrow> string \<Rightarrow> webrtc \<Rightarrow> unit result \<times> webrtc" where
  "set_remote_description api peer sdp t =
     (case ra_set_remote api sdp of
        Inl e \<Rightarrow> (Inl (lib_error ''set remote'' e), t)
      | Inr _ \<Rightarrow>
          (case peers_entry peer t of
             Inl e \<Rightarrow> (Inl e, t)
           | Inr k \<Rightarrow> (Inr (), set_rtc_conn peer (k\<lparr>rc_remote := True\<rparr>) t)))"

text \<open>Creating the local description and emitting its envelope.\<close>

definition describe_locally ::
  "rtc_api \<Rightarrow> string \<Rightarrow> (string \<Rightarrow> signal_envelope) \<Rightarrow> webrtc \<Rightarrow> unit result \<times> webrtc" where
  "describe_locally api what envelope t =
     (case ra_create_description api of
        Inl e \<Rightarrow> (Inl (lib_error what e), t)
      | Inr _ \<Rightarrow>
          (case ra_set_local api of
             Inl e \<Rightarrow> (Inl (lib_error ''set local'' e), t)
           | Inr _ \<Rightarrow>
               (case ra_local_sdp api of
                  None \<Rightarrow> (Inl (sync_error_transport ''no local description''), t)
                | Some sdp \<Rightarrow> (Inr (), rtc_emit (envelope sdp) t))))"

definition answer_offer :: "rtc_api \<Rightarrow> peer_id \<Rightarrow> string \<Rightarrow> webrtc \<Rightarrow> unit result \<times> webrtc" where
  "answer_offer api from_peer sdp t =
     (case ra_parse_sdp api sdp of
        Inl e \<Rightarrow> (Inl (lib_error ''bad offer sdp'' e), t)
      | Inr _ \<Rightarrow>
          (case create_peer_connection api from_peer t of
             (Inl e, t) \<Rightarrow> (Inl e, t)
           | (Inr _, t) \<Rightarrow>
               (case set_remote_description api from_peer sdp t of
                  (Inl e, t) \<Rightarrow> (Inl e, t)
                | (Inr _, t) \<Rightarrow>
                    describe_locally api ''answer'' (EnvAnswer (wr_local t) from_peer)
                      (flush_candidates api from_peer t))))"

definition on_answer :: "rtc_api \<Rightarrow> peer_id \<Rightarrow> string \<Rightarrow> webrtc \<Rightarrow> unit result \<times> webrtc" where
  "on_answer api from_peer sdp t =
     (case ra_parse_sdp api sdp of
        Inl e \<Rightarrow> (Inl (lib_error ''bad answer sdp'' e), t)
      | Inr _ \<Rightarrow>
          (case peers_entry from_peer t of
             Inl e \<Rightarrow> (Inl e, t)
           | Inr _ \<Rightarrow>
               (case set_remote_description api from_peer sdp t of
                  (Inl e, t) \<Rightarrow> (Inl e, t)
                | (Inr _, t) \<Rightarrow> (Inr (), flush_candidates api from_peer t))))"

definition candidate_init :: "string \<Rightarrow> string \<Rightarrow> ice_candidate_init" where
  "candidate_init candidate mid =
     \<lparr>ici_candidate = candidate, ici_sdp_mid = (if mid = [] then None else Some mid)\<rparr>"

definition on_candidate :: "rtc_api \<Rightarrow> peer_id \<Rightarrow> string \<Rightarrow> string \<Rightarrow> webrtc \<Rightarrow> unit result \<times> webrtc" where
  "on_candidate api from_peer candidate mid t =
     (let i = candidate_init candidate mid
      in case peers_entry from_peer t of
           Inl e \<Rightarrow> (Inl e, t)
         | Inr k \<Rightarrow>
             if rc_remote k
             then (case ra_add_candidate api i of
                     Inl e \<Rightarrow> (Inl (lib_error ''add candidate'' e), t)
                   | Inr _ \<Rightarrow> (Inr (), set_rtc_conn from_peer (add_candidate api i k) t))
             else (Inr (), set_rtc_conn from_peer
               (k\<lparr>rc_pending_candidates := rc_pending_candidates k @ [i]\<rparr>) t))"

definition handle_signal :: "rtc_api \<Rightarrow> signal_envelope \<Rightarrow> webrtc \<Rightarrow> unit result \<times> webrtc" where
  "handle_signal api env t =
     (if env_to env \<noteq> wr_local t then (Inr (), t)
      else (case env of
          EnvOffer from_peer _ sdp \<Rightarrow> answer_offer api from_peer sdp t
        | EnvAnswer from_peer _ sdp \<Rightarrow> on_answer api from_peer sdp t
        | EnvIceCandidate from_peer _ candidate mid \<Rightarrow> on_candidate api from_peer candidate mid t))"

definition rtc_dial :: "rtc_api \<Rightarrow> peer_id \<Rightarrow> webrtc \<Rightarrow> unit result \<times> webrtc" where
  "rtc_dial api peer t =
     (case create_peer_connection api peer t of
        (Inl e, t) \<Rightarrow> (Inl e, t)
      | (Inr _, t) \<Rightarrow>
          (case ra_create_channel api of
             Inl e \<Rightarrow> (Inl (lib_error ''data channel'' e), t)
           | Inr _ \<Rightarrow>
               (case peers_entry peer t of
                  Inl e \<Rightarrow> (Inl e, t)
                | Inr k \<Rightarrow>
                    describe_locally api ''offer'' (EnvOffer (wr_local t) peer)
                      (set_rtc_conn peer (k\<lparr>rc_channel := True\<rparr>) t))))"

text \<open>The library's callbacks: a local candidate, and the remote's data channel.\<close>

definition on_ice_candidate :: "peer_id \<Rightarrow> ice_candidate_init \<Rightarrow> webrtc \<Rightarrow> webrtc" where
  "on_ice_candidate peer i t =
     rtc_emit (EnvIceCandidate (wr_local t) peer (ici_candidate i)
       (case ici_sdp_mid i of Some mid \<Rightarrow> mid | None \<Rightarrow> [])) t"

definition on_data_channel :: "peer_id \<Rightarrow> webrtc \<Rightarrow> webrtc" where
  "on_data_channel peer t =
     (case fmlookup (wr_peers t) peer of
        None \<Rightarrow> t | Some k \<Rightarrow> set_rtc_conn peer (k\<lparr>rc_channel := True\<rparr>) t)"

section \<open>Frames\<close>

text \<open>
  \<open>send_frame\<close> tests \<open>open\<close> first (\<open>rtc_send_checks\<close>) and then either queues the frame or hands
  it to the channel; the callback of the opened channel runs on another thread.
\<close>

definition rtc_send_queued :: "u8 list \<Rightarrow> rtc_conn \<Rightarrow> unit result \<times> rtc_conn" where
  "rtc_send_queued bytes k = (Inr (), k\<lparr>rc_pending_writes := rc_pending_writes k @ [bytes]\<rparr>)"

definition rtc_send_direct :: "rtc_api \<Rightarrow> u8 list \<Rightarrow> rtc_conn \<Rightarrow> unit result \<times> rtc_conn" where
  "rtc_send_direct api bytes k =
     (if \<not> rc_channel k then (Inl (sync_error_transport ''data channel missing''), k)
      else (case ra_channel_send api bytes of
          Inl e \<Rightarrow> (Inl (lib_error ''channel send'' e), k)
        | Inr _ \<Rightarrow> (Inr (), k\<lparr>rc_sent := rc_sent k @ [bytes]\<rparr>)))"

definition rtc_send_frame ::
  "rtc_api \<Rightarrow> (wire_frame \<Rightarrow> u8 list result) \<Rightarrow> wire_frame \<Rightarrow> rtc_conn \<Rightarrow> unit result \<times> rtc_conn" where
  "rtc_send_frame api encode f k =
     (case encode f of
        Inl e \<Rightarrow> (Inl (sync_error_serialization (show_sync_error e)), k)
      | Inr bytes \<Rightarrow> if rc_open k then rtc_send_direct api bytes k else rtc_send_queued bytes k)"

definition rtc_send_to ::
  "rtc_api \<Rightarrow> (wire_frame \<Rightarrow> u8 list result) \<Rightarrow> peer_id \<Rightarrow> sync_message \<Rightarrow> webrtc \<Rightarrow> unit result \<times> webrtc" where
  "rtc_send_to api encode peer m t =
     (case peers_entry peer t of
        Inl e \<Rightarrow> (Inl e, t)
      | Inr k \<Rightarrow> (case rtc_send_frame api encode (WireMessage m) k of (r, k) \<Rightarrow> (r, set_rtc_conn peer k t)))"

text \<open>A broadcast stops at the first peer that fails.\<close>

fun rtc_broadcast_loop ::
  "rtc_api \<Rightarrow> (wire_frame \<Rightarrow> u8 list result) \<Rightarrow> sync_message \<Rightarrow> peer_id list \<Rightarrow> webrtc \<Rightarrow> unit result \<times> webrtc" where
  "rtc_broadcast_loop api encode m [] t = (Inr (), t)"
| "rtc_broadcast_loop api encode m (peer # peers) t =
     (case rtc_send_to api encode peer m t of
        (Inl e, t) \<Rightarrow> (Inl e, t)
      | (Inr _, t) \<Rightarrow> rtc_broadcast_loop api encode m peers t)"

definition rtc_transport_peers :: "webrtc \<Rightarrow> peer_id list" where
  "rtc_transport_peers t = btree_keys (wr_peers t)"

text \<open>\<open>order\<close> is the order in which the hash map's values come out.\<close>

definition rtc_broadcast ::
  "rtc_api \<Rightarrow> (wire_frame \<Rightarrow> u8 list result) \<Rightarrow> (peer_id list \<Rightarrow> peer_id list) \<Rightarrow> sync_message \<Rightarrow> webrtc \<Rightarrow>
   unit result \<times> webrtc" where
  "rtc_broadcast api encode order m t =
     (if rtc_transport_peers t = [] then (Inl (sync_error_transport ''no connected peers''), t)
      else rtc_broadcast_loop api encode m (order (rtc_transport_peers t)) t)"

definition dispatch_frame ::
  "(u8 list \<Rightarrow> wire_frame result) \<Rightarrow> peer_id \<Rightarrow> u8 list \<Rightarrow> webrtc \<Rightarrow> webrtc" where
  "dispatch_frame decode peer bytes t =
     (if MAX_WIRE_MESSAGE_BYTES < length bytes then t
      else (case decode bytes of
          Inr (WireMessage m) \<Rightarrow> t\<lparr>wr_inbox := wr_inbox t @ [(peer, m)]\<rparr>
        | _ \<Rightarrow> t))"

definition rtc_try_recv :: "webrtc \<Rightarrow> (peer_id \<times> sync_message) option result \<times> webrtc" where
  "rtc_try_recv t =
     (case wr_inbox t of
        [] \<Rightarrow> (Inr None, t)
      | x # rest \<Rightarrow> (Inr (Some x), t\<lparr>wr_inbox := rest\<rparr>))"

section \<open>The two threads of a connection\<close>

text \<open>
  A send looks the connection up under the peers lock (\<open>rtc_send_looks_up\<close>), tests \<open>open\<close>
  (\<open>rtc_send_checks\<close>) and then queues the frame or hands it to the channel (\<open>rtc_send_acts\<close>).
  \<open>on_channel_open\<close> takes the peers lock, sets the flag, takes the queue and sends what it took,
  dropping what the channel refuses; it holds the lock to its end, so that no lookup happens
  meanwhile. It runs on a thread of the runtime and sends with \<open>block_on\<close>. Whether that call may
  return there is \<open>ra_nested_block_on\<close>; Tokio documents that it panics within an asynchronous
  context, so that the value is \<open>False\<close>. A panic drops the frames that are left and poisons the
  lock, after which every lookup panics.
\<close>

datatype open_phase = NotOpened | FlagSet | Flushing "u8 list list" | OpenPanicked "u8 list list"

datatype rtc_sender = Idle | HasEntry "u8 list" | Checked bool "u8 list"

record rtc_threads =
  rh_conn :: rtc_conn
  rh_sender :: rtc_sender
  rh_phase :: open_phase

datatype rtc_event = SendLooksUp "u8 list" | SendChecks | SendActs | OpenSets | OpenTakes | OpenSends

definition peers_lock_free :: "open_phase \<Rightarrow> bool" where
  "peers_lock_free phase \<longleftrightarrow> phase = NotOpened \<or> phase = Flushing []"

definition rtc_send_looks_up :: "u8 list \<Rightarrow> rtc_threads \<Rightarrow> rtc_threads" where
  "rtc_send_looks_up bytes s =
     (if rh_sender s = Idle \<and> peers_lock_free (rh_phase s) then s\<lparr>rh_sender := HasEntry bytes\<rparr> else s)"

definition rtc_send_checks :: "rtc_threads \<Rightarrow> rtc_threads" where
  "rtc_send_checks s =
     (case rh_sender s of
        HasEntry bytes \<Rightarrow> s\<lparr>rh_sender := Checked (rc_open (rh_conn s)) bytes\<rparr> | _ \<Rightarrow> s)"

definition rtc_send_acts :: "rtc_api \<Rightarrow> rtc_threads \<Rightarrow> rtc_threads" where
  "rtc_send_acts api s =
     (case rh_sender s of
        Checked ready bytes \<Rightarrow>
          s\<lparr>rh_sender := Idle,
            rh_conn := snd ((if ready then rtc_send_direct api bytes else rtc_send_queued bytes) (rh_conn s))\<rparr>
      | _ \<Rightarrow> s)"

definition open_sets :: "rtc_threads \<Rightarrow> rtc_threads" where
  "open_sets s =
     (if rh_phase s = NotOpened then s\<lparr>rh_conn := (rh_conn s)\<lparr>rc_open := True\<rparr>, rh_phase := FlagSet\<rparr> else s)"

definition open_takes :: "rtc_threads \<Rightarrow> rtc_threads" where
  "open_takes s =
     (if rh_phase s = FlagSet
      then s\<lparr>rh_phase := Flushing (rc_pending_writes (rh_conn s)),
             rh_conn := (rh_conn s)\<lparr>rc_pending_writes := []\<rparr>\<rparr>
      else s)"

definition open_sends :: "rtc_api \<Rightarrow> rtc_threads \<Rightarrow> rtc_threads" where
  "open_sends api s =
     (case rh_phase s of
        Flushing (bytes # rest) \<Rightarrow>
          if ra_nested_block_on api
          then s\<lparr>rh_phase := Flushing rest,
                 rh_conn := (case ra_channel_send api bytes of
                     Inl _ \<Rightarrow> rh_conn s
                   | Inr _ \<Rightarrow> (rh_conn s)\<lparr>rc_sent := rc_sent (rh_conn s) @ [bytes]\<rparr>)\<rparr>
          else s\<lparr>rh_phase := OpenPanicked (bytes # rest)\<rparr>
      | _ \<Rightarrow> s)"

fun rtc_thread_step :: "rtc_api \<Rightarrow> rtc_event \<Rightarrow> rtc_threads \<Rightarrow> rtc_threads" where
  "rtc_thread_step api (SendLooksUp bytes) s = rtc_send_looks_up bytes s"
| "rtc_thread_step api SendChecks s = rtc_send_checks s"
| "rtc_thread_step api SendActs s = rtc_send_acts api s"
| "rtc_thread_step api OpenSets s = open_sets s"
| "rtc_thread_step api OpenTakes s = open_takes s"
| "rtc_thread_step api OpenSends s = open_sends api s"

definition rtc_thread_run :: "rtc_api \<Rightarrow> rtc_event list \<Rightarrow> rtc_threads \<Rightarrow> rtc_threads" where
  "rtc_thread_run api evs s = fold (rtc_thread_step api) evs s"

lemma rtc_thread_run_simps [simp]:
  "rtc_thread_run api [] s = s"
  "rtc_thread_run api (ev # evs) s = rtc_thread_run api evs (rtc_thread_step api ev s)"
  "rtc_thread_run api (evs @ evs') s = rtc_thread_run api evs' (rtc_thread_run api evs s)"
  by (simp_all add: rtc_thread_run_def)

definition rtc_threads_of :: "rtc_conn \<Rightarrow> rtc_threads" where
  "rtc_threads_of k = \<lparr>rh_conn = k, rh_sender = Idle, rh_phase = NotOpened\<rparr>"

lemmas rtc_thread_defs = rtc_threads_of_def peers_lock_free_def rtc_send_looks_up_def rtc_send_checks_def
  rtc_send_acts_def rtc_send_direct_def rtc_send_queued_def open_sets_def open_takes_def open_sends_def

abbreviation rtc_send :: "u8 list \<Rightarrow> rtc_event list" where
  "rtc_send bytes \<equiv> [SendLooksUp bytes, SendChecks, SendActs]"

text \<open>Run on its own, a send is the atomic operation.\<close>

lemma rtc_send_atomic:
  assumes "encode f = Inr bytes"
  shows "rh_conn (rtc_thread_run api (rtc_send bytes) (rtc_threads_of k)) = snd (rtc_send_frame api encode f k)"
  using assms by (simp add: rtc_thread_defs rtc_send_frame_def)

section \<open>Where frames end up\<close>

definition frames_in :: "rtc_threads \<Rightarrow> u8 list multiset" where
  "frames_in s =
     mset (rc_sent (rh_conn s)) + mset (rc_pending_writes (rh_conn s)) +
     (case rh_sender s of Idle \<Rightarrow> {#} | HasEntry bytes \<Rightarrow> {#bytes#} | Checked _ bytes \<Rightarrow> {#bytes#}) +
     (case rh_phase s of Flushing bs \<Rightarrow> mset bs | OpenPanicked bs \<Rightarrow> mset bs | _ \<Rightarrow> {#})"

text \<open>The frames a run accepts: those whose lookup succeeds.\<close>

fun accepted :: "rtc_api \<Rightarrow> rtc_event list \<Rightarrow> rtc_threads \<Rightarrow> u8 list multiset" where
  "accepted api [] s = {#}"
| "accepted api (ev # evs) s =
     (case ev of
        SendLooksUp bytes \<Rightarrow> if rh_sender s = Idle \<and> peers_lock_free (rh_phase s) then {#bytes#} else {#}
      | _ \<Rightarrow> {#}) +
     accepted api evs (rtc_thread_step api ev s)"

definition channel_takes :: "rtc_api \<Rightarrow> bool" where
  "channel_takes api \<longleftrightarrow> (\<forall>bytes. ra_channel_send api bytes = Inr ())"

lemma step_frames:
  assumes "channel_takes api" and "rc_channel (rh_conn s)"
  shows "frames_in (rtc_thread_step api ev s) =
      frames_in s +
      (case ev of
         SendLooksUp bytes \<Rightarrow> if rh_sender s = Idle \<and> peers_lock_free (rh_phase s) then {#bytes#} else {#}
       | _ \<Rightarrow> {#})"
    "rc_channel (rh_conn (rtc_thread_step api ev s))"
  using assms
  by (cases ev; auto simp: rtc_thread_defs channel_takes_def frames_in_def
      split: option.splits open_phase.splits list.splits rtc_sender.splits)+

text \<open>Between the sending thread and the callback no frame is doubled or forgotten: under every
  interleaving each frame whose send began is exactly once in the sender's hand, in the
  queue, in the callback's list (also when the callback panicked over it) or handed to the
  channel.\<close>

theorem rtc_frames_conserved:
  assumes "channel_takes api" and "rc_channel (rh_conn s)"
  shows "frames_in (rtc_thread_run api evs s) = frames_in s + accepted api evs s"
  using assms(2)
proof (induction evs arbitrary: s)
  case (Cons ev evs)
  from Cons.IH [OF step_frames(2) [OF assms(1) Cons.prems]] step_frames(1) [OF assms(1) Cons.prems]
  show ?case by simp
qed simp

text \<open>A frame is stranded: the callback has taken the queue and nobody takes it any more.\<close>

definition stranded :: "u8 list \<Rightarrow> rtc_threads \<Rightarrow> bool" where
  "stranded bytes s \<longleftrightarrow>
     (case rh_phase s of Flushing _ \<Rightarrow> True | OpenPanicked _ \<Rightarrow> True | _ \<Rightarrow> False) \<and>
     bytes \<in> set (rc_pending_writes (rh_conn s))"

lemma stranded_step: "stranded bytes s \<Longrightarrow> stranded bytes (rtc_thread_step api ev s)"
  by (cases ev; auto simp: stranded_def rtc_thread_defs
      split: option.splits open_phase.splits list.splits sum.splits rtc_sender.splits)

lemma stranded_run: "stranded bytes s \<Longrightarrow> stranded bytes (rtc_thread_run api evs s)"
  by (induction evs arbitrary: s) (simp_all add: stranded_step)

text \<open>A frame can be stranded for good: a send that tests the flag before the channel opens
  and queues after the callback took the queue returns success, and no later send or step
  ever hands the frame to the channel.\<close>

theorem rtc_send_strands_frame:
  assumes "\<not> rc_open k"
  shows "stranded bytes (rtc_thread_run api
    ([SendLooksUp bytes, SendChecks, OpenSets, OpenTakes, SendActs] @ later) (rtc_threads_of k))"
proof -
  have "stranded bytes (rtc_thread_run api [SendLooksUp bytes, SendChecks, OpenSets, OpenTakes, SendActs] (rtc_threads_of k))"
    using assms by (simp add: stranded_def rtc_thread_defs)
  from stranded_run [OF this] show ?thesis by simp
qed

text \<open>A frame the sender does not hold is never sent when the callback panics before it sends.\<close>

definition unsent :: "u8 list \<Rightarrow> rtc_threads \<Rightarrow> bool" where
  "unsent bytes s \<longleftrightarrow> bytes \<notin> set (rc_sent (rh_conn s)) \<and>
     (case rh_sender s of Idle \<Rightarrow> True | HasEntry b \<Rightarrow> b \<noteq> bytes | Checked _ b \<Rightarrow> b \<noteq> bytes)"

lemma unsent_step:
  assumes "\<not> ra_nested_block_on api" and "ev \<noteq> SendLooksUp bytes" and "unsent bytes s"
  shows "unsent bytes (rtc_thread_step api ev s)"
  using assms
  by (cases ev; auto simp: unsent_def rtc_thread_defs
      split: option.splits open_phase.splits list.splits sum.splits rtc_sender.splits)

lemma unsent_run:
  assumes "\<not> ra_nested_block_on api" and "SendLooksUp bytes \<notin> set evs" and "unsent bytes s"
  shows "unsent bytes (rtc_thread_run api evs s)"
  using assms(2,3)
proof (induction evs arbitrary: s)
  case (Cons ev evs)
  then have "unsent bytes (rtc_thread_step api ev s)" by (intro unsent_step [OF assms(1)]) auto
  with Cons show ?case by simp
qed simp

text \<open>Claim C39. A frame sent before the channel opens is never delivered: its send succeeds and queues
  it, the callback that should flush the queue calls \<open>block_on\<close> on a thread of the runtime,
  where Tokio panics, and under every interleaving that does not send the same frame again
  it is never handed to the channel. Once the callback has panicked no send begins any more.\<close>

theorem queued_frame_never_sent:
  assumes "\<not> ra_nested_block_on api" and "\<not> rc_open k" and "bytes \<notin> set (rc_sent k)"
    and "SendLooksUp bytes \<notin> set later"
  shows "bytes \<notin> set (rc_sent (rh_conn (rtc_thread_run api (rtc_send bytes @ later) (rtc_threads_of k)))) \<and>
    accepted api later (rtc_thread_run api (rtc_send bytes @ [OpenSets, OpenTakes, OpenSends]) (rtc_threads_of k)) = {#}"
proof
  have "unsent bytes (rtc_thread_run api (rtc_send bytes) (rtc_threads_of k))"
    using assms(2,3) by (simp add: unsent_def rtc_thread_defs)
  from unsent_run [OF assms(1,4) this]
  show "bytes \<notin> set (rc_sent (rh_conn (rtc_thread_run api (rtc_send bytes @ later) (rtc_threads_of k))))"
    by (simp add: unsent_def)
  define s where "s = rtc_thread_run api (rtc_send bytes @ [OpenSets, OpenTakes, OpenSends]) (rtc_threads_of k)"
  have "\<exists>lost. rh_phase s = OpenPanicked lost"
    using assms(1,2) by (cases "rc_pending_writes k") (simp_all add: s_def rtc_thread_defs)
  moreover have "accepted api evs t = {#}" if "\<exists>lost. rh_phase t = OpenPanicked lost" for evs t
    using that
  proof (induction evs arbitrary: t)
    case (Cons ev evs)
    then have "\<exists>lost. rh_phase (rtc_thread_step api ev t) = OpenPanicked lost"
      by (cases ev; auto simp: rtc_thread_defs split: rtc_sender.splits)
    with Cons show ?case by (auto simp: peers_lock_free_def split: rtc_event.splits)
  qed simp
  ultimately show "accepted api later s = {#}" by blast
qed

definition example_rtc :: rtc_api where
  "example_rtc =
     \<lparr>ra_new_peer_connection = Inr (), ra_parse_sdp = (\<lambda>sdp. if sdp = [] then Inl ''empty'' else Inr ()),
      ra_set_remote = (\<lambda>sdp. Inr ()), ra_create_description = Inr (), ra_set_local = Inr (),
      ra_local_sdp = Some ''v=0'', ra_create_channel = Inr (), ra_add_candidate = (\<lambda>i. Inr ()),
      ra_channel_send = (\<lambda>bytes. Inr ()), ra_nested_block_on = False\<rparr>"

theorem rtc_frames_conserved_witness:
  "frames_in (rtc_thread_run example_rtc [SendLooksUp [1], SendChecks, OpenSets, SendActs, OpenTakes, OpenSends]
    (rtc_threads_of (rtc_conn_new\<lparr>rc_channel := True\<rparr>))) = {#[1]#}"
proof -
  have "channel_takes example_rtc" by (simp add: channel_takes_def example_rtc_def)
  moreover have "rc_channel (rh_conn (rtc_threads_of (rtc_conn_new\<lparr>rc_channel := True\<rparr>)))"
    by (simp add: rtc_threads_of_def)
  ultimately show ?thesis
    by (subst rtc_frames_conserved) (simp_all add: frames_in_def rtc_conn_new_def rtc_thread_defs)
qed

theorem rtc_send_strands_frame_witness:
  "stranded [7] (rtc_thread_run example_rtc
    ([SendLooksUp [7], SendChecks, OpenSets, OpenTakes, SendActs] @ rtc_send [8]) (rtc_threads_of rtc_conn_new))"
  by (rule rtc_send_strands_frame) (simp add: rtc_conn_new_def)

theorem queued_frame_never_sent_witness:
  "[7] \<notin> set (rc_sent (rh_conn (rtc_thread_run example_rtc
    (rtc_send [7] @ ([OpenSets, OpenTakes, OpenSends] @ rtc_send [8])) (rtc_threads_of rtc_conn_new))))"
  using queued_frame_never_sent [of example_rtc rtc_conn_new "[7]" "[OpenSets, OpenTakes, OpenSends] @ rtc_send [8]"]
  by (simp add: example_rtc_def rtc_conn_new_def)

section \<open>Candidates\<close>

text \<open>The candidate envelopes a peer sends, delivered one after the other.\<close>

definition deliver_candidates :: "rtc_api \<Rightarrow> peer_id \<Rightarrow> (string \<times> string) list \<Rightarrow> webrtc \<Rightarrow> webrtc" where
  "deliver_candidates api peer cs t =
     fold (\<lambda>(candidate, mid) t. snd (handle_signal api (EnvIceCandidate peer (wr_local t) candidate mid) t)) cs t"

definition inits :: "(string \<times> string) list \<Rightarrow> ice_candidate_init list" where
  "inits cs = map (\<lambda>(candidate, mid). candidate_init candidate mid) cs"

definition candidates_welcome :: "rtc_api \<Rightarrow> bool" where
  "candidates_welcome api \<longleftrightarrow> (\<forall>i. ra_add_candidate api i = Inr ())"

lemma set_rtc_conn_fields [simp]:
  "wr_local (set_rtc_conn p k t) = wr_local t" "wr_peers (set_rtc_conn p k t) = fmupd p k (wr_peers t)"
  "wr_outgoing (set_rtc_conn p k t) = wr_outgoing t" "wr_inbox (set_rtc_conn p k t) = wr_inbox t"
  "set_rtc_conn p k (set_rtc_conn p k' t) = set_rtc_conn p k t"
  by (simp_all add: set_rtc_conn_def fmupd_twice)

lemma set_rtc_conn_same: "fmlookup (wr_peers t) p = Some k \<Longrightarrow> set_rtc_conn p k t = t"
  by (simp add: set_rtc_conn_def fmupd_same)

lemma early_candidates:
  assumes "fmlookup (wr_peers t) p = Some k" and "\<not> rc_remote k"
  shows "deliver_candidates api p cs t =
    set_rtc_conn p (k\<lparr>rc_pending_candidates := rc_pending_candidates k @ inits cs\<rparr>) t"
  using assms
proof (induction cs arbitrary: t k)
  case Nil
  then show ?case by (simp add: deliver_candidates_def inits_def set_rtc_conn_same)
next
  case (Cons c cs)
  obtain candidate mid where c: "c = (candidate, mid)" by force
  let ?k = "k\<lparr>rc_pending_candidates := rc_pending_candidates k @ [candidate_init candidate mid]\<rparr>"
  have "deliver_candidates api p (c # cs) t = deliver_candidates api p cs (set_rtc_conn p ?k t)"
    using Cons.prems by (simp add: deliver_candidates_def c handle_signal_def on_candidate_def peers_entry_def)
  also have "\<dots> = set_rtc_conn p (?k\<lparr>rc_pending_candidates := rc_pending_candidates ?k @ inits cs\<rparr>) (set_rtc_conn p ?k t)"
    using Cons.prems(2) by (intro Cons.IH) simp_all
  finally show ?case by (simp add: c inits_def)
qed

lemma late_candidates:
  assumes "fmlookup (wr_peers t) p = Some k" and "rc_remote k" and "candidates_welcome api"
  shows "deliver_candidates api p cs t = set_rtc_conn p (k\<lparr>rc_candidates := rc_candidates k @ inits cs\<rparr>) t"
  using assms(1,2)
proof (induction cs arbitrary: t k)
  case Nil
  then show ?case by (simp add: deliver_candidates_def inits_def set_rtc_conn_same)
next
  case (Cons c cs)
  obtain candidate mid where c: "c = (candidate, mid)" by force
  let ?k = "k\<lparr>rc_candidates := rc_candidates k @ [candidate_init candidate mid]\<rparr>"
  have "deliver_candidates api p (c # cs) t = deliver_candidates api p cs (set_rtc_conn p ?k t)"
    using Cons.prems assms(3) by (simp add: deliver_candidates_def c handle_signal_def on_candidate_def
        peers_entry_def add_candidate_def candidates_welcome_def)
  also have "\<dots> = set_rtc_conn p (?k\<lparr>rc_candidates := rc_candidates ?k @ inits cs\<rparr>) (set_rtc_conn p ?k t)"
    using Cons.prems(2) by (intro Cons.IH) simp_all
  finally show ?case by (simp add: c inits_def)
qed

lemma flush_all:
  assumes "candidates_welcome api"
  shows "fold (add_candidate api) cs k = k\<lparr>rc_candidates := rc_candidates k @ cs\<rparr>"
  using assms by (induction cs arbitrary: k) (simp_all add: add_candidate_def candidates_welcome_def)

text \<open>For the peer that made the offer the order of envelopes does not matter: candidates
  that arrive before the answer and after it all reach the connection, in order, and the
  buffer is empty.\<close>

theorem offerer_candidates_any_order:
  assumes "candidates_welcome api" and "ra_parse_sdp api sdp = Inr ()" and "ra_set_remote api sdp = Inr ()"
    and "fmlookup (wr_peers t) p = Some k" and "\<not> rc_remote k" and "rc_pending_candidates k = []"
  shows "fmlookup (wr_peers (deliver_candidates api p after
      (snd (handle_signal api (EnvAnswer p (wr_local t) sdp) (deliver_candidates api p before t))))) p =
    Some (k\<lparr>rc_remote := True, rc_candidates := rc_candidates k @ inits (before @ after)\<rparr>)"
proof -
  let ?k1 = "k\<lparr>rc_pending_candidates := inits before\<rparr>"
  let ?k2 = "k\<lparr>rc_remote := True, rc_candidates := rc_candidates k @ inits before\<rparr>"
  have early: "deliver_candidates api p before t = set_rtc_conn p ?k1 t"
    using early_candidates [OF assms(4,5)] assms(6) by simp
  have cleared: "k\<lparr>rc_remote := True, rc_pending_candidates := [], rc_candidates := cs\<rparr> = k\<lparr>rc_remote := True, rc_candidates := cs\<rparr>" for cs
    using assms(6) by (cases k) simp
  have "snd (handle_signal api (EnvAnswer p (wr_local t) sdp) (set_rtc_conn p ?k1 t)) = set_rtc_conn p ?k2 t"
    using assms(2,3,6)
    by (simp add: handle_signal_def on_answer_def peers_entry_def set_remote_description_def flush_candidates_def
        flush_all [OF assms(1)] cleared)
  then have "deliver_candidates api p after (snd (handle_signal api (EnvAnswer p (wr_local t) sdp)
      (deliver_candidates api p before t))) = set_rtc_conn p (?k2\<lparr>rc_candidates := rc_candidates ?k2 @ inits after\<rparr>)
      (set_rtc_conn p ?k2 t)"
    unfolding early using late_candidates [OF _ _ assms(1), of "set_rtc_conn p ?k2 t" p ?k2] by simp
  then show ?thesis by (simp add: inits_def)
qed

text \<open>For the peer that receives the offer it does matter: a candidate that arrives before
  the offer is refused with \<open>PeerNotFound\<close>, it is not buffered, and the connection the
  offer then creates has no candidate.\<close>

theorem candidate_before_offer_refused:
  assumes "fmlookup (wr_peers t) p = None" and "ra_new_peer_connection api = Inr ()"
    and "ra_parse_sdp api sdp = Inr ()" and "ra_set_remote api sdp = Inr ()"
  shows "handle_signal api (EnvIceCandidate p (wr_local t) candidate mid) t = (Inl (PeerNotFound p), t) \<and>
    map_option rc_candidates (fmlookup (wr_peers (snd (handle_signal api (EnvOffer p (wr_local t) sdp)
      (snd (handle_signal api (EnvIceCandidate p (wr_local t) candidate mid) t))))) p) = Some []"
  using assms
  by (auto simp: handle_signal_def on_candidate_def peers_entry_def answer_offer_def create_peer_connection_def
      set_remote_description_def flush_candidates_def rtc_conn_new_def describe_locally_def rtc_emit_def
      split: sum.split option.split)

theorem candidate_before_offer_refused_witness:
  "handle_signal example_rtc (EnvIceCandidate (PeerId 2) (PeerId 1) ''host'' ''0'') (webrtc_new (PeerId 1)) =
    (Inl (PeerNotFound (PeerId 2)), webrtc_new (PeerId 1))"
  using candidate_before_offer_refused [of "webrtc_new (PeerId 1)" "PeerId 2" example_rtc "''v=0''" "''host''" "''0''"]
  by (simp add: webrtc_new_def example_rtc_def)

theorem offerer_candidates_any_order_witness:
  "map_option rc_candidates (fmlookup (wr_peers (deliver_candidates example_rtc (PeerId 2) [(''b'', ''0'')]
    (snd (handle_signal example_rtc (EnvAnswer (PeerId 2) (PeerId 1) ''v=0'')
      (deliver_candidates example_rtc (PeerId 2) [(''a'', [])] (snd (rtc_dial example_rtc (PeerId 2) (webrtc_new (PeerId 1))))))))) (PeerId 2)) =
    Some [candidate_init ''a'' [], candidate_init ''b'' ''0'']"
proof -
  let ?t = "snd (rtc_dial example_rtc (PeerId 2) (webrtc_new (PeerId 1)))"
  have t: "fmlookup (wr_peers ?t) (PeerId 2) = Some (rtc_conn_new\<lparr>rc_channel := True\<rparr>)" "wr_local ?t = PeerId 1"
    by (simp_all add: rtc_dial_def create_peer_connection_def peers_entry_def describe_locally_def rtc_emit_def
        example_rtc_def webrtc_new_def)
  have "candidates_welcome example_rtc" "ra_parse_sdp example_rtc ''v=0'' = Inr ()" "ra_set_remote example_rtc ''v=0'' = Inr ()"
    by (simp_all add: candidates_welcome_def example_rtc_def)
  from offerer_candidates_any_order [OF this t(1), of "[(''b'', ''0'')]" "[(''a'', [])]"] t(2)
  show ?thesis by (simp add: rtc_conn_new_def inits_def)
qed

end
