(* ===== verification/Discovery.thy ===== *)
theory Discovery
  imports Server_Limits Identity
begin

text \<open>
  LAN discovery: UDP beacons (\<open>tpt-av-sync-net/src/discovery.rs\<close>, \<open>DiscoveryCore\<close>) and mDNS
  (\<open>tpt-av-sync-net/src/mdns_discovery.rs\<close>). The datagrams or daemon events pending at a poll
  are an input list; the codec and the UTF-8 decoder are arguments. The locale \<open>discovery\<close> is
  what both tables keep of the trait's contract; its lemma says what a poll reports. A
  property's text shows that what a peer registers is what another resolves.
\<close>

section \<open>Advertisements\<close>

definition DEFAULT_TTL_MS :: u64 where
  "DEFAULT_TTL_MS = 10000"

record discovery_packet =
  dp_peer_id :: peer_id
  dp_name :: string
  dp_session :: "string option"
  dp_port :: u16

record peer_advertisement =
  ad_peer_id :: peer_id
  ad_name :: string
  ad_session :: "string option"
  ad_addr :: "ip_addr \<times> u16"
  ad_last_seen_ms :: u64

text \<open>\<open>retain\<close> by age.\<close>

definition expire :: "u64 \<Rightarrow> u64 \<Rightarrow> ('v \<Rightarrow> u64) \<Rightarrow> (peer_id, 'v) fmap \<Rightarrow> (peer_id, 'v) fmap" where
  "expire now ttl_ms seen m =
     fmfilter (\<lambda>p. case fmlookup m p of Some v \<Rightarrow> sat_sub now (seen v) \<le> ttl_ms | None \<Rightarrow> False) m"

text \<open>The reported peers; the code's order is that of a hash map.\<close>

definition advertised :: "('v \<Rightarrow> peer_advertisement) \<Rightarrow> (peer_id, 'v) fmap \<Rightarrow> peer_advertisement list" where
  "advertised ad m = map (\<lambda>(p, v). ad v) (btree_entries m)"

lemma expire_lookup [simp]:
  "fmlookup (expire now ttl_ms seen m) p =
     (case fmlookup m p of Some v \<Rightarrow> if sat_sub now (seen v) \<le> ttl_ms then Some v else None | None \<Rightarrow> None)"
  by (auto simp: expire_def split: option.split)

lemma set_advertised: "a \<in> set (advertised ad m) \<longleftrightarrow> (\<exists>p v. fmlookup m p = Some v \<and> a = ad v)"
  by (force simp: advertised_def set_btree_entries)

section \<open>The contract\<close>

locale discovery =
  fixes handle :: "u64 \<Rightarrow> 'e \<Rightarrow> 's \<Rightarrow> 's"
    and known :: "'s \<Rightarrow> (peer_id, 'v) fmap"
    and me :: "'s \<Rightarrow> peer_id"
    and ad :: "'v \<Rightarrow> peer_advertisement"
    and seen :: "'v \<Rightarrow> u64"
  assumes handle_me: "me (handle now e s) = me s"
    and handle_known: "fmlookup (known (handle now e s)) p = Some v \<Longrightarrow>
      fmlookup (known s) p = Some v \<or>
      p \<noteq> me s \<and> ad_peer_id (ad v) = p \<and> ad_last_seen_ms (ad v) = now \<and> seen v = now"
begin

lemma me_kept: "me (fold (handle now) es s) = me s"
  by (induction es arbitrary: s) (simp_all add: handle_me)

lemma known_kept:
  assumes "\<forall>p v. fmlookup (known s) p = Some v \<longrightarrow>
      p \<noteq> me s \<and> ad_peer_id (ad v) = p \<and> ad_last_seen_ms (ad v) = seen v"
    and "fmlookup (known (fold (handle now) es s)) p = Some v"
  shows "p \<noteq> me s \<and> ad_peer_id (ad v) = p \<and> ad_last_seen_ms (ad v) = seen v"
  using assms
proof (induction es arbitrary: s)
  case (Cons e es)
  have "\<forall>p v. fmlookup (known (handle now e s)) p = Some v \<longrightarrow>
      p \<noteq> me s \<and> ad_peer_id (ad v) = p \<and> ad_last_seen_ms (ad v) = seen v"
    using Cons.prems(1) handle_known by metis
  then show ?case using Cons.IH [of "handle now e s"] Cons.prems(2) by (simp add: handle_me)
qed simp

text \<open>What a poll reports of such a table: live peers, never this one, each once.\<close>

lemma reported:
  assumes "\<forall>p v. fmlookup m p = Some v \<longrightarrow>
      p \<noteq> self \<and> ad_peer_id (ad v) = p \<and> ad_last_seen_ms (ad v) = seen v"
  shows "distinct (map ad_peer_id (advertised ad (expire now ttl_ms seen m)))"
    "a \<in> set (advertised ad (expire now ttl_ms seen m)) \<Longrightarrow>
      ad_peer_id a \<noteq> self \<and> sat_sub now (ad_last_seen_ms a) \<le> ttl_ms"
proof -
  let ?m = "expire now ttl_ms seen m"
  have "map ad_peer_id (advertised ad ?m) = map fst (btree_entries ?m)"
    unfolding advertised_def map_map
    using assms by (intro map_cong refl) (auto simp: set_btree_entries split: option.splits if_splits)
  then show "distinct (map ad_peer_id (advertised ad ?m))" by simp
  assume "a \<in> set (advertised ad ?m)"
  then obtain p v where v: "fmlookup m p = Some v" "sat_sub now (seen v) \<le> ttl_ms" "a = ad v"
    by (auto simp: set_advertised split: option.splits if_splits)
  moreover from this(1) assms have "p \<noteq> self \<and> ad_peer_id (ad v) = p \<and> ad_last_seen_ms (ad v) = seen v" by blast
  ultimately show "ad_peer_id a \<noteq> self \<and> sat_sub now (ad_last_seen_ms a) \<le> ttl_ms" by simp
qed

end

section \<open>UDP beacons\<close>

record discovery_core =
  ds_local :: peer_id
  ds_name :: string
  ds_session :: "string option"
  ds_listen_port :: u16
  ds_target :: "ip_addr \<times> u16"
  ds_known :: "(peer_id, peer_advertisement \<times> u64) fmap"
  ds_ttl_ms :: u64

definition is_multicast :: "ip_addr \<Rightarrow> bool" where
  "is_multicast ip =
     (case ip of IpV4 w \<Rightarrow> drop_bit 28 w = 14 | IpV6 w \<Rightarrow> drop_bit 120 w = 255)"

text \<open>
  \<open>setup\<close> is how the creation of the socket comes out (create, reuse, bind, broadcast) and
  \<open>joined\<close> how joining the multicast group does.
\<close>

definition discovery_bind ::
  "unit result \<Rightarrow> unit result \<Rightarrow>
   peer_id \<Rightarrow> string \<Rightarrow> string option \<Rightarrow> u16 \<Rightarrow> ip_addr \<times> u16 \<Rightarrow> u64 \<Rightarrow> discovery_core result" where
  "discovery_bind setup joined me name session listen_port target ttl_ms =
     (let core = \<lparr>ds_local = me, ds_name = name, ds_session = session, ds_listen_port = listen_port,
        ds_target = target, ds_known = fmempty, ds_ttl_ms = ttl_ms\<rparr>
      in case setup of
           Inl e \<Rightarrow> Inl e
         | Inr _ \<Rightarrow>
             if is_multicast (fst target)
             then (case fst target of
                     IpV6 _ \<Rightarrow> Inl (sync_error_transport ''IPv6 multicast unsupported'')
                   | IpV4 _ \<Rightarrow> (case joined of Inl e \<Rightarrow> Inl e | Inr _ \<Rightarrow> Inr core))
             else Inr core)"

text \<open>239.255.42.98:51820 and 255.255.255.255:51821.\<close>

definition multicast_discovery ::
  "unit result \<Rightarrow> unit result \<Rightarrow> peer_id \<Rightarrow> string \<Rightarrow> string option \<Rightarrow> u16 \<Rightarrow> discovery_core result" where
  "multicast_discovery setup joined me name session listen_port =
     discovery_bind setup joined me name session listen_port (IpV4 0xEFFF2A62, 51820) DEFAULT_TTL_MS"

definition broadcast_discovery ::
  "unit result \<Rightarrow> unit result \<Rightarrow> peer_id \<Rightarrow> string \<Rightarrow> string option \<Rightarrow> u16 \<Rightarrow> discovery_core result" where
  "broadcast_discovery setup joined me name session listen_port =
     discovery_bind setup joined me name session listen_port (IpV4 0xFFFFFFFF, 51821) DEFAULT_TTL_MS"

text \<open>\<open>send\<close> is the socket's \<open>send_to\<close>.\<close>

definition discovery_advertise ::
  "(discovery_packet \<Rightarrow> u8 list result) \<Rightarrow> (u8 list \<Rightarrow> ip_addr \<times> u16 \<Rightarrow> string + unit) \<Rightarrow> discovery_core \<Rightarrow> unit result" where
  "discovery_advertise encode send s =
     (case encode \<lparr>dp_peer_id = ds_local s, dp_name = ds_name s, dp_session = ds_session s,
        dp_port = ds_listen_port s\<rparr> of
        Inl e \<Rightarrow> Inl (sync_error_serialization (show_sync_error e))
      | Inr bytes \<Rightarrow>
          (case send bytes (ds_target s) of
             Inl e \<Rightarrow> Inl (sync_error_transport (''discovery send: '' @ e))
           | Inr _ \<Rightarrow> Inr ()))"

text \<open>One datagram, cut to the 1024 bytes of the buffer, with its source address.\<close>

definition on_datagram ::
  "(u8 list \<Rightarrow> discovery_packet result) \<Rightarrow> u64 \<Rightarrow> u8 list \<times> ip_addr \<Rightarrow> discovery_core \<Rightarrow> discovery_core" where
  "on_datagram decode now_ms d s =
     (case d of (bytes, ip) \<Rightarrow>
        (case decode (take 1024 bytes) of
           Inl _ \<Rightarrow> s
         | Inr packet \<Rightarrow>
             if dp_peer_id packet = ds_local s then s
             else s\<lparr>ds_known := fmupd (dp_peer_id packet)
                 (\<lparr>ad_peer_id = dp_peer_id packet, ad_name = dp_name packet, ad_session = dp_session packet,
                   ad_addr = (ip, dp_port packet), ad_last_seen_ms = now_ms\<rparr>, now_ms) (ds_known s)\<rparr>))"

definition discovery_poll ::
  "(u8 list \<Rightarrow> discovery_packet result) \<Rightarrow> u64 \<Rightarrow> (u8 list \<times> ip_addr) list \<Rightarrow> discovery_core \<Rightarrow>
   peer_advertisement list \<times> discovery_core" where
  "discovery_poll decode now_ms datagrams s =
     (let s = fold (on_datagram decode now_ms) datagrams s;
          known = expire now_ms (ds_ttl_ms s) snd (ds_known s)
      in (advertised fst known, s\<lparr>ds_known := known\<rparr>))"

interpretation beacons: discovery "on_datagram decode" ds_known ds_local fst snd
  for decode
  by unfold_locales (auto simp: on_datagram_def split: prod.splits sum.splits if_splits)

definition discovery_polls ::
  "(u8 list \<Rightarrow> discovery_packet result) \<Rightarrow> (u64 \<times> (u8 list \<times> ip_addr) list) list \<Rightarrow> discovery_core \<Rightarrow> discovery_core" where
  "discovery_polls decode = fold (\<lambda>(now_ms, datagrams) s. snd (discovery_poll decode now_ms datagrams s))"

definition table_ok :: "discovery_core \<Rightarrow> bool" where
  "table_ok s \<longleftrightarrow>
     (\<forall>p v. fmlookup (ds_known s) p = Some v \<longrightarrow>
       p \<noteq> ds_local s \<and> ad_peer_id (fst v) = p \<and> ad_last_seen_ms (fst v) = snd v)"

lemma on_datagram_ttl: "ds_ttl_ms (fold (on_datagram decode now_ms) ds s) = ds_ttl_ms s"
  by (induction ds arbitrary: s) (auto simp: on_datagram_def split: prod.split sum.split)

lemma table_ok_fold: "table_ok s \<Longrightarrow> table_ok (fold (on_datagram decode now_ms) ds s)"
  unfolding table_ok_def beacons.me_kept using beacons.known_kept by blast

lemma table_ok_poll:
  assumes "table_ok s"
  shows "table_ok (snd (discovery_poll decode now_ms ds s))"
    "ds_local (snd (discovery_poll decode now_ms ds s)) = ds_local s"
    "ds_ttl_ms (snd (discovery_poll decode now_ms ds s)) = ds_ttl_ms s"
  using table_ok_fold [OF assms, of decode now_ms ds]
  by (auto simp: discovery_poll_def Let_def table_ok_def beacons.me_kept on_datagram_ttl split: option.splits if_splits)

lemma table_ok_polls:
  "table_ok s \<Longrightarrow> table_ok (discovery_polls decode polls s) \<and>
    ds_local (discovery_polls decode polls s) = ds_local s \<and> ds_ttl_ms (discovery_polls decode polls s) = ds_ttl_ms s"
  by (induction polls arbitrary: s) (simp_all add: discovery_polls_def case_prod_unfold table_ok_poll)

text \<open>Claim C40. A poll reports only live neighbours: whatever datagrams arrived at this and earlier
  polls, no peer is reported twice, this peer never is, and every reported peer was last
  heard at most the TTL before the poll.\<close>

theorem poll_reports_live_peers:
  assumes "discovery_bind setup joined me name session port target ttl_ms = Inr s"
  shows "distinct (map ad_peer_id (fst (discovery_poll decode now_ms ds (discovery_polls decode polls s)))) \<and>
    (\<forall>a \<in> set (fst (discovery_poll decode now_ms ds (discovery_polls decode polls s))).
      ad_peer_id a \<noteq> me \<and> sat_sub now_ms (ad_last_seen_ms a) \<le> ttl_ms)"
proof -
  have "ds_known s = fmempty" "ds_local s = me" "ds_ttl_ms s = ttl_ms"
    using assms by (auto simp: discovery_bind_def Let_def split: sum.splits ip_addr.splits if_splits)
  then have s: "table_ok s" "ds_local s = me" "ds_ttl_ms s = ttl_ms" by (simp_all add: table_ok_def)
  let ?s = "fold (on_datagram decode now_ms) ds (discovery_polls decode polls s)"
  note polls = table_ok_polls [OF s(1), of decode polls]
  have "table_ok ?s" "ds_local ?s = me" "ds_ttl_ms ?s = ttl_ms"
    using polls s(2,3) by (simp_all add: table_ok_fold beacons.me_kept on_datagram_ttl)
  then show ?thesis
    using beacons.reported(1) [of "ds_known ?s" me] beacons.reported(2) [of "ds_known ?s" me]
    by (simp add: discovery_poll_def Let_def table_ok_def)
qed

definition example_packet :: "u8 list \<Rightarrow> discovery_packet result" where
  "example_packet b =
     Inr \<lparr>dp_peer_id = (if b = [] then PeerId 1 else PeerId 2), dp_name = ''b'', dp_session = None, dp_port = 7\<rparr>"

definition example_discovery :: discovery_core where
  "example_discovery =
     \<lparr>ds_local = PeerId 1, ds_name = ''a'', ds_session = None, ds_listen_port = 7,
      ds_target = (IpV4 0xEFFF2A62, 51820), ds_known = fmempty, ds_ttl_ms = DEFAULT_TTL_MS\<rparr>"

theorem poll_reports_live_peers_witness:
  "distinct (map ad_peer_id (fst (discovery_poll example_packet 500 [([1], IpV4 1)]
      (discovery_polls example_packet [(0, [([], IpV4 1)])] example_discovery)))) \<and>
   PeerId 1 \<notin> ad_peer_id ` set (fst (discovery_poll example_packet 500 [([1], IpV4 1)]
      (discovery_polls example_packet [(0, [([], IpV4 1)])] example_discovery)))"
proof -
  have "discovery_bind (Inr ()) (Inr ()) (PeerId 1) ''a'' None 7 (IpV4 0xEFFF2A62, 51820) DEFAULT_TTL_MS =
      Inr example_discovery"
    by (simp add: discovery_bind_def is_multicast_def example_discovery_def)
  note report = poll_reports_live_peers [OF this, of example_packet 500 "[([1], IpV4 1)]" "[(0, [([], IpV4 1)])]"]
  have absent: "q \<notin> ad_peer_id ` set xs" if "\<forall>a \<in> set xs. ad_peer_id a \<noteq> q \<and> P a" for q xs P
    using that by auto
  show ?thesis by (rule conjI [OF conjunct1 [OF report] absent [OF conjunct2 [OF report]]])
qed

text \<open>A beacon received at a poll is reported by it.\<close>

lemma heard_is_reported:
  assumes "decode (take 1024 bytes) = Inr packet" and "dp_peer_id packet \<noteq> ds_local s"
  shows "\<exists>a \<in> set (fst (discovery_poll decode now_ms (ds @ [(bytes, ip)]) s)).
    ad_peer_id a = dp_peer_id packet \<and> ad_addr a = (ip, dp_port packet)"
proof
  let ?a = "\<lparr>ad_peer_id = dp_peer_id packet, ad_name = dp_name packet, ad_session = dp_session packet,
    ad_addr = (ip, dp_port packet), ad_last_seen_ms = now_ms\<rparr>"
  show "ad_peer_id ?a = dp_peer_id packet \<and> ad_addr ?a = (ip, dp_port packet)" by simp
  show "?a \<in> set (fst (discovery_poll decode now_ms (ds @ [(bytes, ip)]) s))"
    using assms
    by (auto simp: discovery_poll_def Let_def set_advertised on_datagram_def beacons.me_kept
        intro!: exI [of _ "dp_peer_id packet"])
qed

section \<open>mDNS\<close>

definition SERVICE_TYPE :: string where
  "SERVICE_TYPE = ''_tpt-av-sync._udp.local.''"

text \<open>\<open>mdns_discovery::DEFAULT_TTL_MS\<close>.\<close>

definition MDNS_TTL_MS :: u64 where
  "MDNS_TTL_MS = 30000"

record mdns_discovery =
  md_local :: peer_id
  md_name :: string
  md_session :: "string option"
  md_listen_port :: u16
  md_fullname :: string
  md_registered :: bool
  md_ttl_ms :: u64
  md_known :: "(peer_id, peer_advertisement \<times> string \<times> u64) fmap"

record resolved_service =
  sr_fullname :: string
  sr_port :: u16
  sr_addresses :: "ip_addr list"
  sr_txt :: "string \<rightharpoonup> u8 list option"

datatype service_event = ServiceResolved resolved_service | ServiceRemoved string string | OtherServiceEvent

definition instance_name :: "peer_id \<Rightarrow> string" where
  "instance_name p = ''tpt-'' @ show_hex16 (peer_raw p)"

definition mdns_new :: "peer_id \<Rightarrow> string \<Rightarrow> string option \<Rightarrow> u16 \<Rightarrow> mdns_discovery" where
  "mdns_new me name session listen_port =
     \<lparr>md_local = me, md_name = name, md_session = session, md_listen_port = listen_port,
      md_fullname = instance_name me @ ''.'' @ SERVICE_TYPE, md_registered = False,
      md_ttl_ms = MDNS_TTL_MS, md_known = fmempty\<rparr>"

text \<open>The TXT properties \<open>register\<close> announces.\<close>

definition mdns_properties :: "mdns_discovery \<Rightarrow> (string \<times> string) list" where
  "mdns_properties s =
     [(''id'', show_nat (unat (peer_raw (md_local s)))), (''name'', md_name s)] @
     (case md_session s of Some session \<Rightarrow> [(''session'', session)] | None \<Rightarrow> [])"

text \<open>
  \<open>register\<close> and \<open>advertise\<close>. The library builds the service from the instance name, the host
  name, the port and the properties, and the daemon registers it.
\<close>

definition mdns_register ::
  "(string \<Rightarrow> string \<Rightarrow> u16 \<Rightarrow> (string \<times> string) list \<Rightarrow> string + 'i) \<Rightarrow> ('i \<Rightarrow> string + unit) \<Rightarrow>
   mdns_discovery \<Rightarrow> unit result \<times> mdns_discovery" where
  "mdns_register service_info daemon s =
     (case service_info (instance_name (md_local s)) (instance_name (md_local s) @ ''.local.'')
        (md_listen_port s) (mdns_properties s) of
        Inl e \<Rightarrow> (Inl (sync_error_transport (''mdns service info: '' @ e)), s)
      | Inr info \<Rightarrow>
          (case daemon info of
             Inl e \<Rightarrow> (Inl (sync_error_transport (''mdns register: '' @ e)), s)
           | Inr _ \<Rightarrow> (Inr (), s\<lparr>md_registered := True\<rparr>)))"

definition mdns_advertise ::
  "(string \<Rightarrow> string \<Rightarrow> u16 \<Rightarrow> (string \<times> string) list \<Rightarrow> string + 'i) \<Rightarrow> ('i \<Rightarrow> string + unit) \<Rightarrow>
   mdns_discovery \<Rightarrow> unit result \<times> mdns_discovery" where
  "mdns_advertise service_info daemon s =
     (if md_registered s then (Inr (), s) else mdns_register service_info daemon s)"

definition is_loopback :: "ip_addr \<Rightarrow> bool" where
  "is_loopback ip = (case ip of IpV4 w \<Rightarrow> drop_bit 24 w = 127 | IpV6 w \<Rightarrow> w = 1)"

text \<open>\<open>str::parse::<u64>\<close>: an optional plus sign and decimal digits, overflow refused.\<close>

fun parse_digits :: "nat \<Rightarrow> string \<Rightarrow> nat option" where
  "parse_digits n [] = Some n"
| "parse_digits n (c # cs) =
     (let d = of_char c :: nat
      in if 48 \<le> d \<and> d \<le> 57 \<and> 10 * n + (d - 48) < 2 ^ 64 then parse_digits (10 * n + (d - 48)) cs else None)"

definition parse_u64 :: "string \<Rightarrow> u64 option" where
  "parse_u64 s =
     (let digits = (case s of c # cs \<Rightarrow> if c = CHR ''+'' then cs else s | [] \<Rightarrow> [])
      in if digits = [] then None else map_option of_nat (parse_digits 0 digits))"

definition txt_string :: "(u8 list \<Rightarrow> string option) \<Rightarrow> string \<Rightarrow> resolved_service \<Rightarrow> string option" where
  "txt_string from_utf8 key r =
     (case sr_txt r key of Some (Some b) \<Rightarrow> from_utf8 b | _ \<Rightarrow> None)"

definition handle_event ::
  "(u8 list \<Rightarrow> string option) \<Rightarrow> u64 \<Rightarrow> service_event \<Rightarrow> mdns_discovery \<Rightarrow> mdns_discovery" where
  "handle_event from_utf8 now_ms ev s =
     (case ev of
        ServiceResolved r \<Rightarrow>
          if sr_fullname r = md_fullname s then s
          else (case txt_string from_utf8 ''id'' r of
              None \<Rightarrow> s
            | Some id_str \<Rightarrow>
                (case parse_u64 id_str of
                   None \<Rightarrow> s
                 | Some raw \<Rightarrow>
                     if PeerId raw = md_local s then s
                     else (case List.find (\<lambda>ip. \<not> is_loopback ip) (sr_addresses r) of
                         None \<Rightarrow> s
                       | Some ip \<Rightarrow>
                           s\<lparr>md_known := fmupd (PeerId raw)
                             (\<lparr>ad_peer_id = PeerId raw,
                               ad_name = (case txt_string from_utf8 ''name'' r of Some name \<Rightarrow> name | None \<Rightarrow> ''peer''),
                               ad_session = txt_string from_utf8 ''session'' r,
                               ad_addr = (ip, sr_port r), ad_last_seen_ms = now_ms\<rparr>,
                              sr_fullname r, now_ms) (md_known s)\<rparr>)))
      | ServiceRemoved _ fullname \<Rightarrow>
          s\<lparr>md_known := fmfilter (\<lambda>p. case fmlookup (md_known s) p of
              Some (_, known_fullname, _) \<Rightarrow> known_fullname \<noteq> fullname | None \<Rightarrow> False) (md_known s)\<rparr>
      | OtherServiceEvent \<Rightarrow> s)"

definition mdns_poll ::
  "(u8 list \<Rightarrow> string option) \<Rightarrow> u64 \<Rightarrow> service_event list \<Rightarrow> mdns_discovery \<Rightarrow>
   peer_advertisement list \<times> mdns_discovery" where
  "mdns_poll from_utf8 now_ms evs s =
     (let s = fold (handle_event from_utf8 now_ms) evs s;
          known = expire now_ms (md_ttl_ms s) (snd \<circ> snd) (md_known s)
      in (advertised fst known, s\<lparr>md_known := known\<rparr>))"

interpretation mdns: discovery "handle_event from_utf8" md_known md_local fst "snd \<circ> snd"
  for from_utf8
  by unfold_locales
    (auto simp: handle_event_def split: service_event.splits option.splits if_splits)

section \<open>What one peer registers another resolves\<close>

lemma parse_digits_append:
  "parse_digits n (xs @ ys) = (case parse_digits n xs of None \<Rightarrow> None | Some m \<Rightarrow> parse_digits m ys)"
  by (induction n xs rule: parse_digits.induct) (auto simp: Let_def simp del: diff_add_assoc2 diff_add_assoc)

lemma of_char_digit: "d < 10 \<Longrightarrow> of_char (char_of (48 + d :: nat)) = (48 + d :: nat)"
  by simp

lemma parse_show_nat: "n < 2 ^ 64 \<Longrightarrow> parse_digits 0 (show_nat n) = Some n"
proof (induction n rule: show_nat.induct)
  case (1 n)
  show ?case
  proof (cases "n < 10")
    case True
    then show ?thesis by (subst show_nat.simps) (simp add: Let_def)
  next
    case False
    then have "parse_digits 0 (show_nat (n div 10)) = Some (n div 10)" using 1 by simp
    moreover have "10 * (n div 10) + n mod 10 = n" by simp
    ultimately show ?thesis using False 1(2)
      by (subst show_nat.simps) (simp add: parse_digits_append Let_def)
  qed
qed

lemma show_nat_no_plus: "show_nat n = c # cs \<Longrightarrow> c \<noteq> CHR ''+''"
proof (induction n arbitrary: c cs rule: show_nat.induct)
  case (1 n)
  show ?case
  proof (cases "n < 10")
    case True
    then have "of_char c = (48 + n :: nat)" using 1(2) by (subst (asm) show_nat.simps) auto
    then show ?thesis by auto
  next
    case False
    then obtain d ds where d: "show_nat (n div 10) = d # ds" using show_nat_nonempty [of "n div 10"] by (cases "show_nat (n div 10)") auto
    with False 1(2) have "c = d" by (subst (asm) show_nat.simps) auto
    with 1(1) [OF False d] show ?thesis by simp
  qed
qed

lemma parse_u64_show [simp]: "parse_u64 (show_nat (unat w)) = Some w"
proof -
  have "parse_digits 0 (show_nat (unat w)) = Some (unat w)"
    using unsigned_less [of w] by (intro parse_show_nat) simp
  moreover obtain c cs where c: "show_nat (unat w) = c # cs"
    using show_nat_nonempty [of "unat w"] by (cases "show_nat (unat w)") auto
  ultimately show ?thesis using show_nat_no_plus [OF c] by (simp add: parse_u64_def c)
qed

text \<open>The TXT record another daemon resolves from these properties.\<close>

definition txt_record :: "(string \<times> string) list \<Rightarrow> string \<rightharpoonup> u8 list option" where
  "txt_record props = map_of (map (\<lambda>(key, value). (key, Some (string_bytes value))) props)"

definition resolution_of :: "mdns_discovery \<Rightarrow> ip_addr list \<Rightarrow> resolved_service" where
  "resolution_of s addresses =
     \<lparr>sr_fullname = md_fullname s, sr_port = md_listen_port s, sr_addresses = addresses,
      sr_txt = txt_record (mdns_properties s)\<rparr>"

text \<open>What one peer registers over mDNS another recovers: from the resolution of a peer's
  service with any address that is not loopback, another peer's table gets an entry
  with that peer's id, name, session and port, the first such address and the time of the poll.\<close>

theorem mdns_registration_resolved:
  assumes "\<forall>text. from_utf8 (string_bytes text) = Some text"
    and "md_fullname s \<noteq> md_fullname t" and "md_local s \<noteq> md_local t"
    and "List.find (\<lambda>ip. \<not> is_loopback ip) addresses = Some ip"
  shows "fmlookup (md_known (handle_event from_utf8 now_ms (ServiceResolved (resolution_of s addresses)) t)) (md_local s) =
    Some (\<lparr>ad_peer_id = md_local s, ad_name = md_name s, ad_session = md_session s,
      ad_addr = (ip, md_listen_port s), ad_last_seen_ms = now_ms\<rparr>, md_fullname s, now_ms)"
proof -
  let ?r = "resolution_of s addresses"
  have props: "txt_string from_utf8 ''id'' ?r = Some (show_nat (unat (peer_raw (md_local s))))"
    "txt_string from_utf8 ''name'' ?r = Some (md_name s)" "txt_string from_utf8 ''session'' ?r = md_session s"
    using assms(1)
    by (auto simp: txt_string_def resolution_of_def txt_record_def mdns_properties_def split: option.split)
  then show ?thesis using assms(2-4)
    by (simp add: handle_event_def resolution_of_def props [unfolded resolution_of_def])
qed

definition bytes_text :: "u8 list \<Rightarrow> string option" where
  "bytes_text b = Some (map (\<lambda>w. char_of (unat w)) b)"

lemma bytes_text_string [simp]: "bytes_text (string_bytes s) = Some s"
proof -
  have "char_of (unat (of_nat (of_char c) :: u8)) = c" for c
  proof -
    have "(of_char c :: nat) < 256" by simp
    then have "unat (of_nat (of_char c) :: u8) = of_char c" by (simp add: unat_of_nat)
    then show ?thesis by simp
  qed
  then show ?thesis by (simp add: bytes_text_def string_bytes_def comp_def)
qed

theorem mdns_registration_resolved_witness:
  "map_option (ad_name \<circ> fst) (fmlookup (md_known (handle_event bytes_text 500 (ServiceResolved
      (resolution_of (mdns_new (PeerId 2) ''studio'' None 7000) [IpV4 0x7F000001, IpV4 0x0A000001]))
      (mdns_new (PeerId 1) ''a'' None 7000))) (PeerId 2)) = Some ''studio''"
proof -
  let ?s = "mdns_new (PeerId 2) ''studio'' None 7000" and ?t = "mdns_new (PeerId 1) ''a'' None 7000"
  have "instance_name (PeerId 2) \<noteq> instance_name (PeerId 1)"
    using show_peer_id_inject [of "PeerId 2" "PeerId 1"] by (simp add: instance_name_def show_peer_id_def)
  then have "md_fullname ?s \<noteq> md_fullname ?t" by (simp add: mdns_new_def instance_name_def show_hex16_def append_eq_append_conv)
  moreover have "List.find (\<lambda>ip. \<not> is_loopback ip) [IpV4 0x7F000001, IpV4 0x0A000001] = Some (IpV4 0x0A000001)"
    by (simp add: is_loopback_def)
  ultimately show ?thesis
    using mdns_registration_resolved [of bytes_text ?s ?t "[IpV4 0x7F000001, IpV4 0x0A000001]" "IpV4 0x0A000001" 500]
    by (simp add: mdns_new_def)
qed

end
