(* ===== verification/Dashboard.thy ===== *)
theory Dashboard
  imports Engine Floats
begin

text \<open>
  The state behind the terminal dashboard (\<open>tpt-av-sync-cli/src/dashboard.rs\<close>): what it
  learns from the engine's events, and the throughput of a tick. Drawing is not modelled.
  The counters wrap, as they do in a release build.
\<close>

record peer_row =
  pw_name :: "string option"
  pw_presence :: "presence_state option"
  pw_playhead :: "u64 option"
  pw_ops_seen :: u64

definition peer_row_default :: peer_row where
  "peer_row_default = \<lparr>pw_name = None, pw_presence = None, pw_playhead = None, pw_ops_seen = 0\<rparr>"

record dashboard_state =
  db_rows :: "(peer_id, peer_row) fmap"
  db_total_ops :: u64
  db_ops_per_sec :: f64

definition dashboard_default :: dashboard_state where
  "dashboard_default = \<lparr>db_rows = fmempty, db_total_ops = 0, db_ops_per_sec = f64_of_int 0\<rparr>"

text \<open>\<open>self.rows.entry(peer).or_default()\<close>, changed in place.\<close>

definition alter_row :: "peer_id \<Rightarrow> (peer_row \<Rightarrow> peer_row) \<Rightarrow> dashboard_state \<Rightarrow> dashboard_state" where
  "alter_row p f s =
     s\<lparr>db_rows := fmupd p (f (case fmlookup (db_rows s) p of Some row \<Rightarrow> row | None \<Rightarrow> peer_row_default)) (db_rows s)\<rparr>"

fun dashboard_apply :: "sync_event \<Rightarrow> dashboard_state \<Rightarrow> dashboard_state" where
  "dashboard_apply (PeerJoined p) s = alter_row p id s"
| "dashboard_apply (PeerLeft p) s = alter_row p (\<lambda>row. row\<lparr>pw_presence := Some Offline\<rparr>) s"
| "dashboard_apply (RemoteOperation x) s =
     alter_row (op_peer x) (\<lambda>row. row\<lparr>pw_ops_seen := pw_ops_seen row + 1\<rparr>) (s\<lparr>db_total_ops := db_total_ops s + 1\<rparr>)"
| "dashboard_apply (SnapshotMerged applied ops) s = s\<lparr>db_total_ops := db_total_ops s + of_nat applied\<rparr>"
| "dashboard_apply (EvPlayhead u) s =
     alter_row (ph_peer_id u) (\<lambda>row. row\<lparr>pw_playhead := Some (ph_position u)\<rparr>) s"
| "dashboard_apply (EvPresence u) s =
     alter_row (pu_peer_id u)
       (\<lambda>row. row\<lparr>pw_name := Some (ui_name (pu_user u)), pw_presence := Some (ui_presence (pu_user u))\<rparr>) s"
| "dashboard_apply (EvTransportControl c) s = s"
| "dashboard_apply (EvClockSync m) s = s"

text \<open>\<open>tick_throughput\<close>; \<open>elapsed\<close> is in nanoseconds.\<close>

definition ops_this_tick :: "dashboard_state \<Rightarrow> u64" where
  "ops_this_tick s = sum_list (map (pw_ops_seen \<circ> snd) (btree_entries (db_rows s)))"

definition tick_throughput :: "int \<Rightarrow> dashboard_state \<Rightarrow> dashboard_state" where
  "tick_throughput elapsed s =
     s\<lparr>db_ops_per_sec :=
         if f64_less (f64_of_int 0) (as_secs_f64 elapsed)
         then f64_div (f64_of_u64 (ops_this_tick s)) (as_secs_f64 elapsed) else db_ops_per_sec s,
       db_rows := fmmap (\<lambda>row. row\<lparr>pw_ops_seen := 0\<rparr>) (db_rows s)\<rparr>"

text \<open>The engine's half of one round of \<open>run_loop\<close>: poll, then show the events.\<close>

definition dashboard_poll ::
  "'t transport_ops \<Rightarrow> u64 \<Rightarrow> 't engine \<Rightarrow> dashboard_state \<Rightarrow> ('t engine \<times> dashboard_state) option" where
  "dashboard_poll ops now e s =
     (case process_messages ops now e of None \<Rightarrow> None
      | Some (_, e) \<Rightarrow> let (events, e) = take_events e in Some (e, fold dashboard_apply events s))"

section \<open>Counting\<close>

lemma sum_btree_entries:
  fixes f :: "'v \<Rightarrow> 'a::comm_monoid_add"
  shows "sum_list (map (f \<circ> snd) (btree_entries m)) = (\<Sum>k\<in>fset (fmdom m). f (the (fmlookup m k)))"
proof -
  have "map (f \<circ> snd) (btree_entries m) = map (\<lambda>k. f (the (fmlookup m k))) (btree_keys m)"
    by (simp add: btree_entries_alt)
  thus ?thesis by (simp add: sum_list_distinct_conv_sum_set)
qed

lemma ops_this_tick_alter:
  "ops_this_tick (alter_row p f s) =
     (let row = case fmlookup (db_rows s) p of Some row \<Rightarrow> row | None \<Rightarrow> peer_row_default
      in ops_this_tick s - pw_ops_seen row + pw_ops_seen (f row))"
proof -
  let ?g = "\<lambda>m k. pw_ops_seen (the (fmlookup m k))"
  let ?m = "db_rows s"
  have others: "(\<Sum>k\<in>fset (fmdom ?m) - {p}. ?g (fmupd p r ?m) k) = (\<Sum>k\<in>fset (fmdom ?m) - {p}. ?g ?m k)" for r
    by (rule sum.cong) auto
  show ?thesis
  proof (cases "fmlookup ?m p")
    case None
    hence "p \<notin> fset (fmdom ?m)" by (simp add: fmdom_notI)
    thus ?thesis using None others
      by (simp add: ops_this_tick_def sum_btree_entries alter_row_def Let_def sum.insert_remove
          peer_row_default_def)
  next
    case (Some row)
    hence "p \<in> fset (fmdom ?m)" by (simp add: fmdomI)
    hence "sum (?g ?m) (fset (fmdom ?m)) = ?g ?m p + sum (?g ?m) (fset (fmdom ?m) - {p})"
      by (simp add: sum.remove)
    thus ?thesis using Some others
      by (simp add: ops_this_tick_def sum_btree_entries alter_row_def Let_def sum.insert_remove)
  qed
qed

lemma ops_this_tick_total [simp]: "ops_this_tick (s\<lparr>db_total_ops := n\<rparr>) = ops_this_tick s"
  by (simp add: ops_this_tick_def)

definition is_remote_operation :: "sync_event \<Rightarrow> bool" where
  "is_remote_operation e = (case e of RemoteOperation _ \<Rightarrow> True | _ \<Rightarrow> False)"

definition operations_of :: "sync_event \<Rightarrow> nat" where
  "operations_of e = (case e of RemoteOperation _ \<Rightarrow> 1 | SnapshotMerged applied _ \<Rightarrow> applied | _ \<Rightarrow> 0)"

lemma dashboard_apply_counts:
  "ops_this_tick (dashboard_apply e s) = ops_this_tick s + of_bool (is_remote_operation e)"
  "db_total_ops (dashboard_apply e s) = db_total_ops s + of_nat (operations_of e)"
  "db_ops_per_sec (dashboard_apply e s) = db_ops_per_sec s"
  by (cases e; simp add: ops_this_tick_alter Let_def is_remote_operation_def;
      simp add: ops_this_tick_def alter_row_def)
     (cases e; simp add: operations_of_def alter_row_def)+

lemma dashboard_counts:
  "ops_this_tick (fold dashboard_apply es s) = ops_this_tick s + of_nat (length (filter is_remote_operation es))"
  "db_total_ops (fold dashboard_apply es s) = db_total_ops s + of_nat (sum_list (map operations_of es))"
  "db_ops_per_sec (fold dashboard_apply es s) = db_ops_per_sec s"
  by (induction es arbitrary: s) (simp_all add: dashboard_apply_counts ac_simps)

text \<open>
  After a tick that ends a window of whole seconds, the dashboard shows the number of
  remote operations the engine reported in that window divided by its length, in the code's
  double arithmetic; the total has grown by those operations and by the operations that
  snapshots applied; and the next window starts from zero. Nothing seen in earlier windows
  leaks into the rate.
\<close>

theorem throughput_counts_window:
  assumes "0 < n" and "n < 2 ^ 20"
  shows "let before = tick_throughput m s;
             after = tick_throughput (n * 10 ^ 9) (fold dashboard_apply es before) in
         db_ops_per_sec after =
           f64_div (f64_of_u64 (of_nat (length (filter is_remote_operation es)))) (f64_of_int n) \<and>
         db_total_ops after = db_total_ops before + of_nat (sum_list (map operations_of es)) \<and>
         ops_this_tick after = 0"
proof -
  define before where "before = tick_throughput m s"
  define after where "after = tick_throughput (n * 10 ^ 9) (fold dashboard_apply es before)"
  have reset: "ops_this_tick (tick_throughput k s) = 0" for k s
    by (auto simp: ops_this_tick_def tick_throughput_def sum_btree_entries fmlookup_dom_iff intro!: sum.neutral)
  have secs: "as_secs_f64 (n * 1000000000) = f64_of_int n" using assms as_secs_whole [of n] by simp
  have "f64_less (f64_of_int 0) (f64_of_int n)"
    using assms f64_of_int_ops(4) [of 0 n] by (simp add: small_def)
  hence "db_ops_per_sec after =
          f64_div (f64_of_u64 (of_nat (length (filter is_remote_operation es)))) (f64_of_int n)"
    using assms dashboard_counts(1) [of es before] reset [of m s]
    by (simp add: after_def tick_throughput_def [of "n * 1000000000"] secs before_def)
  moreover have "db_total_ops after = db_total_ops before + of_nat (sum_list (map operations_of es))"
    by (simp add: after_def tick_throughput_def [of "n * 1000000000"] dashboard_counts)
  moreover have "ops_this_tick after = 0" by (simp add: after_def reset)
  ultimately show ?thesis by (simp add: Let_def before_def after_def)
qed

theorem throughput_counts_window_witness:
  "let before = tick_throughput 0 dashboard_default;
       after = tick_throughput (2 * 10 ^ 9) (fold dashboard_apply [SnapshotMerged 3 5, PeerLeft (PeerId 7)] before) in
   db_ops_per_sec after =
     f64_div (f64_of_u64 (of_nat (length (filter is_remote_operation [SnapshotMerged 3 5, PeerLeft (PeerId 7)]))))
             (f64_of_int 2) \<and>
   db_total_ops after = db_total_ops before +
     of_nat (sum_list (map operations_of [SnapshotMerged 3 5, PeerLeft (PeerId 7)])) \<and>
   ops_this_tick after = 0"
  by (rule throughput_counts_window) simp_all

end
