(* ===== verification/Session_Cli.thy ===== *)
theory Session_Cli
  imports Replay Persistence
begin

text \<open>
  The command-line tools over a store (\<open>SessionStore::rooms\<close> of
  \<open>tpt-av-sync-server/src/persistence.rs\<close>, \<open>inspect.rs\<close> and \<open>replay_cmd.rs\<close> of
  \<open>tpt-av-sync-cli/src\<close>). What a command prints is a value; the text layout of the tables is not
  modelled. The lemmas show that the listing names exactly the stored rooms and that a replay
  shows the session its writers had, unless its speed is too low for a gap to be scaled.
\<close>

section \<open>The rooms of a store\<close>

text \<open>\<open>Path::file_stem\<close> of a file name, and \<open>strip_suffix(..).unwrap_or(..)\<close>.\<close>

definition file_stem :: "string \<Rightarrow> string" where
  "file_stem name =
     (case dropWhile (\<lambda>c. c \<noteq> CHR ''.'') (rev name) of
        [] \<Rightarrow> name
      | _ # before \<Rightarrow> if before = [] \<or> name = ''..'' then name else rev before)"

definition strip_suffix :: "string \<Rightarrow> string \<Rightarrow> string" where
  "strip_suffix suffix s =
     (let n = length s - length suffix
      in if length suffix \<le> length s \<and> drop n s = suffix then take n s else s)"

text \<open>The directory may be read in any order: here by name. \<open>room\<close> is pushed once and the list sorted.\<close>

definition store_rooms :: "session_store \<Rightarrow> string list" where
  "store_rooms st = sort (remdups (map (strip_suffix ''.opslog'' \<circ> file_stem) (btree_keys (st_files st))))"

lemma stem_char_idem [simp]: "stem_char (stem_char c) = stem_char c"
  by (simp add: stem_char_def Let_def)

lemma stem_char_not_dot: "stem_char c \<noteq> CHR ''.''"
  by (simp add: stem_char_def Let_def) (auto simp: Let_def)

lemma stem_for_idem [simp]: "stem_for (stem_for room) = stem_for room"
  by (simp add: stem_for_def)

lemma stem_for_no_dot: "CHR ''.'' \<notin> set (stem_for room)"
  using stem_char_not_dot by (auto simp: stem_for_def dest: sym)

lemma drop_to_dot: "CHR ''.'' \<notin> set s \<Longrightarrow> dropWhile (\<lambda>c. c \<noteq> CHR ''.'') (rev s @ rest) = dropWhile (\<lambda>c. c \<noteq> CHR ''.'') rest"
  by (rule dropWhile_append2) auto

text \<open>Both generations of a room's log show its sanitized name.\<close>

lemma shown_name:
  "strip_suffix ''.opslog'' (file_stem (path_for room)) = stem_for room"
  "strip_suffix ''.opslog'' (file_stem (rotated_path_for room)) = stem_for room"
proof -
  let ?s = "stem_for room"
  have no_suffix: "drop (length ?s - 7) ?s \<noteq> ''.opslog''"
  proof
    assume "drop (length ?s - 7) ?s = ''.opslog''"
    then have "CHR ''.'' \<in> set (drop (length ?s - 7) ?s)" by simp
    then show False using stem_for_no_dot [of room] in_set_dropD by metis
  qed
  show "strip_suffix ''.opslog'' (file_stem (path_for room)) = ?s"
    using no_suffix by (simp add: file_stem_def path_for_def strip_suffix_def Let_def eval_nat_numeral)
  show "strip_suffix ''.opslog'' (file_stem (rotated_path_for room)) = ?s"
    by (simp add: file_stem_def rotated_path_for_def strip_suffix_def)
qed

text \<open>The files of a store that was only written through its operations.\<close>

definition room_files :: "string set \<Rightarrow> session_store \<Rightarrow> bool" where
  "room_files rooms st \<longleftrightarrow>
     (\<forall>path. contains_key (st_files st) path \<longrightarrow> (\<exists>room \<in> rooms. path = path_for room \<or> path = rotated_path_for room)) \<and>
     (\<forall>room \<in> rooms. contains_key (st_files st) (path_for room))"

lemma path_for_neq_rotated: "path_for room \<noteq> rotated_path_for room'"
proof
  assume "path_for room = rotated_path_for room'"
  then have "hd (rev (path_for room)) = hd (rev (rotated_path_for room'))" by simp
  then show False by (simp add: path_for_def rotated_path_for_def)
qed

lemma store_append_shape:
  assumes "encode x = Inr bytes"
  shows "\<exists>st'. store_append_op encode room x st = append_file (path_for room) (frame_bytes bytes) st' \<and>
    (st_files st' = st_files st \<or> st_files st' = st_files (store_rotate room st))"
proof (cases "st_limits st")
  case None
  then show ?thesis using assms by (intro exI [of _ st]) (simp add: store_append_op_def)
next
  case (Some limits)
  let ?count = "case fmlookup (st_counts st) room of Some n \<Rightarrow> n
    | None \<Rightarrow> (case count_frames st (path_for room) of Some n \<Rightarrow> n | None \<Rightarrow> 0)"
  let ?full = "st_max_ops_per_room limits \<le> ?count \<or>
    unat (st_max_bytes_per_room limits) < length (file_bytes st (path_for room)) + length (frame_bytes bytes)"
  let ?st = "if ?full then store_rotate room st else st"
  have "store_append_op encode room x st = append_file (path_for room) (frame_bytes bytes)
      (?st\<lparr>st_counts := fmupd room ((if ?full then 0 else ?count) + 1) (st_counts ?st)\<rparr>)"
    unfolding store_append_op_def Let_def assms Some sum.case option.case ..
  then show ?thesis by (intro exI conjI) auto
qed

lemma contains_key_rotate:
  "contains_key (st_files (store_rotate room st)) path \<Longrightarrow>
    contains_key (st_files st) path \<or> path = rotated_path_for room"
  "contains_key (st_files st) path \<Longrightarrow>
    contains_key (st_files (store_rotate room st)) path \<or> path = rotated_path_for room \<or> path = path_for room"
  by (auto simp: store_rotate_def Let_def contains_key_iff split: option.splits if_splits)

lemma contains_key_append_file:
  "contains_key (st_files (append_file p b st)) path \<longleftrightarrow> path = p \<or> contains_key (st_files st) path"
  by (simp add: append_file_def)

lemma room_files_append:
  assumes "room_files rooms st"
  shows "room_files (case encode x of Inl _ \<Rightarrow> rooms | Inr _ \<Rightarrow> insert room rooms) (store_append_op encode room x st)"
proof (cases "encode x")
  case (Inr bytes)
  from store_append_shape [of encode x bytes room st, OF this] obtain st' where
    st': "store_append_op encode room x st = append_file (path_for room) (frame_bytes bytes) st'"
      "st_files st' = st_files st \<or> st_files st' = st_files (store_rotate room st)"
    by blast
  have added: "contains_key (st_files st) path \<or> path = rotated_path_for room"
    if "contains_key (st_files st') path" for path
    using that st'(2) contains_key_rotate(1) by metis
  have kept: "contains_key (st_files st') path \<or> path = rotated_path_for room \<or> path = path_for room"
    if "contains_key (st_files st) path" for path
    using that st'(2) contains_key_rotate(2) by metis
  have "contains_key (st_files st') (path_for r) \<or> path_for r = path_for room" if "r \<in> rooms" for r
    using kept [of "path_for r"] assms that path_for_neq_rotated by (auto simp: room_files_def)
  moreover have "\<exists>r \<in> insert room rooms. path = path_for r \<or> path = rotated_path_for r"
    if "contains_key (st_files st') path" for path
    using added [OF that] assms by (auto simp: room_files_def)
  ultimately show ?thesis
    by (simp add: Inr st'(1) room_files_def contains_key_append_file) blast
qed (simp add: assms store_append_op_def)

text \<open>The rooms a history of appends writes to.\<close>

definition append_all ::
  "(tagged_operation \<Rightarrow> u8 list result) \<Rightarrow> (string \<times> tagged_operation) list \<Rightarrow> session_store \<Rightarrow> session_store" where
  "append_all encode rxs = fold (\<lambda>(room, x). store_append_op encode room x) rxs"

definition written_rooms :: "(tagged_operation \<Rightarrow> u8 list result) \<Rightarrow> (string \<times> tagged_operation) list \<Rightarrow> string set" where
  "written_rooms encode rxs = {room. \<exists>x b. (room, x) \<in> set rxs \<and> encode x = Inr b}"

lemma room_files_append_all:
  "room_files rooms st \<Longrightarrow> room_files (rooms \<union> written_rooms encode rxs) (append_all encode rxs st)"
proof (induction rxs arbitrary: rooms st)
  case (Cons rx rxs)
  obtain room x where rx: "rx = (room, x)" by force
  have "(case encode x of Inl _ \<Rightarrow> rooms | Inr _ \<Rightarrow> insert room rooms) \<union> written_rooms encode rxs =
      rooms \<union> written_rooms encode (rx # rxs)"
    by (auto simp: written_rooms_def rx split: sum.split)
  with Cons.IH [OF room_files_append [OF Cons.prems, where encode = encode and x = x and room = room]] show ?case
    by (simp add: append_all_def rx)
qed (simp add: append_all_def written_rooms_def)

text \<open>The listing names exactly the rooms that were written: for any sequence of appends to any
  rooms, with rotation or without, \<open>rooms\<close> returns the sanitized names of the rooms that an
  operation was stored for, each once and in order, and what it returns can be passed back to
  \<open>load_ops\<close> to read that room's operations.\<close>

theorem rooms_lists_written_rooms:
  "let st = append_all encode rxs (store_open_inner limits fmempty) in
   store_rooms st = sorted_list_of_set (stem_for ` written_rooms encode rxs) \<and>
   (\<forall>room. store_load_ops decode st (stem_for room) = store_load_ops decode st room)"
proof -
  let ?st = "append_all encode rxs (store_open_inner limits fmempty)"
  let ?names = "map (strip_suffix ''.opslog'' \<circ> file_stem) (btree_keys (st_files ?st))"
  have "room_files {} (store_open_inner limits fmempty)" by (simp add: room_files_def store_open_inner_def)
  from room_files_append_all [OF this, of encode rxs]
  have files: "room_files (written_rooms encode rxs) ?st" by simp
  have "set ?names = stem_for ` written_rooms encode rxs"
  proof (intro equalityI subsetI)
    fix name assume "name \<in> set ?names"
    then obtain path where "contains_key (st_files ?st) path" "name = strip_suffix ''.opslog'' (file_stem path)"
      by (auto simp: contains_key_def)
    then show "name \<in> stem_for ` written_rooms encode rxs"
      using files by (auto simp: room_files_def shown_name)
  next
    fix name assume "name \<in> stem_for ` written_rooms encode rxs"
    then obtain room where "contains_key (st_files ?st) (path_for room)" "name = stem_for room"
      using files by (auto simp: room_files_def)
    then show "name \<in> set ?names"
      by (auto simp: contains_key_def shown_name image_iff intro!: bexI [of _ "path_for room"])
  qed
  then have "store_rooms ?st = sorted_list_of_set (stem_for ` written_rooms encode rxs)"
    by (metis store_rooms_def sorted_list_of_set_sort_remdups)
  then show ?thesis by (simp add: Let_def store_load_ops_def path_for_def rotated_path_for_def)
qed

section \<open>The inspect command\<close>

datatype inspect_output =
    InspectNoRooms string
  | InspectRooms "(string \<times> nat) list"
  | InspectEmptyRoom string
  | InspectOperations "tagged_operation list"

definition usage_inspect :: string where
  "usage_inspect = ''usage: inspect <store-dir> [room]''"

text \<open>\<open>open_store\<close> is how opening the directory comes out.\<close>

definition inspect_run ::
  "(u8 list \<Rightarrow> tagged_operation result) \<Rightarrow> (string \<Rightarrow> session_store result) \<Rightarrow> string list \<Rightarrow> string + inspect_output" where
  "inspect_run decode open_store args =
     (case args of
        [] \<Rightarrow> Inl usage_inspect
      | dir # rest \<Rightarrow>
          (case open_store dir of
             Inl e \<Rightarrow> Inl (''opening store: '' @ show_sync_error e)
           | Inr st \<Rightarrow>
               (case rest of
                  [] \<Rightarrow>
                    if store_rooms st = [] then Inr (InspectNoRooms dir)
                    else Inr (InspectRooms (map (\<lambda>room. (room, length (store_load_ops decode st room))) (store_rooms st)))
                | room # _ \<Rightarrow>
                    if store_load_ops decode st room = [] then Inr (InspectEmptyRoom room)
                    else Inr (InspectOperations (store_load_ops decode st room)))))"

section \<open>The replay command\<close>

text \<open>\<open>parse_f64\<close> is the standard library's parser of decimal numbers.\<close>

definition to_ascii_lowercase :: "char \<Rightarrow> char" where
  "to_ascii_lowercase c = (let n = (of_char c :: nat) in if 65 \<le> n \<and> n \<le> 90 then char_of (n + 32) else c)"

definition parse_speed :: "(string \<Rightarrow> f64 option) \<Rightarrow> string option \<Rightarrow> string + replay_speed" where
  "parse_speed parse_f64 arg =
     (case arg of
        None \<Rightarrow> Inr Instant
      | Some arg \<Rightarrow>
          if map to_ascii_lowercase arg = ''instant'' then Inr Instant
          else if arg \<noteq> [] \<and> last arg \<in> {CHR ''x'', CHR ''X''}
          then (case parse_f64 (butlast arg) of
                  None \<Rightarrow> Inl (''invalid speed \"'' @ arg @ ''\": not a number'')
                | Some factor \<Rightarrow> Inr (Realtime factor))
          else Inl (''invalid speed \"'' @ arg @ ''\": expected \"instant\" or e.g. \"2x\"''))"

definition usage_replay :: string where
  "usage_replay = ''usage: replay <store-dir> <room> [speed]''"

text \<open>
  The result is a panic of the replay, the error message, or the number of operations replayed
  and the view shown; \<open>None\<close> if the replay or the view does not return.
\<close>

definition replay_run ::
  "(u8 list \<Rightarrow> tagged_operation result) \<Rightarrow> (string \<Rightarrow> f64 option) \<Rightarrow> (string \<Rightarrow> session_store result) \<Rightarrow>
   string list \<Rightarrow> (string + nat \<times> session_view) outcome option" where
  "replay_run decode parse_f64 open_store args =
     (case args of
        dir # room # rest \<Rightarrow>
          (case parse_speed parse_f64 (case rest of [] \<Rightarrow> None | speed # _ \<Rightarrow> Some speed) of
             Inl e \<Rightarrow> Some (Returned (Inl e))
           | Inr speed \<Rightarrow>
               (case open_store dir of
                  Inl e \<Rightarrow> Some (Returned (Inl (''opening store: '' @ show_sync_error e)))
                | Inr st \<Rightarrow>
                    (let ops = store_load_ops decode st room in
                     if ops = [] then Some (Returned (Inl (''no operations recorded for room \"'' @ room @ ''\"'')))
                     else (case replay_all (recording_new ops) (timeline_new (PeerId 0)) speed of
                         None \<Rightarrow> None
                       | Some Panicked \<Rightarrow> Some Panicked
                       | Some (Returned (_, c)) \<Rightarrow>
                           map_option (\<lambda>v. Returned (Inr (recording_len (recording_new ops), v))) (timeline_view c)))))
      | _ \<Rightarrow> Some (Returned (Inl usage_replay)))"

text \<open>Claim C28. The replay command shows the session that was recorded: a room whose log, in a fresh unbounded
  store, holds the operations of a session (with a codec that reads them back, and keeping the
  discipline of \<open>Session_Laws\<close>) is replayed at any speed that the command accepts to the very view that a replica shows
  which received the same operations in any order, unless the speed is so low that a gap between
  neighbouring capture times divided by it is no duration; then the command panics.\<close>

theorem replay_command_shows_session:
  assumes "codec_ok encode decode xs" and "deliverable xs" and "xs \<noteq> []"
    and "open_store dir = Inr (store_open (st_files (fold (store_append_op encode room) xs (store_open fmempty))))"
    and "parse_speed parse_f64 (case rest of [] \<Rightarrow> None | arg # _ \<Rightarrow> Some arg) = Inr speed"
    and "set ys = set xs" and "apply_remote_all ys (timeline_new q) = Some e"
  shows "\<exists>v. timeline_view e = Some v \<and>
    replay_run decode parse_f64 open_store (dir # room # rest) =
      Some (if speed_overflows speed (map timestamp (sort_key timestamp xs)) then Panicked else Returned (Inr (length xs, v)))"
proof -
  let ?st = "store_open (st_files (fold (store_append_op encode room) xs (store_open fmempty)))"
  have loaded: "store_load_ops decode ?st room = xs"
    by (rule store_loads_log [OF assms(1)]) (simp add: file_bytes_def store_open_def store_open_inner_def)
  let ?zs = "sort_key timestamp xs"
  have zs: "deliverable ?zs" "set ?zs = set ys" using assms(2,6) by (simp_all add: deliverable_def)
  obtain c where c: "apply_remote_all ?zs (timeline_new (PeerId 0)) = Some c"
    using deliver_to_new [OF zs(1), of "PeerId 0"] by blast
  have same: "tl_session c = tl_session e" by (rule delivered_sessions_agree [OF zs c assms(7)])
  obtain v where v: "timeline_view c = Some v"
    using delivered_view_exists [OF zs(1) c] by blast
  obtain sleeps where "replay_all (recording_new xs) (timeline_new (PeerId 0)) speed =
      Some (if speed_overflows speed (map timestamp (sort_key timestamp xs)) then Panicked else Returned (sleeps, c))"
    using replay_all_eq [OF c, of speed] by blast
  then have "replay_run decode parse_f64 open_store (dir # room # rest) =
      Some (if speed_overflows speed (map timestamp (sort_key timestamp xs)) then Panicked else Returned (Inr (length xs, v)))"
    using assms(3) by (simp add: replay_run_def assms(4,5) loaded Let_def v recording_len_def recording_new_def)
  moreover have "timeline_view e = Some v" using v same by (simp add: timeline_view_def)
  ultimately show ?thesis by blast
qed

text \<open>The same store replayed instantly.\<close>

theorem replay_command_shows_session_witness:
  "\<exists>v. replay_run (one_byte_decode example_ops) (\<lambda>_. None)
      (\<lambda>_. Inr (store_open (st_files (fold (store_append_op (one_byte_encode example_ops) ''a'') example_ops (store_open fmempty)))))
      [''store'', ''a'', ''INSTANT''] = Some (Returned (Inr (4, v)))"
proof -
  obtain e where "apply_remote_all (rev example_ops) (timeline_new (PeerId 7)) = Some e"
    using deliver_to_new [of "rev example_ops" "PeerId 7"] example_ops_deliverable by (auto simp: deliverable_def)
  moreover have "codec_ok (one_byte_encode example_ops) (one_byte_decode example_ops) example_ops"
    by (simp add: codec_ok_def one_byte_encode_def one_byte_decode_def example_ops_def example_op_def)
  moreover have "parse_speed (\<lambda>_. None) (case [''INSTANT''] of [] \<Rightarrow> None | arg # _ \<Rightarrow> Some arg) = Inr Instant"
    by code_simp
  moreover have "length example_ops = 4" "example_ops \<noteq> []" by (simp_all add: example_ops_def)
  moreover have "\<not> speed_overflows Instant ts" for ts by (simp add: speed_overflows_def)
  ultimately show ?thesis
    using replay_command_shows_session [of "one_byte_encode example_ops" "one_byte_decode example_ops" example_ops
        "\<lambda>_. Inr (store_open (st_files (fold (store_append_op (one_byte_encode example_ops) ''a'') example_ops (store_open fmempty))))"
        "''store''" "''a''" "\<lambda>_. None" "[''INSTANT'']" Instant "rev example_ops" "PeerId 7" e]
      example_ops_deliverable
    by auto
qed

end
