(* ===== verification/Wire.thy ===== *)
theory Wire
  imports Errors
begin

text \<open>
  The wire codec (\<open>tpt-av-sync-utils/src/wire.rs\<close>): the seam over bincode, which is an argument
  (\<open>enc\<close> and \<open>dec\<close>, with the error as text; \<open>dec\<close> also says how many bytes it used). The lemmas
  show that the seam reads back what it wrote and refuses anything behind it.
\<close>

definition wire_encode :: "('a \<Rightarrow> string + u8 list) \<Rightarrow> 'a \<Rightarrow> u8 list result" where
  "wire_encode enc v =
     (case enc v of Inl e \<Rightarrow> Inl (sync_error_serialization e) | Inr bytes \<Rightarrow> Inr bytes)"

definition wire_decode :: "(u8 list \<Rightarrow> string + 'a \<times> nat) \<Rightarrow> u8 list \<Rightarrow> 'a result" where
  "wire_decode dec bytes =
     (case dec bytes of
        Inl e \<Rightarrow> Inl (sync_error_serialization e)
      | Inr (v, len) \<Rightarrow>
          if len \<noteq> length bytes
          then Inl (sync_error_serialization (''trailing bytes after value: '' @
                 show_nat (length bytes - len) @ '' of '' @ show_nat (length bytes)))
          else Inr v)"

text \<open>A signature travels as a blob of exactly 64 bytes.\<close>

definition signature64_serialize :: "u8 list \<Rightarrow> u8 list" where
  "signature64_serialize signature = signature"

definition signature64_deserialize :: "u8 list \<Rightarrow> (nat \<times> string) + u8 list" where
  "signature64_deserialize blob =
     (if length blob \<noteq> 64 then Inl (length blob, ''a 64-byte signature'') else Inr blob)"

lemma signature64_roundtrip:
  "length signature = 64 \<Longrightarrow> signature64_deserialize (signature64_serialize signature) = Inr signature"
  by (simp add: signature64_deserialize_def signature64_serialize_def)

section \<open>Laws\<close>

text \<open>What bincode documents: a value is read back from its encoding, whatever follows, with its length.\<close>

definition bincode_lawful :: "('a \<Rightarrow> string + u8 list) \<Rightarrow> (u8 list \<Rightarrow> string + 'a \<times> nat) \<Rightarrow> bool" where
  "bincode_lawful enc dec \<longleftrightarrow> (\<forall>v b rest. enc v = Inr b \<longrightarrow> dec (b @ rest) = Inr (v, length b))"

lemma wire_roundtrip:
  assumes "bincode_lawful enc dec" and "wire_encode enc v = Inr b"
  shows "wire_decode dec b = Inr v"
proof -
  have "enc v = Inr b" using assms(2) by (auto simp: wire_encode_def split: sum.splits)
  then have "dec (b @ []) = Inr (v, length b)" using assms(1) unfolding bincode_lawful_def by blast
  then show ?thesis by (simp add: wire_decode_def)
qed

lemma wire_trailing_refused:
  assumes "bincode_lawful enc dec" and "wire_encode enc v = Inr b" and "rest \<noteq> []"
  shows "wire_decode dec (b @ rest) = Inl (sync_error_serialization
    (''trailing bytes after value: '' @ show_nat (length rest) @ '' of '' @ show_nat (length b + length rest)))"
proof -
  have "enc v = Inr b" using assms(2) by (auto simp: wire_encode_def split: sum.splits)
  then have "dec (b @ rest) = Inr (v, length b)" using assms(1) unfolding bincode_lawful_def by blast
  then show ?thesis using assms(3) by (simp add: wire_decode_def)
qed

text \<open>No encoding is a proper prefix of another, so the seam determines the value.\<close>

lemma wire_encode_inject:
  assumes "bincode_lawful enc dec" and "wire_encode enc v = Inr b" and "wire_encode enc w = Inr (b @ rest)"
  shows "w = v \<and> rest = []"
  using wire_roundtrip [OF assms(1,3)] wire_trailing_refused [OF assms(1,2)] wire_roundtrip [OF assms(1,2)]
  by (cases "rest = []") auto

end
