(* ===== verification/Engine_Network.thy ===== *)
theory Engine_Network
  imports Engine_Sessions Websocket Webrtc Wire
begin

text \<open>
  The engine over the socket transports (\<open>engine.rs\<close> with \<open>tcp.rs\<close>, \<open>websocket.rs\<close> and
  \<open>webrtc.rs\<close> of \<open>tpt-av-sync-net/src\<close>): each keeps the contract of the inbox, so every lemma
  about polls holds for it, and the bytes on the connections determine the sessions. As on the
  loopback, a broadcast may fail after it has reached some peers.
\<close>

section \<open>The transports as the engine sees them\<close>

definition tcp_ops :: "(wire_frame \<Rightarrow> u8 list result) \<Rightarrow> tcp_transport transport_ops" where
  "tcp_ops encode =
     \<lparr>tp_send_to = tcp_send_to encode, tp_broadcast = tcp_broadcast encode,
      tp_try_recv = tcp_try_recv, tp_peers = tcp_transport_peers\<rparr>"

definition ws_ops :: "(wire_frame \<Rightarrow> u8 list result) \<Rightarrow> websocket transport_ops" where
  "ws_ops encode =
     \<lparr>tp_send_to = ws_send_to encode, tp_broadcast = ws_broadcast encode,
      tp_try_recv = ws_try_recv, tp_peers = ws_transport_peers\<rparr>"

definition rtc_ops ::
  "rtc_api \<Rightarrow> (wire_frame \<Rightarrow> u8 list result) \<Rightarrow> (peer_id list \<Rightarrow> peer_id list) \<Rightarrow> webrtc transport_ops" where
  "rtc_ops api encode order =
     \<lparr>tp_send_to = rtc_send_to api encode, tp_broadcast = rtc_broadcast api encode order,
      tp_try_recv = rtc_try_recv, tp_peers = rtc_transport_peers\<rparr>"

lemma tcp_send_inner: "tcp_send_to encode p m t = (r, t') \<Longrightarrow> tt_inner t' = tt_inner t"
  using tcp_send_frame_inner [of encode p "WireMessage m" t] by (simp add: tcp_send_to_def)

lemma tcp_broadcast_inner: "tcp_broadcast encode m t = (r, t') \<Longrightarrow> tt_inner t' = tt_inner t"
  by (auto simp: tcp_broadcast_def split: if_splits prod.splits option.splits dest: tcp_broadcast_loop_inner)

interpretation tcp_inbox: delivering_inbox "tcp_ops encode" "\<lambda>t. tcp_inbox (tt_inner t)"
  for encode
  by unfold_locales
    (auto simp: tcp_ops_def tcp_try_recv_def dest: tcp_send_inner tcp_broadcast_inner split: list.splits)

lemma ws_send_inbox: "ws_send_frame encode p f t = (r, t') \<Longrightarrow> ws_inbox t' = ws_inbox t"
  by (auto simp: ws_send_frame_def split: sum.splits option.splits if_splits)

lemma ws_broadcast_inbox: "ws_broadcast encode m t = (r, t') \<Longrightarrow> ws_inbox t' = ws_inbox t"
proof -
  have "ws_inbox (fold (\<lambda>p t. snd (ws_send_frame encode p f t)) ps t) = ws_inbox t" for ps f t
    by (induction ps arbitrary: t) (auto intro: trans ws_send_inbox prod.collapse [symmetric])
  then show "ws_broadcast encode m t = (r, t') \<Longrightarrow> ws_inbox t' = ws_inbox t"
    by (auto simp: ws_broadcast_def split: if_splits)
qed

interpretation websocket_inbox: delivering_inbox "ws_ops encode" ws_inbox
  for encode
  by unfold_locales
    (auto simp: ws_ops_def ws_send_to_def ws_try_recv_def dest: ws_send_inbox ws_broadcast_inbox split: list.splits)

lemma rtc_send_inbox: "rtc_send_to api encode p m t = (r, t') \<Longrightarrow> wr_inbox t' = wr_inbox t"
  by (auto simp: rtc_send_to_def split: sum.splits prod.splits)

lemma rtc_broadcast_loop_inbox: "rtc_broadcast_loop api encode m ps t = (r, t') \<Longrightarrow> wr_inbox t' = wr_inbox t"
  by (induction ps arbitrary: t) (auto split: prod.splits sum.splits dest: rtc_send_inbox)

interpretation webrtc_inbox: delivering_inbox "rtc_ops api encode order" wr_inbox
  for api encode order
  by unfold_locales
    (auto simp: rtc_ops_def rtc_broadcast_def rtc_try_recv_def dest: rtc_send_inbox rtc_broadcast_loop_inbox
      split: list.splits if_splits)

section \<open>The codec\<close>

text \<open>A lawful bincode gives the codecs that the transports' lemmas ask for.\<close>

lemma lawful_codec_reads_back:
  "bincode_lawful enc dec \<Longrightarrow> codec_reads_back (wire_encode enc) (wire_decode dec)"
  by (auto simp: codec_reads_back_def intro: wire_roundtrip)

lemma lawful_codec_wire:
  assumes "bincode_lawful enc dec" and "wire_encode enc f = Inr b" and "length b \<le> unat MAX_FRAME_BYTES"
  shows "wire_codec_ok (wire_encode enc) (wire_decode dec) f"
  using assms wire_roundtrip [OF assms(1,2)] by (simp add: wire_codec_ok_def)

lemma lawful_codec_store:
  assumes "bincode_lawful enc dec"
    and "\<And>x. x \<in> set xs \<Longrightarrow> \<exists>b. wire_encode enc x = Inr b \<and> length b < 2 ^ 32"
  shows "codec_ok (wire_encode enc) (wire_decode dec) xs"
  unfolding codec_ok_def using assms(2) wire_roundtrip [OF assms(1)] by blast

section \<open>A broadcast that fails halfway\<close>

text \<open>
  Over TCP a broadcast that reached one peer and failed at another, after some bytes of the
  frame, counts as failed: the engine queues the operation for the next join, although it was
  written to the first peer, and does not track it, so nobody's acknowledgement is awaited.
\<close>

theorem partial_broadcast_queued:
  assumes "tcp_transport_peers (en_transport e) = [p, q]"
    and "fmlookup (tcp_peers (tt_inner (en_transport e))) p = Some c"
    and "fmlookup (tcp_peers (tt_inner (en_transport e))) q = Some d" and "c \<noteq> d"
    and "ts_writes (tt_conns (en_transport e) c) = []"
    and "ts_writes (tt_conns (en_transport e) d) = Some (n, err) # ws"
    and "tcp_frame encode (WireMessage (MsgOperation x)) = Inr b" and "ec_offline_queue (en_config e)"
  shows "let e' = engine_dispatch (tcp_ops encode) now (MsgOperation x) e in
    ts_out (tt_conns (en_transport e') c) = ts_out (tt_conns (en_transport e) c) @ b \<and>
    ts_out (tt_conns (en_transport e') d) = ts_out (tt_conns (en_transport e) d) @ take n b \<and>
    en_offline e' = offline_enqueue (MsgOperation x) (en_offline e) \<and> en_reliability e' = en_reliability e"
proof -
  let ?t = "en_transport e"
  let ?s = "(tt_conns ?t c)\<lparr>ts_out := ts_out (tt_conns ?t c) @ b\<rparr>"
  let ?s' = "(tt_conns ?t d)\<lparr>ts_out := ts_out (tt_conns ?t d) @ take n b, ts_writes := ws\<rparr>"
  let ?m = "WireMessage (MsgOperation x)"
  let ?err = "sync_error_transport (show_io_error err)"
  have "tcp_send_frame encode p ?m ?t = (Inr (), ?t\<lparr>tt_conns := (tt_conns ?t)(c := ?s)\<rparr>)"
    using assms(2,5,7) by (simp add: tcp_send_frame_def tcp_write_frame_def)
  moreover have "tcp_send_frame encode q ?m (?t\<lparr>tt_conns := (tt_conns ?t)(c := ?s)\<rparr>) =
      (Inl ?err, ?t\<lparr>tt_conns := (tt_conns ?t)(c := ?s, d := ?s')\<rparr>)"
    using assms(3,4,6,7) by (simp add: tcp_send_frame_def tcp_write_frame_def)
  ultimately have "tcp_broadcast encode (MsgOperation x) ?t =
      (Inl ?err, ?t\<lparr>tt_conns := (tt_conns ?t)(c := ?s, d := ?s')\<rparr>)"
    using assms(1) by (simp add: tcp_broadcast_def tcp_transport_peers_def)
  then show ?thesis
    using assms(4,8) by (simp add: engine_dispatch_def tcp_ops_def Let_def)
qed

section \<open>From bytes to inboxes\<close>

lemma tcp_reader_clean:
  assumes "\<forall>m \<in> set ms. wire_codec_ok encode decode (WireMessage m)" and "smooth evs" and "ms \<noteq> []"
    and "stream_bytes evs = concat (map (tcp_frame_bytes encode \<circ> WireMessage) ms)"
  shows "tcp_inbox (tcp_reader decode peer evs t) = tcp_inbox t @ map (Pair peer) ms"
proof -
  obtain m where "m \<in> set ms" using assms(3) by (cases ms) auto
  then have m: "wire_codec_ok encode decode (WireMessage m)" using assms(1) by blast
  have "0 < length (tcp_frame_bytes encode (WireMessage m))"
    using tcp_frame_ok [OF m] by (auto simp: tcp_frame_def tcp_frame_bytes_def be_bytes_def split: sum.splits if_splits)
  from reader_delivers_stream [OF assms(1,2) m this] assms(4) show ?thesis by simp
qed

text \<open>The binary messages among the items of a WebSocket stream.\<close>

definition ws_binaries :: "ws_item list \<Rightarrow> u8 list list" where
  "ws_binaries items = List.map_filter (\<lambda>item. case item of WsBinary b \<Rightarrow> Some b | _ \<Rightarrow> None) items"

definition ws_steady :: "ws_item list \<Rightarrow> bool" where
  "ws_steady items \<longleftrightarrow> (\<forall>item \<in> set items. case item of WsBinary _ \<Rightarrow> True | WsPing \<Rightarrow> True | WsOther \<Rightarrow> True | _ \<Rightarrow> False)"

definition ws_reads :: "(u8 list \<Rightarrow> wire_frame result) \<Rightarrow> sync_message \<Rightarrow> u8 list \<Rightarrow> bool" where
  "ws_reads decode m b \<longleftrightarrow> length b \<le> MAX_WIRE_MESSAGE_BYTES \<and> decode b = Inr (WireMessage m)"

lemma ws_delivers:
  assumes "fmlookup (ws_conns t) c = Some k" and "wc_phase k = WsServing peer" and "ws_steady items"
    and "list_all2 (ws_reads decode) ms (ws_binaries items)"
  shows "ws_inbox (fold (ws_receive ed sha256 encode decode c) items t) = ws_inbox t @ map (Pair peer) ms"
  using assms
proof (induction items arbitrary: t ms)
  case Nil
  then show ?case by (simp add: ws_binaries_def List.map_filter_simps)
next
  case (Cons item items)
  have steady: "ws_steady items" using Cons.prems(3) by (simp add: ws_steady_def)
  show ?case
  proof (cases "\<exists>b. item = WsBinary b")
    case True
    then obtain b where b: "item = WsBinary b" by blast
    then obtain m ms' where ms: "ms = m # ms'" "ws_reads decode m b"
      "list_all2 (ws_reads decode) ms' (ws_binaries items)"
      using Cons.prems(4) by (auto simp: ws_binaries_def List.map_filter_simps list_all2_Cons2)
    have "ws_receive ed sha256 encode decode c item t = t\<lparr>ws_inbox := ws_inbox t @ [(peer, m)]\<rparr>"
      using Cons.prems(1,2) ms(2) by (simp add: ws_receive_def ws_on_message_def b ws_reads_def)
    with Cons.IH [of "t\<lparr>ws_inbox := ws_inbox t @ [(peer, m)]\<rparr>" ms'] Cons.prems(1,2) steady ms(1,3)
    show ?thesis by simp
  next
    case False
    then have "item = WsPing \<or> item = WsOther" using Cons.prems(3) by (cases item) (auto simp: ws_steady_def)
    then have "ws_receive ed sha256 encode decode c item t = t" "ws_binaries (item # items) = ws_binaries items"
      using Cons.prems(1,2)
      by (auto simp: ws_receive_def ws_on_message_def ws_binaries_def List.map_filter_simps)
    with Cons.IH [of t ms] Cons.prems steady show ?thesis by simp
  qed
qed

section \<open>From bytes to sessions\<close>

definition tcp_frames_of :: "(wire_frame \<Rightarrow> u8 list result) \<Rightarrow> tagged_operation list \<Rightarrow> u8 list" where
  "tcp_frames_of encode xs = concat (map (\<lambda>x. tcp_frame_bytes encode (WireMessage (MsgOperation x))) xs)"

definition tcp_received ::
  "(u8 list \<Rightarrow> wire_frame result) \<Rightarrow> peer_id \<Rightarrow> stream_event list \<Rightarrow> tcp_transport \<Rightarrow> tcp_transport" where
  "tcp_received decode peer evs t = t\<lparr>tt_inner := tcp_reader decode peer evs (tt_inner t)\<rparr>"

text \<open>Claim C5. Convergence from the bytes, for engines with any past: one has just read at least one
  valid operation from a TCP connection, cut into chunks in any way; another has just read
  operations, in any order and with duplicates, from a WebSocket connection with control
  messages in between; both inboxes were empty before. Their replicas refine runs of the same
  discipline and their buffers are stuck, and what each has logged or just read is the same
  set of operations. Then any number of ticks that is enough for the tick's bound returns from
  every one, has handled everything read, and both engines hold the same session.\<close>

theorem sockets_converge:
  assumes "valid_ops X" and "engine_ready X xs d" and "engine_ready X ys e"
    and "operations_known xs d = operations_known ys e"
    and "en_transport d = tcp_received decode p evs s" and "tcp_inbox (tt_inner s) = []" and "xs \<noteq> []"
    and "\<forall>x \<in> set xs. wire_codec_ok encode decode (WireMessage (MsgOperation x))"
    and "smooth evs" and "stream_bytes evs = tcp_frames_of encode xs"
    and "en_transport e = fold (ws_receive ed sha256 encode decode c) items t" and "ws_inbox t = []"
    and "fmlookup (ws_conns t) c = Some k" and "wc_phase k = WsServing q"
    and "ws_steady items" and "list_all2 (ws_reads decode) (map MsgOperation ys) (ws_binaries items)"
    and "length xs \<le> length nows * ec_max_messages_per_tick (en_config d)"
    and "length ys \<le> length nows' * ec_max_messages_per_tick (en_config e)"
  shows "\<exists>d' e'. process_ticks (tcp_ops encode) nows d = Some (length xs, d') \<and>
    process_ticks (ws_ops encode) nows' e = Some (length ys, e') \<and>
    tl_session (en_crdt d') = tl_session (en_crdt e')"
proof -
  have pair: "inbox_of (map (Pair r) zs) = map (Pair r) (map MsgOperation zs)" for r zs
    by (simp add: inbox_of_def comp_def)
  have snd: "map snd (map (Pair r) zs) = zs" for r :: peer_id and zs :: "tagged_operation list"
    by (simp add: comp_def)
  have s: "tcp_inbox (tt_inner (en_transport d)) = inbox_of (map (Pair p) xs)"
    using tcp_reader_clean [of "map MsgOperation xs" encode decode evs p "tt_inner s"] assms(6-10)
    by (simp add: assms(5) pair tcp_received_def tcp_frames_of_def comp_def)
  have t: "ws_inbox (en_transport e) = inbox_of (map (Pair q) ys)"
    using ws_delivers [OF assms(13-16)] assms(12) by (simp add: assms(11) pair)
  obtain es fs where d: "replica_ok X es (en_crdt d)" "quiescent (en_crdt d)" "ops_in X (set xs)" "all_validated xs"
    and e: "replica_ok X fs (en_crdt e)" "quiescent (en_crdt e)" "ops_in X (set ys)" "all_validated ys"
    using assms(2,3) by (auto simp: engine_ready_def)
  from tcp_inbox.engine_receives [OF assms(1) d(1,2) s, of nows encode] d(3,4) assms(17) obtain d' es' where
    d': "process_ticks (tcp_ops encode) nows d = Some (length xs, d')" "replica_ok X es' (en_crdt d')"
      "quiescent (en_crdt d')" "op_key ` set (tl_log (en_crdt d')) = operations_known xs d"
    unfolding operations_known_def image_Un snd by auto
  from websocket_inbox.engine_receives [OF assms(1) e(1,2) t, of nows' encode] e(3,4) assms(18) obtain e' fs' where
    e': "process_ticks (ws_ops encode) nows' e = Some (length ys, e')" "replica_ok X fs' (en_crdt e')"
      "quiescent (en_crdt e')" "op_key ` set (tl_log (en_crdt e')) = operations_known ys e"
    unfolding operations_known_def image_Un snd by auto
  have "tl_session (en_crdt d') = tl_session (en_crdt e')"
    using received_sessions_agree [OF assms(1) d'(2,3) e'(2,3)] d'(4) e'(4) assms(4) by simp
  with d'(1) e'(1) show ?thesis by blast
qed

definition op_frames :: "wire_frame list" where
  "op_frames = map (WireMessage \<circ> MsgOperation) example_ops"

definition serving_websocket :: websocket where
  "serving_websocket = (ws_serve (PeerId 9))\<lparr>ws_conns :=
     fmupd 0 \<lparr>wc_phase = WsServing (PeerId 1), wc_nonce = [], wc_out = [], wc_writing = True\<rparr> fmempty\<rparr>"

definition listening_tcp :: tcp_transport where
  "listening_tcp =
     \<lparr>tt_inner = tcp_listen (PeerId 8), tt_conns = (\<lambda>_. \<lparr>ts_in = [], ts_out = [], ts_writes = []\<rparr>)\<rparr>"

text \<open>The first engine handles three messages per tick, the second as many as it likes.\<close>

theorem sockets_converge_witness:
  "\<exists>d e.
    process_ticks (tcp_ops (one_byte_encode op_frames)) [7, 8]
      (engine_with_config (timeline_new (PeerId 8)) (tcp_received (one_byte_decode op_frames) (PeerId 1)
        [Chunk (take 3 (tcp_frames_of (one_byte_encode op_frames) example_ops)),
         Chunk (drop 3 (tcp_frames_of (one_byte_encode op_frames) example_ops))] listening_tcp)
        (engine_config_default\<lparr>ec_max_messages_per_tick := 3\<rparr>)) = Some (4, d) \<and>
    process_ticks (ws_ops (one_byte_encode op_frames)) [9]
      (engine_with_config (timeline_new (PeerId 9)) (fold
        (ws_receive example_ed25519 example_hash (one_byte_encode op_frames) (one_byte_decode op_frames) 0)
        [WsBinary [3], WsPing, WsBinary [2], WsBinary [1], WsBinary [0], WsBinary [3]] serving_websocket)
        engine_config_default) = Some (5, e) \<and>
    tl_session (en_crdt d) = tl_session (en_crdt e)"
proof -
  let ?ys = "[example_ops ! 3, example_ops ! 2, example_ops ! 1, example_ops ! 0, example_ops ! 3]"
  have len: "length example_ops = 4" "example_ops \<noteq> []" by (simp_all add: example_ops_def)
  have ys: "set ?ys = set example_ops" by (auto simp: example_ops_def)
  have codec: "\<forall>x \<in> set example_ops. wire_codec_ok (one_byte_encode op_frames) (one_byte_decode op_frames)
      (WireMessage (MsgOperation x))"
    using len by (auto intro!: one_byte_wire_codec simp: op_frames_def)
  have reads: "list_all2 (ws_reads (one_byte_decode op_frames)) (map MsgOperation ?ys)
      (ws_binaries [WsBinary [3], WsPing, WsBinary [2], WsBinary [1], WsBinary [0], WsBinary [3]])"
    using len by (simp add: ws_binaries_def List.map_filter_simps ws_reads_def one_byte_decode_def op_frames_def
        MAX_WIRE_MESSAGE_BYTES_def)
  let ?evs = "[Chunk (take 3 (tcp_frames_of (one_byte_encode op_frames) example_ops)),
    Chunk (drop 3 (tcp_frames_of (one_byte_encode op_frames) example_ops))]"
  let ?items = "[WsBinary [3], WsPing, WsBinary [2], WsBinary [1], WsBinary [0], WsBinary [3]]"
  let ?s = "tcp_received (one_byte_decode op_frames) (PeerId 1) ?evs listening_tcp"
  let ?t = "fold (ws_receive example_ed25519 example_hash (one_byte_encode op_frames) (one_byte_decode op_frames) 0)
    ?items serving_websocket"
  let ?d = "engine_with_config (timeline_new (PeerId 8)) ?s (engine_config_default\<lparr>ec_max_messages_per_tick := 3\<rparr>)"
  let ?e = "engine_with_config (timeline_new (PeerId 9)) ?t engine_config_default"
  have X: "valid_ops (op_key ` set example_ops)" using example_ops_deliverable by (simp add: deliverable_def)
  note ready = fresh_engine_ready [OF example_ops_deliverable example_ops_validated]
  have engines: "en_transport ?d = ?s" "en_transport ?e = ?t" by (simp_all add: engine_with_config_def)
  have evs: "smooth ?evs" "stream_bytes ?evs = tcp_frames_of (one_byte_encode op_frames) example_ops"
    by (simp_all add: smooth_def)
  have tcp: "tcp_inbox (tt_inner listening_tcp) = []"
    by (simp add: listening_tcp_def tcp_listen_def listen_with_identity_def)
  have ws: "ws_inbox serving_websocket = []" "fmlookup (ws_conns serving_websocket) 0 =
      Some \<lparr>wc_phase = WsServing (PeerId 1), wc_nonce = [], wc_out = [], wc_writing = True\<rparr>"
    "wc_phase \<lparr>wc_phase = WsServing (PeerId 1), wc_nonce = [], wc_out = [], wc_writing = True\<rparr> = WsServing (PeerId 1)"
    "ws_steady ?items"
    by (simp_all add: serving_websocket_def ws_serve_def ws_steady_def)
  have known: "operations_known example_ops ?d = operations_known ?ys ?e"
    by (simp only: ready(2) [OF refl] ready(2) [OF ys])
  have bounds: "length example_ops \<le> length [7, 8 :: u64] * ec_max_messages_per_tick (en_config ?d)"
    "length ?ys \<le> length [9 :: u64] * ec_max_messages_per_tick (en_config ?e)" and five: "length ?ys = 5"
    by (simp_all add: len engine_with_config_def engine_config_default_def)
  show ?thesis
    using sockets_converge [OF X ready(1) [OF refl] ready(1) [OF ys] known engines(1) tcp len(2) codec evs
        engines(2) ws(1-4) reads bounds]
    unfolding len(1) five .
qed

end
