(* ===== verification/Tls.thy ===== *)
theory Tls
  imports Errors
begin

text \<open>
  Certificate trust (\<open>tpt-av-sync-net/src/tls.rs\<close>, with the configuration types of
  \<open>tpt-av-sync-utils/src/security.rs\<close>). SHA-256, the certificate generator, the PEM parser and
  rustls are arguments. The crate does not declare the module, so no transport uses it. The
  lemmas show that a pin accepts one fingerprint only, and what trust on first use does.
\<close>

datatype tls_identity_config = SelfSigned string | Pem string string

datatype tls_trust = AnyFirstUse | PinnedSha256 "u8 list"

definition certificate_fingerprint :: "(u8 list \<Rightarrow> u8 list) \<Rightarrow> u8 list \<Rightarrow> u8 list" where
  "certificate_fingerprint sha256 der = sha256 der"

section \<open>The server's certificate\<close>

text \<open>
  \<open>generate\<close> returns a certificate and a key; \<open>key_of\<close> reads a generated key; \<open>pem_certs\<close> lists
  the certificates of a PEM text, each or an error, and \<open>pem_key\<close> finds the private key.
\<close>

record ('c, 'k) tls_library =
  tl_generate :: "string \<Rightarrow> string + 'c \<times> string"
  tl_key_of :: "string \<Rightarrow> string + 'k"
  tl_pem_certs :: "string \<Rightarrow> (string + 'c) list"
  tl_pem_key :: "string \<Rightarrow> string + 'k option"

fun collect_certs :: "(string + 'c) list \<Rightarrow> 'c list result" where
  "collect_certs [] = Inr []"
| "collect_certs (Inl e # rest) = Inl (sync_error_transport (''cert pem: '' @ e))"
| "collect_certs (Inr c # rest) = (case collect_certs rest of Inl e \<Rightarrow> Inl e | Inr cs \<Rightarrow> Inr (c # cs))"

definition load_certificate_chain :: "('c, 'k) tls_library \<Rightarrow> tls_identity_config \<Rightarrow> ('c list \<times> 'k) result" where
  "load_certificate_chain lib config =
     (case config of
        SelfSigned common_name \<Rightarrow>
          (case tl_generate lib common_name of
             Inl e \<Rightarrow> Inl (sync_error_transport (''self-signed cert: '' @ e))
           | Inr (cert, pem) \<Rightarrow>
               (case tl_key_of lib pem of
                  Inl e \<Rightarrow> Inl (sync_error_transport (''self-signed key: '' @ e))
                | Inr key \<Rightarrow> Inr ([cert], key)))
      | Pem cert_pem key_pem \<Rightarrow>
          (case collect_certs (tl_pem_certs lib cert_pem) of
             Inl e \<Rightarrow> Inl e
           | Inr certs \<Rightarrow>
               (case tl_pem_key lib key_pem of
                  Inl e \<Rightarrow> Inl (sync_error_transport (''key pem: '' @ e))
                | Inr None \<Rightarrow> Inl (sync_error_transport ''no private key in pem'')
                | Inr (Some key) \<Rightarrow> Inr (certs, key))))"

definition ALPN :: string where "ALPN = ''tpt-av-sync''"

text \<open>\<open>single_cert\<close> is rustls's check of the chain and the key; the identity is the configuration with its protocols.\<close>

definition tls_server_identity_new ::
  "('c, 'k) tls_library \<Rightarrow> ('c list \<Rightarrow> 'k \<Rightarrow> string + 's) \<Rightarrow> tls_identity_config \<Rightarrow> ('s \<times> string list) result" where
  "tls_server_identity_new lib single_cert config =
     (case load_certificate_chain lib config of
        Inl e \<Rightarrow> Inl e
      | Inr (certs, key) \<Rightarrow>
          (case single_cert certs key of
             Inl e \<Rightarrow> Inl (sync_error_transport (''tls server config: '' @ e))
           | Inr server \<Rightarrow> Inr (server, [ALPN])))"

section \<open>The client's trust\<close>

text \<open>The verifier inside the rustls configuration has a vector of its own.\<close>

record fingerprint_verifier =
  fv_trust :: tls_trust
  fv_observed :: "u8 list list"

record tls_client_trust =
  tc_verifier :: fingerprint_verifier
  tc_observed :: "u8 list list"
  tc_trust :: tls_trust

definition fingerprint_verifier_new :: "tls_trust \<Rightarrow> fingerprint_verifier" where
  "fingerprint_verifier_new trust = \<lparr>fv_trust = trust, fv_observed = []\<rparr>"

definition tls_client_trust_new :: "tls_trust \<Rightarrow> tls_client_trust" where
  "tls_client_trust_new trust =
     \<lparr>tc_verifier = fingerprint_verifier_new trust, tc_observed = [], tc_trust = trust\<rparr>"

definition observed_fingerprints :: "tls_client_trust \<Rightarrow> u8 list list" where
  "observed_fingerprints t = tc_observed t"

definition record_fingerprint :: "u8 list \<Rightarrow> fingerprint_verifier \<Rightarrow> fingerprint_verifier" where
  "record_fingerprint fingerprint v = v\<lparr>fv_observed := fv_observed v @ [fingerprint]\<rparr>"

text \<open>\<open>{:02x?}\<close> of a byte array.\<close>

fun show_hex_bytes :: "u8 list \<Rightarrow> string" where
  "show_hex_bytes [] = []"
| "show_hex_bytes [b] = hex_digits 2 (unat b)"
| "show_hex_bytes (b # bs) = hex_digits 2 (unat b) @ '', '' @ show_hex_bytes bs"

definition verify_server_cert ::
  "(u8 list \<Rightarrow> u8 list) \<Rightarrow> u8 list \<Rightarrow> fingerprint_verifier \<Rightarrow> (string + unit) \<times> fingerprint_verifier" where
  "verify_server_cert sha256 end_entity v =
     (let fingerprint = certificate_fingerprint sha256 end_entity
      in case fv_trust v of
           AnyFirstUse \<Rightarrow> (Inr (), record_fingerprint fingerprint v)
         | PinnedSha256 expected \<Rightarrow>
             if fingerprint = expected then (Inr (), record_fingerprint fingerprint v)
             else (Inl (''certificate fingerprint ['' @ show_hex_bytes fingerprint @ ''] does not match pin''), v))"

text \<open>One handshake of a connection made with this trust object.\<close>

definition tls_handshake ::
  "(u8 list \<Rightarrow> u8 list) \<Rightarrow> u8 list \<Rightarrow> tls_client_trust \<Rightarrow> (string + unit) \<times> tls_client_trust" where
  "tls_handshake sha256 cert t =
     (case verify_server_cert sha256 cert (tc_verifier t) of (r, v) \<Rightarrow> (r, t\<lparr>tc_verifier := v\<rparr>))"

definition tls_handshakes ::
  "(u8 list \<Rightarrow> u8 list) \<Rightarrow> u8 list list \<Rightarrow> tls_client_trust \<Rightarrow> tls_client_trust" where
  "tls_handshakes sha256 = fold (\<lambda>cert t. snd (tls_handshake sha256 cert t))"

lemma tls_handshakes_keep:
  "tc_observed (tls_handshakes sha256 certs t) = tc_observed t \<and>
   fv_trust (tc_verifier (tls_handshakes sha256 certs t)) = fv_trust (tc_verifier t)"
  by (induction certs arbitrary: t)
    (auto simp: tls_handshakes_def tls_handshake_def verify_server_cert_def record_fingerprint_def Let_def
      split: tls_trust.split)

text \<open>A pin admits exactly the certificates with its fingerprint, whatever happened before.\<close>

theorem pin_admits_one_fingerprint:
  "fst (tls_handshake sha256 cert (tls_handshakes sha256 certs (tls_client_trust_new (PinnedSha256 pin)))) = Inr () \<longleftrightarrow>
   sha256 cert = pin"
  using tls_handshakes_keep [of sha256 certs "tls_client_trust_new (PinnedSha256 pin)"]
  by (simp add: tls_handshake_def verify_server_cert_def tls_client_trust_new_def fingerprint_verifier_new_def
      certificate_fingerprint_def Let_def split: prod.split)

text \<open>
  Trust on first use trusts on every use, and has nothing to show for it: after any
  handshakes any other certificate is accepted too, and the fingerprints that the caller is
  told to compare and pin are none, though the verifier recorded every one.
\<close>

theorem first_use_trusts_every_use:
  "let t = tls_handshakes sha256 certs (tls_client_trust_new AnyFirstUse) in
   fst (tls_handshake sha256 cert t) = Inr () \<and> observed_fingerprints t = [] \<and>
   fv_observed (tc_verifier t) = map sha256 certs"
proof -
  have "fv_observed (tc_verifier (tls_handshakes sha256 certs t)) = fv_observed (tc_verifier t) @ map sha256 certs"
    if "fv_trust (tc_verifier t) = AnyFirstUse" for t
    using that
  proof (induction certs arbitrary: t)
    case (Cons c certs)
    have "snd (tls_handshake sha256 c t) = t\<lparr>tc_verifier := record_fingerprint (sha256 c) (tc_verifier t)\<rparr>"
      using Cons.prems by (simp add: tls_handshake_def verify_server_cert_def certificate_fingerprint_def Let_def)
    with Cons.IH [of "snd (tls_handshake sha256 c t)"] Cons.prems show ?case
      by (simp add: tls_handshakes_def record_fingerprint_def)
  qed (simp add: tls_handshakes_def)
  from this [of "tls_client_trust_new AnyFirstUse"] tls_handshakes_keep [of sha256 certs "tls_client_trust_new AnyFirstUse"]
  show ?thesis
    by (simp add: Let_def tls_handshake_def verify_server_cert_def observed_fingerprints_def tls_client_trust_new_def
        fingerprint_verifier_new_def)
qed

end
