(* ===== verification/Compaction_Laws.thy ===== *)
theory Compaction_Laws
  imports Convergence
begin

text \<open>
  What compaction (\<open>compaction.rs\<close>, modelled in \<open>Compaction\<close>) preserves, for the replicas of
  a reachable system. An operation whose tag no register carries left no trace but
  \<open>detached\<close> (\<open>effect_without_trace\<close>); the kept operations create every entity, so their replay
  buffers nothing (\<open>replay_executes_all\<close>); the start register of a detached piece names an
  operation that detaches it (\<open>detached_by_run\<close>), so the pieces keep their flag; and nothing
  reads the flag of a clip without a parent (\<open>materialize_forget\<close>).
\<close>

section \<open>An operation that owns no register leaves no trace\<close>

definition clip_forget :: "clip_crdt \<Rightarrow> clip_crdt" where
  "clip_forget r = r\<lparr>cc_detached := False\<rparr>"

definition forget_detached :: "session \<Rightarrow> session" where
  "forget_detached s = s\<lparr>ss_clips := fmmap clip_forget (ss_clips s)\<rparr>"

lemma lww_no_trace:
  "t \<noteq> reg_tag (lww_set v t r) \<Longrightarrow> lww_set v t r = r"
  "t \<noteq> reg_tag (lww_set_opt w t r) \<Longrightarrow> lww_set_opt w t r = r"
  by (auto simp: lww_set_opt_def lww.stamp_put max_def intro!: lww.put_stale split: if_splits option.splits)

lemma clip_no_trace:
  assumes "t \<notin> set (clip_tags (clip_apply oper t r))" and "clip_target oper = Some c"
  shows "clip_forget (clip_apply oper t r) = clip_forget r"
  using assms
  by (cases oper) (simp_all add: clip_target_def clip_tags_def clip_forget_def clip_apply_metadata_def lww_no_trace)

lemma track_no_trace:
  assumes "t \<notin> set (track_tags (track_apply oper t r))"
  shows "track_apply oper t r = r"
  using assms by (cases oper) (simp_all add: track_tags_def lww_no_trace)

lemma env_no_trace:
  assumes "\<forall>k r. fmlookup (env_set a e v t m) k = Some r \<longrightarrow> t \<noteq> reg_tag r"
    and "op_tag_initial < t"
  shows "env_set a e v t m = m"
proof -
  have "t \<noteq> reg_tag (lww_set v t (env_entry m (a, e)))"
    using assms(1) [rule_format, of "(a, e)"] by (simp add: env_set_def)
  then have stale: "lww_set v t (env_entry m (a, e)) = env_entry m (a, e)" by (rule lww_no_trace)
  have "fmlookup m (a, e) = Some (env_entry m (a, e))"
  proof (cases "fmlookup m (a, e)")
    case None
    then have "reg_tag (lww_set v t (env_entry m (a, e))) = t"
      using assms(2) by (simp add: env_entry_def lww.stamp_put max_def)
    with \<open>t \<noteq> _\<close> show ?thesis by simp
  qed (simp add: env_entry_def)
  with stale show ?thesis by (simp add: env_set_def fmupd_same)
qed

lemma insert_leaves_trace:
  assumes "clip_target oper = Some c" "\<not> contains_key (ss_clips s) c" "session_enabled oper s"
    and "op_tag_initial < t"
  shows "t \<in> set (clip_tags (clip_apply oper t clip_blank))"
  using assms
  by (cases oper) (auto simp: clip_target_def session_enabled_def self_split_def target_present_def
      clip_tags_def clip_blank_def clip_from_split_def)

lemma insert_leaves_trace_track:
  assumes "track_target oper = Some c" "\<not> contains_key (ss_tracks s) c" "session_enabled oper s"
    and "op_tag_initial < t"
  shows "t \<in> set (track_tags (track_apply oper t track_blank))"
  using assms
  by (cases oper) (auto simp: track_target_def session_enabled_def self_split_def target_present_def
      track_tags_def track_blank_def)

lemma tag_set_clip: "fmlookup (ss_clips s) c = Some r \<Longrightarrow> set (clip_tags r) \<subseteq> tag_set s"
  and tag_set_track: "fmlookup (ss_tracks s) k = Some q \<Longrightarrow> set (track_tags q) \<subseteq> tag_set s"
  by (auto simp: tag_set_def)

lemma effect_without_trace:
  assumes none: "t \<notin> tag_set (session_effect oper t s)" and t: "op_tag_initial < t"
    and en: "session_enabled oper s" and ns: "\<not> is_split oper"
  shows "forget_detached (session_effect oper t s) = forget_detached s"
proof (cases oper rule: operation_shapes)
  case (clip c)
  let ?s = "clip_effect c (clip_apply oper t) s"
  have none: "t \<notin> tag_set ?s" using none by (simp add: session_effect_clip [OF clip])
  obtain r where r: "fmlookup (ss_clips s) c = Some r"
  proof (cases "fmlookup (ss_clips s) c")
    case None
    then have "fmlookup (ss_clips ?s) c = Some (clip_apply oper t clip_blank)" by simp
    from tag_set_clip [OF this] none insert_leaves_trace [OF clip _ en t] None show ?thesis
      by (auto simp: contains_key_iff)
  qed
  then have "fmlookup (ss_clips ?s) c = Some (clip_apply oper t r)" by simp
  from tag_set_clip [OF this] none have "clip_forget (clip_apply oper t r) = clip_forget r"
    by (intro clip_no_trace [OF _ clip]) blast
  with r have "fmmap clip_forget (ss_clips ?s) = fmmap clip_forget (ss_clips s)"
    by (intro fmap_ext) auto
  then show ?thesis by (simp add: session_effect_clip [OF clip] forget_detached_def clip_effect_def)
next
  case (track k)
  let ?s = "track_effect k (track_apply oper t) s"
  have none: "t \<notin> tag_set ?s" using none by (simp add: session_effect_track [OF track])
  obtain r where r: "fmlookup (ss_tracks s) k = Some r"
  proof (cases "fmlookup (ss_tracks s) k")
    case None
    then have "fmlookup (ss_tracks ?s) k = Some (track_apply oper t track_blank)" by simp
    from tag_set_track [OF this] none insert_leaves_trace_track [OF track _ en t] None show ?thesis
      by (auto simp: contains_key_iff)
  qed
  then have "fmlookup (ss_tracks ?s) k = Some (track_apply oper t r)" by simp
  from tag_set_track [OF this] none have "track_apply oper t r = r"
    by (intro track_no_trace) blast
  with r have "ss_tracks ?s = ss_tracks s" by (simp add: fm_alter_present fmupd_same)
  then have "?s = s" by (intro session.equality) simp_all
  then show ?thesis by (simp add: session_effect_track [OF track])
next
  case (split p f c)
  then show ?thesis using ns by (simp add: is_split_def)
next
  case (envelope a e v)
  have "env_set a e v t (ss_envelopes s) = ss_envelopes s"
    by (rule env_no_trace [OF _ t]) (use none in \<open>auto simp: envelope tag_set_def\<close>)
  then show ?thesis by (simp add: envelope)
next
  case (metadata u)
  have "session_metadata_apply u t (ss_metadata s) = ss_metadata s"
    using none by (auto simp: metadata tag_set_def session_metadata_tags_def session_metadata_apply_def lww_no_trace)
  then show ?thesis by (simp add: metadata)
qed

lemma op_effect_without_trace:
  "snd x \<notin> tag_set (op_effect x s) \<Longrightarrow> op_tag_initial < snd x \<Longrightarrow> op_enabled x s \<Longrightarrow>
    \<not> is_split (fst x) \<Longrightarrow> forget_detached (op_effect x s) = forget_detached s"
  unfolding op_effect_def op_enabled_def by (rule effect_without_trace)

lemma tag_set_forget [simp]: "tag_set (forget_detached s) = tag_set s"
proof -
  have tags: "clip_tags (clip_forget r) = clip_tags r" for r by (simp add: clip_tags_def clip_forget_def)
  have "(\<exists>c r. fmlookup (ss_clips (forget_detached s)) c = Some r \<and> t \<in> set (clip_tags r)) \<longleftrightarrow>
      (\<exists>c r. fmlookup (ss_clips s) c = Some r \<and> t \<in> set (clip_tags r))" for t
    by (simp add: forget_detached_def) (metis tags)
  then show ?thesis by (simp add: tag_set_def) (simp add: forget_detached_def session_metadata_tags_def)
qed

lemma run_without_trace:
  assumes "\<forall>x \<in> set rs. snd x \<notin> tag_set (fold op_effect rs s) \<and> op_tag_initial < snd x \<and>
      op_enabled x s \<and> \<not> is_split (fst x)"
  shows "forget_detached (fold op_effect rs s) = forget_detached s"
  using assms
proof (induction rs rule: rev_induct)
  case (snoc x rs)
  let ?s = "fold op_effect rs s"
  have "forget_detached (op_effect x ?s) = forget_detached ?s"
    using snoc.prems session_crdt.enabled_fold [of x s rs]
    by (intro op_effect_without_trace) auto
  then have "tag_set (op_effect x ?s) = tag_set ?s" by (metis tag_set_forget)
  with snoc.IH snoc.prems \<open>forget_detached (op_effect x ?s) = _\<close> show ?case by simp
qed simp

section \<open>The kept operations can be replayed\<close>

definition creates :: "timeline_operation \<Rightarrow> required_target option" where
  "creates oper = (case oper of
     InsertClip c _ _ _ \<Rightarrow> Some (RequiredClip c)
   | InsertTrack k _ _ \<Rightarrow> Some (RequiredTrack k)
   | SplitClip p f c \<Rightarrow> if p = c then None else Some (RequiredClip c)
   | _ \<Rightarrow> None)"

lemma target_created:
  "session_enabled oper s \<Longrightarrow> target_present (session_effect oper t s) r \<Longrightarrow>
    target_present s r \<or> creates oper = Some r"
  by (cases oper; cases r)
    (auto simp: target_present_def session_enabled_def self_split_def creates_def split: if_splits)

lemma target_created_present: "creates oper = Some r \<Longrightarrow> target_present (session_effect oper t s) r"
  by (cases oper) (auto simp: target_present_def creates_def split: if_splits)

text \<open>The same on tagged operations.\<close>

lemma op_targets:
  "op_enabled x s \<Longrightarrow> target_present (op_effect x s) r \<Longrightarrow> target_present s r \<or> creates (fst x) = Some r"
  "creates (fst x) = Some r \<Longrightarrow> target_present (op_effect x s) r"
  "target_present s r \<Longrightarrow> target_present (op_effect x s) r"
  unfolding op_effect_def op_enabled_def
  by (blast dest: target_created target_created_present target_present_effect)+

lemma target_present_fold: "target_present s r \<Longrightarrow> target_present (fold op_effect xs s) r"
  by (induction xs arbitrary: s) (simp_all add: op_targets)

lemma executed_created:
  "x \<in> set xs \<Longrightarrow> creates (fst x) = Some r \<Longrightarrow> target_present (fold op_effect xs s) r"
proof (induction xs arbitrary: s)
  case (Cons y xs)
  then show ?case
    by (auto intro: target_present_fold op_targets)
qed simp

text \<open>
  \<open>es\<close> is the original run, \<open>fs\<close> what a replica that was given \<open>K\<close> executed and \<open>P\<close> what it
  has buffered. If \<open>K\<close> creates every entity of the original run, every entity is there.
\<close>

lemma replay_creates:
  assumes run: "runs op_enabled op_effect es session_new"
    and boot: "\<forall>x \<in> set es. creates (fst x) \<noteq> None \<longrightarrow>
      x \<in> K \<or> (\<exists>y \<in> K. creates (fst y) = creates (fst x) \<and> required_targets (fst y) = [])"
    and K: "K \<subseteq> set fs \<union> P" and stuck: "\<forall>x \<in> P. \<not> op_enabled x (fold op_effect fs session_new)"
  shows "target_present (fold op_effect es session_new) r \<Longrightarrow>
    target_present (fold op_effect fs session_new) r"
  using run boot
proof (induction es arbitrary: r rule: rev_induct)
  case Nil
  then show ?case by (simp add: target_present_fold)
next
  case (snoc x es)
  let ?E = "fold op_effect es session_new" and ?D = "fold op_effect fs session_new"
  have en: "op_enabled x ?E" using snoc.prems(2) by (simp add: runs_snoc)
  have sub: "target_present ?D q" if "target_present ?E q" for q
    using snoc.IH [OF that] snoc.prems by (auto simp: runs_snoc)
  have exec: "y \<in> set fs" if "y \<in> K" "op_enabled y ?D" for y using that K stuck by blast
  have "target_present ?E r \<or> creates (fst x) = Some r"
    using op_targets(1) [OF en] snoc.prems(1) by simp
  then show ?case
  proof
    assume r: "creates (fst x) = Some r"
    have "\<exists>y \<in> set fs. creates (fst y) = Some r"
    proof (cases "x \<in> K")
      case True
      have "op_enabled x ?D" using en sub by (auto simp: op_enabled_def session_enabled_def)
      with True exec r show ?thesis by blast
    next
      case False
      with snoc.prems(3) r obtain y where y: "y \<in> K" "creates (fst y) = Some r"
        "required_targets (fst y) = []" by auto
      then have "op_enabled y ?D" by (simp add: op_enabled_def session_enabled_def)
      with y exec show ?thesis by blast
    qed
    then show ?thesis by (blast intro: executed_created)
  qed (rule sub)
qed

context op_crdt
begin

lemma executed_enabled: "runs enabled effect xs s \<Longrightarrow> x \<in> set xs \<Longrightarrow> enabled x (fold effect xs s)"
  by (induction xs rule: rev_induct) (auto simp: runs_snoc enabled_effect)

end

lemma replay_executes_all:
  assumes "runs op_enabled op_effect es session_new"
    and "\<forall>x \<in> set es. creates (fst x) \<noteq> None \<longrightarrow>
      x \<in> K \<or> (\<exists>y \<in> K. creates (fst y) = creates (fst x) \<and> required_targets (fst y) = [])"
    and "K = set fs \<union> P" and "\<forall>x \<in> P. \<not> op_enabled x (fold op_effect fs session_new)"
    and "K \<subseteq> set es"
  shows "P = {}"
proof -
  have "op_enabled x (fold op_effect fs session_new)" if "x \<in> K" for x
  proof -
    have "op_enabled x (fold op_effect es session_new)"
      using assms(1,5) that by (intro session_crdt.executed_enabled) auto
    with replay_creates [OF assms(1,2) _ assms(4)] assms(3) show ?thesis
      by (auto simp: op_enabled_def session_enabled_def)
  qed
  with assms(3,4) show ?thesis by blast
qed

section \<open>Detached pieces\<close>

definition starts_clip :: "clip_id \<Rightarrow> timeline_operation \<Rightarrow> bool" where
  "starts_clip c oper \<longleftrightarrow> (case oper of
     InsertClip d _ _ _ \<Rightarrow> d = c | MoveClip d _ _ _ \<Rightarrow> d = c | TrimClip d _ _ _ \<Rightarrow> d = c | _ \<Rightarrow> False)"

definition detaches_clip :: "clip_id \<Rightarrow> timeline_operation \<Rightarrow> bool" where
  "detaches_clip c oper \<longleftrightarrow> starts_clip c oper \<and> insert_target oper = None"

text \<open>A detached clip's start register names an operation that wrote it.\<close>

definition detached_by :: "(timeline_operation \<times> op_tag) set \<Rightarrow> clip_id \<Rightarrow> clip_crdt \<Rightarrow> bool" where
  "detached_by Y c r \<longleftrightarrow> (cc_detached r \<longrightarrow> op_tag_initial < reg_tag (cc_start_frame r)) \<and>
     (op_tag_initial < reg_tag (cc_start_frame r) \<longrightarrow>
       (\<exists>x \<in> Y. snd x = reg_tag (cc_start_frame r) \<and> starts_clip c (fst x)))"

lemma detached_by_blank [simp]: "detached_by Y c clip_blank"
  by (simp add: detached_by_def clip_blank_def clip_from_split_def)

lemma detached_by_mono: "detached_by Y c r \<Longrightarrow> Y \<subseteq> Z \<Longrightarrow> detached_by Z c r"
  by (auto simp: detached_by_def)

lemma detached_by_apply:
  assumes "detached_by Y c r" and "op_tag_initial < t" and "clip_target oper = Some c"
  shows "detached_by (insert (oper, t) Y) c (clip_apply oper t r)"
  using assms
  by (cases oper) (auto simp: detached_by_def clip_target_def starts_clip_def lww.stamp_put max_def
      clip_apply_metadata_def split: if_splits)

lemma detached_by_split [simp]:
  "detached_by Y c (clip_claim p f t r) = detached_by Y c r"
  "detached_by Y c (clip_record_split f d r) = detached_by Y c r"
  by (simp_all add: detached_by_def clip_claim_def clip_record_split_eq)

lemma detached_by_effect:
  assumes "\<forall>c r. fmlookup (ss_clips s) c = Some r \<longrightarrow> detached_by Y c r" and "op_tag_initial < t"
    and "fmlookup (ss_clips (session_effect oper t s)) c = Some r"
  shows "detached_by (insert (oper, t) Y) c r"
proof -
  have old: "detached_by (insert (oper, t) Y) c r" if "fmlookup (ss_clips s) c = Some r" for c r
    using assms(1) that by (blast intro: detached_by_mono)
  show ?thesis
  proof (cases oper rule: operation_shapes)
    case (clip d)
    with assms old show ?thesis
      by (auto simp: session_effect_clip intro!: detached_by_apply split: if_splits option.splits)
  next
    case (track k)
    with assms old show ?thesis by (simp add: session_effect_track)
  qed (use assms(3) old in \<open>auto split: if_splits option.splits\<close>)
qed

lemma detached_by_run:
  assumes "\<forall>x \<in> set es. op_tag_initial < snd x"
    and "fmlookup (ss_clips (fold op_effect es session_new)) c = Some r"
  shows "detached_by (set es) c r"
  using assms
proof (induction es arbitrary: c r rule: rev_induct)
  case Nil
  then show ?case by (simp add: session_new_def)
next
  case (snoc x es)
  let ?s = "fold op_effect es session_new"
  have "\<forall>c r. fmlookup (ss_clips ?s) c = Some r \<longrightarrow> detached_by (set es) c r"
    using snoc.IH snoc.prems(1) by auto
  moreover have "fmlookup (ss_clips (session_effect (fst x) (snd x) ?s)) c = Some r"
    using snoc.prems(2) by (simp add: op_effect_def [of x])
  ultimately have "detached_by (insert (fst x, snd x) (set es)) c r"
    using snoc.prems(1) by (intro detached_by_effect) auto
  then show ?case by simp
qed

definition is_detached :: "session \<Rightarrow> clip_id \<Rightarrow> bool" where
  "is_detached s c \<longleftrightarrow> (\<exists>r. fmlookup (ss_clips s) c = Some r \<and> cc_detached r)"

lemma clip_apply_detached: "cc_detached r \<Longrightarrow> cc_detached (clip_apply oper t r)"
  by (cases oper) (simp_all add: clip_apply_metadata_def clip_record_split_eq)

lemma is_detached_effect: "is_detached s c \<Longrightarrow> is_detached (session_effect oper t s) c"
proof (cases oper rule: operation_shapes)
  case (clip d)
  then show "is_detached s c \<Longrightarrow> ?thesis"
    by (auto simp: is_detached_def session_effect_clip clip_apply_detached)
next
  case (track k)
  then show "is_detached s c \<Longrightarrow> ?thesis" by (simp add: is_detached_def session_effect_track)
qed (auto simp: is_detached_def clip_claim_def clip_record_split_eq)

lemma is_detached_now: "detaches_clip c oper \<Longrightarrow> is_detached (session_effect oper t s) c"
  by (cases oper) (auto simp: detaches_clip_def starts_clip_def insert_target_def is_detached_def)

lemma op_detached:
  "is_detached s c \<Longrightarrow> is_detached (op_effect x s) c"
  "detaches_clip c (fst x) \<Longrightarrow> is_detached (op_effect x s) c"
  by (simp_all only: op_effect_def is_detached_effect is_detached_now)

lemma is_detached_fold: "is_detached s c \<Longrightarrow> is_detached (fold op_effect xs s) c"
  by (induction xs arbitrary: s) (simp_all add: op_detached)

lemma executed_detaches:
  "x \<in> set xs \<Longrightarrow> detaches_clip c (fst x) \<Longrightarrow> is_detached (fold op_effect xs s) c"
proof (induction xs arbitrary: s)
  case (Cons y xs)
  then show ?case by (auto intro: is_detached_fold op_detached)
qed simp

section \<open>The view does not see the flag of a clip without a parent\<close>

definition root_forget :: "clip_crdt \<Rightarrow> clip_crdt" where
  "root_forget r = (if cc_parent r = None then clip_forget r else r)"

definition forget_roots :: "session \<Rightarrow> session" where
  "forget_roots s = s\<lparr>ss_clips := fmmap root_forget (ss_clips s)\<rparr>"

lemma root_forget_fields [simp]:
  "cc_parent (root_forget r) = cc_parent r" "cc_alive (root_forget r) = cc_alive r"
  "cc_start_frame (root_forget r) = cc_start_frame r"
  "cc_duration_frames (root_forget r) = cc_duration_frames r"
  "cc_splits (root_forget r) = cc_splits r"
  "own_fields (root_forget r) = own_fields r"
  "inherit_step (root_forget r) (root_forget q) a = inherit_step r q a"
  "clip_next_split_boundary_after (root_forget r) = clip_next_split_boundary_after r"
  "clip_first_split_offset (root_forget r) = clip_first_split_offset r"
  "cc_parent r = Some l \<Longrightarrow> cc_detached (root_forget r) = cc_detached r"
  by (auto simp: root_forget_def clip_forget_def own_fields_def inherit_step_def
      clip_next_split_boundary_after_def clip_first_split_offset_def fun_eq_iff)

lemma forget_roots_fields [simp]:
  "ss_metadata (forget_roots s) = ss_metadata s" "ss_tracks (forget_roots s) = ss_tracks s"
  "ss_envelopes (forget_roots s) = ss_envelopes s"
  "ss_clips (forget_roots s) = fmmap root_forget (ss_clips s)"
  by (simp_all add: forget_roots_def)

lemma inherit_loop_forget:
  assumes "parents_wf s" and "fmlookup (ss_clips s) c = Some r"
  shows "inherit_loop (fmmap root_forget (ss_clips s)) (root_forget r) a = inherit_loop (ss_clips s) r a"
  using assms(2)
proof (induction c arbitrary: r a rule: wf_induct_rule [OF assms(1) [unfolded parents_wf_def]])
  case (1 c)
  show ?case
  proof (cases "cc_parent r")
    case None
    then show ?thesis by (simp add: inherit_loop.simps)
  next
    case (Some link)
    have "(cp_clip link, c) \<in> parent_edges s" using 1(2) Some by (rule parent_edgesI)
    from 1(1) [OF this] Some show ?thesis
      by (subst (1 2) inherit_loop.simps) (simp split: option.split)
  qed
qed

lemma resolve_full_range_forget:
  assumes "parents_wf s" and "fmlookup (ss_clips s) c = Some r"
  shows "resolve_full_range (fmmap root_forget (ss_clips s)) (root_forget r) =
    resolve_full_range (ss_clips s) r"
  using assms(2)
proof (induction c arbitrary: r rule: wf_induct_rule [OF assms(1) [unfolded parents_wf_def]])
  case (1 c)
  show ?case
  proof (cases "cc_parent r")
    case None
    then show ?thesis by (simp add: resolve_full_range.simps)
  next
    case (Some link)
    have "(cp_clip link, c) \<in> parent_edges s" using 1(2) Some by (rule parent_edgesI)
    from 1(1) [OF this] Some show ?thesis
      by (subst (1 2) resolve_full_range.simps) (simp split: option.split)
  qed
qed

lemma materialize_forget:
  assumes wf: "parents_wf s"
  shows "materialize (forget_roots s) = materialize s"
proof -
  have "resolve_clip (forget_roots s) c = resolve_clip s c" for c
  proof (cases "fmlookup (ss_clips s) c")
    case (Some r)
    have "resolve_geometry (fmmap root_forget (ss_clips s)) (root_forget r) = resolve_geometry (ss_clips s) r"
      unfolding resolve_geometry_def resolve_full_range_forget [OF wf Some] root_forget_fields ..
    with inherit_loop_forget [OF wf Some, of "own_fields r"] Some show ?thesis
      by (simp add: resolve_clip_def)
  qed (simp add: resolve_clip_def)
  then have "resolve_all (forget_roots s) cs = resolve_all s cs" for cs by (induction cs) simp_all
  moreover have "btree_keys (fmmap root_forget (ss_clips s)) = btree_keys (ss_clips s)"
    by (simp add: btree_keys_def)
  moreover have "track_views (forget_roots s) = track_views s" "metadata_view (forget_roots s) = metadata_view s"
    by (simp_all add: track_views_def metadata_view_def)
  ultimately show ?thesis by (simp add: materialize_def)
qed

lemma clip_forget_eq:
  assumes "clip_forget r = clip_forget r'"
  shows "cc_parent r = cc_parent r'" and "cc_detached r = cc_detached r' \<Longrightarrow> r = r'"
  using assms by (cases r; cases r'; simp add: clip_forget_def)+

lemma forget_roots_eq:
  assumes "forget_detached s = forget_detached s'"
    and "\<And>c r. fmlookup (ss_clips s) c = Some r \<Longrightarrow> cc_parent r \<noteq> None \<Longrightarrow> is_detached s c = is_detached s' c"
  shows "forget_roots s = forget_roots s'"
proof -
  have clips: "fmmap clip_forget (ss_clips s) = fmmap clip_forget (ss_clips s')"
    and rest: "ss_metadata s = ss_metadata s'" "ss_tracks s = ss_tracks s'" "ss_envelopes s = ss_envelopes s'"
    using assms(1) [THEN arg_cong, of ss_clips] assms(1) [THEN arg_cong, of ss_metadata]
      assms(1) [THEN arg_cong, of ss_tracks] assms(1) [THEN arg_cong, of ss_envelopes]
    by (simp_all add: forget_detached_def)
  have "map_option root_forget (fmlookup (ss_clips s) c) = map_option root_forget (fmlookup (ss_clips s') c)" for c
  proof -
    have eq: "map_option clip_forget (fmlookup (ss_clips s) c) = map_option clip_forget (fmlookup (ss_clips s') c)"
      using arg_cong [OF clips, of "\<lambda>m. fmlookup m c"] by simp
    show ?thesis
    proof (cases "fmlookup (ss_clips s) c")
      case (Some r)
      with eq obtain r' where r': "fmlookup (ss_clips s') c = Some r'" "clip_forget r = clip_forget r'"
        by (cases "fmlookup (ss_clips s') c") auto
      note eqs = clip_forget_eq [OF r'(2)]
      moreover have "cc_detached r = cc_detached r'" if "cc_parent r \<noteq> None"
        using assms(2) [OF Some that] Some r' by (simp add: is_detached_def)
      ultimately have "root_forget r = root_forget r'"
        using r'(2) by (auto simp: root_forget_def)
      with Some r' show ?thesis by simp
    qed (use eq in auto)
  qed
  then have "fmmap root_forget (ss_clips s) = fmmap root_forget (ss_clips s')" by (intro fmap_ext) simp
  with rest show ?thesis by (simp add: forget_roots_def)
qed

section \<open>What the compacted log contains\<close>

lemma compact_log_mem:
  "x \<in> set (tl_log (timeline_compact c)) \<longleftrightarrow>
    x \<in> set (tl_log c) \<and> op_id x |\<in>| compact_keep (tl_log c) (tl_session c)"
  by (simp add: timeline_compact_def compact_log_def Let_def)

lemma compact_keep_iff:
  "i |\<in>| compact_keep ops s \<longleftrightarrow> i |\<in>| keep_bootstrap ops {||} {||} (keep_splits ops {||}) \<or>
    i |\<in>| fset_of_list (map op_id ops) \<and> (\<exists>t \<in> tag_set s. t \<noteq> op_tag_initial \<and> op_id_of t = i)"
  by (simp add: compact_keep_def Let_def fold_retain_tag_iff set_session_tags)

lemma owner_kept:
  assumes "x \<in> set (tl_log c)" "well_formed_op x" "op_tag_of x \<in> tag_set (tl_session c)"
    and "op_tag_initial < op_tag_of x"
  shows "x \<in> set (tl_log (timeline_compact c))"
proof -
  have "op_id_of (op_tag_of x) = op_id x"
    using assms(2) by (simp add: op_id_of_def op_tag_of_def well_formed_op_def)
  moreover have "op_id x |\<in>| fset_of_list (map op_id (tl_log c))"
    using assms(1) by (simp add: fset_of_list_elem)
  ultimately show ?thesis using assms by (force simp: compact_log_mem compact_keep_iff)
qed

lemma split_kept:
  "x \<in> set (tl_log c) \<Longrightarrow> is_split (operation x) \<Longrightarrow> x \<in> set (tl_log (timeline_compact c))"
  by (auto simp: compact_log_mem compact_keep_iff keep_splits_iff intro!: keep_bootstrap_mono)

lemma first_insert_kept:
  assumes "x \<in> set (tl_log c)" and "creates (operation x) = Some r" and "\<not> is_split (operation x)"
  shows "\<exists>y \<in> set (tl_log (timeline_compact c)). creates (operation y) = Some r \<and>
    required_targets (operation y) = []"
proof -
  define P where "P y \<longleftrightarrow> creates (operation y) = Some r \<and> \<not> is_split (operation y)"
    for y :: tagged_operation
  have "\<exists>x \<in> set (tl_log c). P x" using assms by (auto simp: P_def)
  then obtain pre y post where log: "tl_log c = pre @ y # post" and y: "P y" and pre: "\<forall>z \<in> set pre. \<not> P z"
    using split_list_first_prop by metis
  have "op_id y |\<in>| keep_bootstrap (tl_log c) {||} {||} (keep_splits (tl_log c) {||})"
  proof (cases r)
    case (RequiredClip k)
    with y obtain tr d n where oper: "operation y = InsertClip k tr d n"
      by (cases "operation y") (auto simp: P_def creates_def is_split_def split: if_splits)
    have "\<forall>z \<in> set pre. \<forall>tr d n. operation z \<noteq> InsertClip k tr d n"
      using pre RequiredClip by (auto simp: P_def creates_def is_split_def)
    with keep_bootstrap_first_clip [OF log oper] show ?thesis by simp
  next
    case (RequiredTrack k)
    with y obtain d n where oper: "operation y = InsertTrack k d n"
      by (cases "operation y") (auto simp: P_def creates_def is_split_def split: if_splits)
    have "\<forall>z \<in> set pre. \<forall>d n. operation z \<noteq> InsertTrack k d n"
      using pre RequiredTrack by (auto simp: P_def creates_def is_split_def)
    with keep_bootstrap_first_track [OF log oper] show ?thesis by simp
  qed
  then have "y \<in> set (tl_log (timeline_compact c))" by (simp add: compact_log_mem compact_keep_iff log)
  moreover have "required_targets (operation y) = []"
    using y by (cases "operation y") (auto simp: P_def creates_def is_split_def)
  ultimately show ?thesis using y unfolding P_def by blast
qed

lemma child_not_inserted:
  assumes inv: "session_inv X s" and X: "valid_ops X" and r: "fmlookup (ss_clips s) c = Some r" "cc_parent r \<noteq> None"
    and x: "x \<in> X"
  shows "insert_target (fst x) \<noteq> Some c"
proof -
  have "clip_origin_ok X s c r" using inv r(1) by (simp add: session_inv_def)
  with r(2) obtain p f y where y: "y \<in> X" "split_of (fst y) = Some (c, p, f)"
    by (auto simp: clip_origin_ok_def split: option.splits)
  have "ops_compatible x y" using X x y(1) unfolding valid_ops_def by blast
  then have "origin_compatible (fst x) (fst y)" unfolding ops_compatible_def by blast
  with y(2) show ?thesis by (simp add: origin_compatible_def)
qed

lemma starts_detaches: "starts_clip c oper \<Longrightarrow> insert_target oper \<noteq> Some c \<Longrightarrow> detaches_clip c oper"
  by (cases oper) (auto simp: detaches_clip_def starts_clip_def insert_target_def)

section \<open>Compaction preserves the view\<close>

text \<open>The keys of the log of a replica with nothing buffered, against those compaction keeps.\<close>

lemma kept_keys_boot:
  assumes "k \<in> op_key ` set (tl_log c)" and "creates (fst k) \<noteq> None"
  shows "k \<in> op_key ` set (tl_log (timeline_compact c)) \<or>
    (\<exists>y \<in> op_key ` set (tl_log (timeline_compact c)). creates (fst y) = creates (fst k) \<and>
      required_targets (fst y) = [])"
proof -
  obtain x r where x: "x \<in> set (tl_log c)" "k = op_key x" "creates (operation x) = Some r"
    using assms by (auto simp: op_key_def)
  then show ?thesis
    using split_kept [OF x(1)] first_insert_kept [OF x(1,3)] by (fastforce simp: op_key_def)
qed

text \<open>A piece that is detached is detached by a kept operation.\<close>

lemma detaching_operation_kept:
  assumes c: "replica_ok X es c" "tl_pending c = []" and X: "valid_ops X"
    and r: "fmlookup (ss_clips (tl_session c)) k = Some r" "cc_parent r \<noteq> None" "cc_detached r"
  shows "\<exists>x \<in> op_key ` set (tl_log (timeline_compact c)). detaches_clip k (fst x)"
proof -
  have E: "tl_session c = fold op_effect es session_new" and es: "set es = op_key ` set (tl_log c)"
    and wf: "\<forall>x \<in> set (tl_log c). well_formed_op x"
    using c by (simp_all add: replica_ok_def replica_core_def)
  have inv: "session_inv X (tl_session c)"
    using c(1) unfolding replica_ok_def by (rule replica_core_inv)
  have esX: "set es \<subseteq> X" using c(1) by (rule replica_ok_executed)
  then have tags: "\<forall>x \<in> set es. op_tag_initial < snd x" using X by (auto simp: valid_ops_def)
  from detached_by_run [OF tags r(1) [unfolded E]] r(3) obtain x where x: "x \<in> set es"
    "snd x = reg_tag (cc_start_frame r)" "starts_clip k (fst x)"
    by (auto simp: detached_by_def)
  have "snd x \<in> tag_set (tl_session c)" using tag_set_clip [OF r(1)] x(2) by (auto simp: clip_tags_def)
  with x(1) owner_kept wf tags es have "x \<in> op_key ` set (tl_log (timeline_compact c))"
    by (fastforce simp: op_key_def)
  moreover have "detaches_clip k (fst x)"
    using child_not_inserted [OF inv X r(1,2), of x] x(1,3) esX by (intro starts_detaches) auto
  ultimately show ?thesis by blast
qed

lemma compaction_replayed:
  assumes c: "replica_ok X es c" and X: "valid_ops X" and none: "tl_pending c = []"
    and d: "replica_ok X fs d" "quiescent d"
    and log: "op_key ` set (tl_log d) = op_key ` set (tl_log (timeline_compact c))"
  shows "tl_pending d = [] \<and> forget_roots (tl_session d) = forget_roots (tl_session c)"
proof -
  let ?E = "fold op_effect es session_new" and ?D = "fold op_effect fs session_new"
  let ?K = "op_key ` set (tl_log (timeline_compact c))" and ?P = "op_key ` set (tl_pending d)"
  have run: "runs op_enabled op_effect es session_new" and E: "tl_session c = ?E"
    and es: "set es = op_key ` set (tl_log c)" and wf: "\<forall>x \<in> set (tl_log c). well_formed_op x"
    using c none by (simp_all add: replica_ok_def replica_core_def)
  have D: "tl_session d = ?D" and K: "?K = set fs \<union> ?P"
    using d(1) log by (simp_all add: replica_ok_def replica_core_def)
  have sub: "?K \<subseteq> set es" using es by (auto simp: compact_log_mem)
  have esX: "set es \<subseteq> X" using c by (rule replica_ok_executed)
  then have tags: "\<forall>x \<in> set es. op_tag_initial < snd x" using X by (auto simp: valid_ops_def)
  have boot: "\<forall>x \<in> set es. creates (fst x) \<noteq> None \<longrightarrow>
      x \<in> ?K \<or> (\<exists>y \<in> ?K. creates (fst y) = creates (fst x) \<and> required_targets (fst y) = [])"
    using kept_keys_boot [of _ c] unfolding es by blast
  have stuck: "\<forall>x \<in> ?P. \<not> op_enabled x ?D" using d(2) by (simp add: quiescent_def D)
  have "?P = {}" by (rule replay_executes_all [OF run boot K stuck sub])
  with K have fs: "set fs = ?K" by simp
  define rs where "rs = map op_key (filter (\<lambda>x. x \<notin> set (tl_log (timeline_compact c))) (tl_log c))"
  have all: "set (fs @ rs) = set es" using fs sub by (auto simp: rs_def es)
  then have ED: "?E = fold op_effect rs ?D"
    using session_crdt.fold_effect_set [of es "fs @ rs"] valid_ops_pairwise [OF X esX] by simp
  have rs: "snd x \<notin> tag_set ?E \<and> \<not> is_split (fst x)" if "x \<in> set rs" for x
    using that owner_kept split_kept tags wf E es by (fastforce simp: rs_def op_key_def)
  have "op_enabled x ?D" if "x \<in> set rs" for x
  proof -
    have "x \<in> set es" using that all by auto
    then have "op_enabled x ?E" by (rule session_crdt.executed_enabled [OF run])
    with replay_creates [OF run boot _ stuck] K show ?thesis by (auto simp: op_enabled_def session_enabled_def)
  qed
  with rs tags all have "forget_detached ?E = forget_detached ?D"
    unfolding ED by (intro run_without_trace) (auto simp flip: ED)
  moreover have "is_detached ?E k = is_detached ?D k"
    if r: "fmlookup (ss_clips ?E) k = Some r" "cc_parent r \<noteq> None" for k r
    using detaching_operation_kept [OF c none X, of k r] r E fs is_detached_fold [of ?D k rs]
    by (auto simp: is_detached_def [of ?E] simp flip: ED intro: executed_detaches)
  ultimately have "forget_roots ?E = forget_roots ?D" by (rule forget_roots_eq)
  with \<open>?P = {}\<close> E D show ?thesis by simp
qed

text \<open>Claim C6. Compaction is safe: for any replica of a reachable system that has nothing
  buffered, replaying the operations its compacted log keeps, in any order and with any
  duplicates, on a fresh replica returns, leaves nothing buffered and gives the view of the
  uncompacted replica. The sessions agree in every register, split point and parent link;
  only the \<open>detached\<close> flag of a clip without a parent, which nothing reads, may differ.\<close>

theorem compaction_preserves_view:
  assumes "sys_reachable S" and "tl_pending (sys_replica S p) = []"
    and "set ys = set (tl_log (timeline_compact (sys_replica S p)))"
  shows "\<exists>d. apply_remote_all ys (timeline_new q) = Some d \<and> tl_pending d = [] \<and>
    forget_roots (tl_session d) = forget_roots (tl_session (sys_replica S p)) \<and>
    timeline_view d = timeline_view (sys_replica S p) \<and> timeline_view d \<noteq> None"
proof -
  let ?c = "sys_replica S p"
  obtain es where c: "replica_ok (sys_keys S) es ?c" and X: "valid_ops (sys_keys S)"
    by (rule sys_replica_ok [OF assms(1)])
  have "set ys \<subseteq> set (tl_log ?c)" using assms(3) by (auto simp: compact_log_mem)
  with c have "op_key ` set ys \<subseteq> sys_keys S" "\<forall>x \<in> set ys. well_formed_op x"
    by (auto simp: replica_ok_def replica_core_def)
  with apply_remote_all_ok [OF X replica_ok_new quiescent_new, of ys q]
  obtain d fs where d: "apply_remote_all ys (timeline_new q) = Some d" "replica_ok (sys_keys S) fs d"
    "quiescent d" "op_key ` set (tl_log d) = op_key ` set ys"
    by (auto simp: timeline_new_def)
  from compaction_replayed [OF c X assms(2) d(2,3)] d(4) assms(3)
  have same: "tl_pending d = []" "forget_roots (tl_session d) = forget_roots (tl_session ?c)" by simp_all
  have "parents_wf (tl_session d)" "parents_wf (tl_session ?c)"
    using c d(2) by (auto simp: replica_ok_def intro: replica_core_wf [OF _ X])
  with same(2) materialize_forget have "timeline_view d = timeline_view ?c" "timeline_view d \<noteq> None"
    using materialize_returns [of "tl_session d"] by (metis timeline_view_def option.distinct(1))+
  with d(1) same show ?thesis by blast
qed

text \<open>The peer renames its track twice; the first rename is compacted away.\<close>

definition example_rename :: "string \<Rightarrow> timeline_operation" where
  "example_rename n = UpdateTrackMetadata (TrackId 1) (track_metadata_update_default\<lparr>tm_name := Some n\<rparr>)"

definition renamed_once :: "tagged_operation \<times> timeline_crdt" where
  "renamed_once = the (apply_local (example_rename ''Kit'') 1 (snd example_issue))"

definition renamed_twice :: "tagged_operation \<times> timeline_crdt" where
  "renamed_twice = the (apply_local (example_rename ''Drums'') 2 (snd renamed_once))"

lemma rename_admissible:
  "\<forall>y \<in> Y. split_of (operation y) = None \<Longrightarrow> admissible (example_rename n) Y"
  by (simp add: admissible_def origin_compatible_def example_rename_def split_of_def)

lemma renamed_reachable:
  "sys_reachable (issue (PeerId 1) (fst renamed_twice) (snd renamed_twice)
    (issue (PeerId 1) (fst renamed_once) (snd renamed_once) example_issued))"
proof (intro sys_reachable.step [OF _ sys_step.local])
  have "apply_local (example_rename ''Kit'') 1 (snd example_issue) \<noteq> None"
    "apply_local (example_rename ''Drums'') 2 (snd renamed_once) \<noteq> None" by code_simp+
  then show "apply_local (example_rename ''Kit'') 1 (sys_replica example_issued (PeerId 1)) =
      Some (fst renamed_once, snd renamed_once)"
    "apply_local (example_rename ''Drums'') 2 (sys_replica
      (issue (PeerId 1) (fst renamed_once) (snd renamed_once) example_issued) (PeerId 1)) =
      Some (fst renamed_twice, snd renamed_twice)"
    by (simp_all add: renamed_once_def renamed_twice_def example_issued_def issue_def)
  have "clock_ok (snd example_issue)" "clock_ok (snd renamed_once)" by code_simp+
  then show "clock_ok (sys_replica example_issued (PeerId 1))"
    "clock_ok (sys_replica (issue (PeerId 1) (fst renamed_once) (snd renamed_once) example_issued) (PeerId 1))"
    by (simp_all add: example_issued_def issue_def)
  have "split_of (operation (fst example_issue)) = None" "split_of (operation (fst renamed_once)) = None"
    by code_simp+
  then show "admissible (example_rename ''Kit'') (sys_issued example_issued)"
    "admissible (example_rename ''Drums'')
      (sys_issued (issue (PeerId 1) (fst renamed_once) (snd renamed_once) example_issued))"
    by (intro rename_admissible; simp add: example_issued_def issue_def system_init_def)+
qed (rule example_issued_reachable)

theorem compaction_preserves_view_witness:
  "length (tl_log (snd renamed_twice)) = 3 \<and> length (tl_log (timeline_compact (snd renamed_twice))) = 2 \<and>
   (\<exists>d. apply_remote_all (rev (tl_log (timeline_compact (snd renamed_twice)))) (timeline_new (PeerId 7)) =
      Some d \<and> tl_pending d = [] \<and> timeline_view d = timeline_view (snd renamed_twice))"
proof -
  have "length (tl_log (snd renamed_twice)) = 3" "length (tl_log (timeline_compact (snd renamed_twice))) = 2"
    "tl_pending (snd renamed_twice) = []" by code_simp+
  then show ?thesis
    using compaction_preserves_view [OF renamed_reachable, of "PeerId 1"
      "rev (tl_log (timeline_compact (snd renamed_twice)))" "PeerId 7"]
    by (simp add: issue_def) blast
qed

end
