(* ===== verification/Spec2Isabelle.thy ===== *)
theory Spec2Isabelle
  imports Anomalies System_Properties Delta Replay Presence Transport_Control Peer_Registry
    Engine_Sessions Server_Limits Tcp Relay Relay_Client Signaling Token_Bucket Playhead Websocket
    Webrtc Discovery Dashboard Session_Cli Engine_Network Wire Tls
    Compaction_Laws
begin

text \<open>
  A model of tpt-av-sync: a library with which several peers edit one audio/video timeline.
  Every peer holds a replica of the session, a conflict-free replicated data type. An engine
  moves operations between the replicas over a transport, and beside it run presence,
  playhead synchronisation, discovery, two servers and command-line tools. All paths below are
  under \<open>src/\<close>, and a crate \<open>tpt-av-sync-x\<close> is written \<open>x\<close>.

  \<^bold>\<open>How the program is put together.\<close> A local edit enters \<open>TimelineCrdt\<close> (crdt), which stamps
  it with a Lamport timestamp, applies it to the \<open>Session\<close>, logs it and records its inverse.
  \<open>SyncEngine\<close> (net) broadcasts it over a \<open>Transport\<close> (loopback, TCP, WebSocket, WebRTC or the
  relay client), tracks it until it is acknowledged, or queues it while nobody is
  connected. The other side's reader decodes frames into an inbox; a tick of its engine
  validates each operation and hands it to its own replica, which buffers what refers to
  entities it does not know yet. The relay (server) forwards and stores the frames of a room,
  the signaling server forwards WebRTC envelopes, and the tools (cli) read the relay's logs.

  \<^bold>\<open>How the model follows it.\<close> A struct is a record, an enum a datatype, a method a function
  that returns the changed state; an error is the left summand of \<open>result\<close>. Integers are
  words of their width, wrapping or saturating where the code does; floats are bit
  patterns, with IEEE arithmetic where the code computes with them. Maps are finite maps, in the
  key order of the code's B-trees; where the code iterates over a hash map the order does
  not reach the result, is fixed by a sort or is an argument. Clocks, random bytes, codecs (bincode, JSON),
  Ed25519, SHA-256, sockets and the WebRTC, mDNS and TLS libraries are arguments. A loop that
  may run for ever is a \<open>partial_function (option)\<close>, whose value \<open>None\<close> is not returning; that it
  returns is proved. A panic that an input can cause is an outcome (\<open>Replay\<close>, \<open>Webrtc\<close>). Where tasks or threads share state a run is an arbitrary sequence of
  steps, one for each critical section or atomic access.

  \<^bold>\<open>Foundations.\<close>
  \<^item> \<open>Prelude\<close>: words, saturating arithmetic, ordered maps, decimal rendering.
  \<^item> \<open>Ids\<close>, \<open>Errors\<close>, \<open>Clocks\<close>: \<open>utils/src/peer_id.rs\<close>, \<open>operation_id.rs\<close>, \<open>error.rs\<close>,
    \<open>security.rs\<close>, \<open>clock.rs\<close>. \<open>Wire\<close>: \<open>wire.rs\<close> over a lawful bincode. \<open>Identity\<close>:
    \<open>identity.rs\<close>. The helpers of \<open>time.rs\<close> are in \<open>Clock_Sync\<close>.
  \<^item> \<open>Floats\<close>, \<open>Float_Rounding\<close>: double arithmetic, exact on small integers, and the rounding of
    quotients.
  \<^item> \<open>Bounded_Queue\<close>: the locale \<open>bounded_fifo\<close>, interpreted by the undo stack and the offline
    queue.

  \<^bold>\<open>The replicated session\<close> (\<open>crdt/src\<close>).
  \<^item> \<open>Operation\<close>: payload types, operations, validation. \<open>Merge\<close>: tags and registers; the
    locale \<open>lww_register\<close>.
  \<^item> \<open>Clip_Crdt\<close>, \<open>Track_Crdt\<close>, \<open>Envelope_Crdt\<close>: the entities. \<open>Session_State\<close>: the write half of
    \<open>state.rs\<close>; \<open>Resolve\<close>: the read half, from inherited fields to the view.
  \<^item> \<open>History\<close>, \<open>Compaction\<close>, \<open>Timeline\<close>, \<open>Delta\<close>, \<open>Replay\<close>: the files of these names.
  \<^item> \<open>Session_Laws\<close> shows that applications commute, under the discipline \<open>valid_ops\<close>: one
    operation per tag, and split children with ids of their own. \<open>Op_Crdt\<close> is the convergence
    argument as a locale, over operations with a guard and an effect. \<open>Replica\<close> shows that
    every method of a replica refines a run of it. \<open>Convergence\<close> puts replicas together, first for
    any delivery order, then as the reachable states of a system of peers. \<open>System_Properties\<close>
    adds refinement, well-formedness, bounded history and undo; \<open>Compaction_Laws\<close> shows that a
    compacted log replays to the same view.
    \<open>Split_Geometry\<close> shows that the pieces of a split clip tile its range. \<open>Anomalies\<close> has the
    schedules outside the discipline on which the code diverges, hangs or loses data.

  \<^bold>\<open>The engine and its transports\<close> (\<open>net/src\<close>).
  \<^item> \<open>Message\<close>, \<open>Net_Transport\<close>: messages, the trait and the loopback. The locale
    \<open>inbox_transport\<close> is what every transport keeps; \<open>transport\<close> adds, for the loopback and the
    relay client, that what was sent stays sent and that an accepted broadcast has sent its message. A
    broadcast that fails may have reached some of the ends, on every transport.
  \<^item> \<open>Offline_Queue\<close>, \<open>Reliability\<close> (with the batcher), \<open>Peer_Registry\<close>, \<open>Engine\<close>: the files of these
    names. \<open>Engine_Sessions\<close>: ticks, convergence of engines with any past, queueing and flushing over the loopback.
  \<^item> \<open>Tcp\<close>, \<open>Websocket\<close>, \<open>Webrtc\<close>: framing, handshakes, readers, writes that fail after part of a frame, buffers. \<open>Engine_Network\<close>
    interprets the contract on all three and leads from the bytes of two connections to equal
    sessions. \<open>Discovery\<close>: beacons and mDNS, two interpretations of one locale. \<open>Tls\<close>: certificate
    trust.

  \<^bold>\<open>Beside the session.\<close>
  \<^item> \<open>Presence\<close> (\<open>presence/src\<close>); \<open>Transport_Control\<close>, \<open>Clock_Sync\<close>, \<open>Playhead\<close> (\<open>playhead/src\<close>): who
    is there, and where the playhead of a follower is against its master's.
  \<^item> \<open>Server_Limits\<close>, \<open>Token_Bucket\<close> (\<open>server/src/limits.rs\<close>), \<open>Persistence\<close> (\<open>persistence.rs\<close>),
    \<open>Relay\<close> and \<open>Relay_Client\<close> (\<open>relay.rs\<close>), \<open>Signaling\<close> (\<open>signaling.rs\<close>): admission, storage and
    the connection tasks of both servers under every interleaving; the locale \<open>capped_rooms\<close>.
  \<^item> \<open>Dashboard\<close>, \<open>Session_Cli\<close> (\<open>cli/src\<close>): the dashboard's state, \<open>inspect\<close> and \<open>replay\<close>.

  \<^bold>\<open>What is shown.\<close> Replicas that received the same operations agree, in any order, with
  duplicates, through snapshots, compacted logs, engines, sockets, the relay's store and, at speeds
  that scale every gap, the replay tool (C1 to C7, C11, C27, C28). All these claims need the discipline
  \<open>valid_ops\<close>, as a hypothesis or as the guard \<open>admissible\<close> of the local, undo and redo steps of the
  peer system, which the code does not check: without it replicas diverge (C23 and \<open>Anomalies\<close>). Every reachable replica refines a run of its
  operations, is well formed, can be rendered, and dominates the tags it has seen (C3, C12, C14,
  C15). Local edits are sent or queued, and resends are bounded (C8, C9, C17). Splits tile, undo
  restores, validation is exact (C10, C13, C16). Clock offsets and positions are within half a round trip,
  and what the whole-millisecond stamps cut off, in the code's own arithmetic (C19, C20). Rooms are isolated and bounded, logs are read back
  and stay within their limit, and rate limits hold (C24 to C26, C29 to C34). TCP handshakes
  complete and trust live keys only, and readers deliver in order (C35 to C37). Other claims state
  defects: a view that hangs, splits that diverge, drift that is never measured, and peers and
  frames that a transport never admits or sends (C21 to C23, C38, C39).

  \<^bold>\<open>Bounds and fuel.\<close> A tick polls at most \<open>max_messages_per_tick\<close> times, as the code does; no
  other fuel is used. \<open>drain_pending\<close> ends because every pass that makes progress shortens the
  buffer, the readers because they consume their stream. \<open>inherit_loop\<close> and
  \<open>resolve_full_range\<close> follow parent links and return when these are well founded, which holds
  in every reachable state and fails in \<open>Anomalies\<close>. The exact float results hold for
  timestamps and counts below the bounds their statements name.

  \<^bold>\<open>Not modelled.\<close> Accept loops, task spawning, \<open>Drop\<close> and the blocking \<open>recv\<close>, which only wait or
  release; third-party protocol stacks and codecs, which are arguments; log lines, the
  layout of printed tables and the drawing of the dashboard; file system failures, which the
  store ignores; \<open>main.rs\<close>, \<open>relay_cmd.rs\<close> and \<open>signaling_cmd.rs\<close>, which start a component and
  wait; the signature checks of \<open>tls.rs\<close>, which only call rustls; the examples and the template.
  A full channel of the loopback, which would block its sender, and the memory of the machine
  are taken as unbounded.
\<close>

end
